(* ===== verification/Prelude.thy ===== *)
theory Prelude
  imports Main "HOL-Library.Word" "HOL-Library.Multiset"
begin

text \<open>
  The vocabulary the components of the development share: the Go value types the sources use
  (bytes, checksums, file modes, fixed-width signed arithmetic), error values, time stamps, and
  the generic lemmas on lists of bytes (reading a window, overwriting a range) and on indexed
  updates that the component proofs are built from.
\<close>

section \<open>Values\<close>

type_synonym byte = "8 word"
type_synonym uint64 = "64 word"
type_synonym FileMode = "32 word"

text \<open>
  A \<open>time.Time\<close> is the number of nanoseconds since the zero value \<open>time.Time{}\<close>, so the zero
  value is 0 and every clock reading is positive; \<open>a.After(b)\<close> is \<open>b < a\<close>.
\<close>

type_synonym time = int
type_synonym duration = int

text \<open>
  Errors are values. \<open>EOF\<close> is \<open>io.EOF\<close>; \<open>Error s\<close> is an error built by \<open>fmt.Errorf\<close> or
  \<open>errors.New\<close> and carries the constant part of its message; the \<open>E...\<close> values are the system
  errors of the file operations; \<open>IndexPanic\<close> is Go's run-time panic of an index out of range.
\<close>

datatype go_error =
    EOF
  | Error string
  | ENOENT
  | EEXIST
  | ENOTDIR
  | EISDIR
  | EACCES
  | ELOOP
  | EINVAL
  | ENOTEMPTY
  | IndexPanic

type_synonym 'a result = "go_error + 'a"

section \<open>Fixed-width signed arithmetic\<close>

text \<open>Go's \<open>int64\<close> and \<open>int32\<close> wrap around silently (two's complement).\<close>

definition i64 :: "int \<Rightarrow> int" where
  "i64 x = (x + 2 ^ 63) mod 2 ^ 64 - 2 ^ 63"

definition i32 :: "int \<Rightarrow> int" where
  "i32 x = (x + 2 ^ 31) mod 2 ^ 32 - 2 ^ 31"

lemma i64_id [simp]: "- (2 ^ 63) \<le> x \<Longrightarrow> x < 2 ^ 63 \<Longrightarrow> i64 x = x"
  by (simp add: i64_def)

lemma i32_id [simp]: "- (2 ^ 31) \<le> x \<Longrightarrow> x < 2 ^ 31 \<Longrightarrow> i32 x = x"
  by (simp add: i32_def)

lemma i64_range: "- (2 ^ 63) \<le> i64 x \<and> i64 x < 2 ^ 63"
proof -
  have "0 \<le> (x + 2 ^ 63) mod 2 ^ 64" and "(x + 2 ^ 63) mod 2 ^ 64 < 2 ^ 64"
    by simp_all
  then show ?thesis by (simp add: i64_def)
qed

lemma i32_add_left: "i32 (i32 x + y) = i32 (x + y)"
  by (simp add: i32_def mod_simps algebra_simps)

lemma i64_add_left: "i64 (i64 x + y) = i64 (x + y)"
  by (simp add: i64_def mod_simps algebra_simps)

section \<open>Byte sequences\<close>

definition window :: "nat \<Rightarrow> nat \<Rightarrow> 'a list \<Rightarrow> 'a list" where
  "window off len xs = take len (drop off xs)"

text \<open>
  Writing the bytes \<open>bs\<close> at offset \<open>off\<close> of a file whose content is \<open>xs\<close>: a write past the end
  extends the file, a gap reads as zeros, and writing no bytes changes nothing.
\<close>

definition overwrite :: "nat \<Rightarrow> byte list \<Rightarrow> byte list \<Rightarrow> byte list" where
  "overwrite off bs xs =
     (if bs = [] then xs
      else take off xs @ replicate (off - length xs) 0 @ bs @ drop (off + length bs) xs)"

lemma length_window [simp]: "length (window off len xs) = min len (length xs - off)"
  by (simp add: window_def)

lemma window_nth [simp]: "k < len \<Longrightarrow> off + k < length xs \<Longrightarrow> window off len xs ! k = xs ! (off + k)"
  by (simp add: window_def)

lemma window_0 [simp]: "window off 0 xs = []"
  by (simp add: window_def)

lemma window_all [simp]: "window 0 (length xs) xs = xs"
  by (simp add: window_def)

lemma window_append_adjacent: "window a m xs @ window (a + m) n xs = window a (m + n) xs"
  by (simp add: window_def take_add drop_drop add.commute)

lemma length_overwrite_inside [simp]:
  "off + length bs \<le> length xs \<Longrightarrow> length (overwrite off bs xs) = length xs"
  by (auto simp: overwrite_def)

lemma nth_overwrite_inside:
  assumes "off + length bs \<le> length xs" and "k < length xs"
  shows "overwrite off bs xs ! k =
           (if off \<le> k \<and> k < off + length bs then bs ! (k - off) else xs ! k)"
proof (cases "bs = []")
  case True
  then show ?thesis by (auto simp: overwrite_def)
next
  case False
  consider "k < off" | "off \<le> k" "k < off + length bs" | "off + length bs \<le> k"
    by linarith
  then show ?thesis
    using assms False by cases (auto simp: overwrite_def nth_append)
qed

lemma overwrite_append: "overwrite (length xs) bs xs = xs @ bs"
  by (simp add: overwrite_def)

section \<open>Indexed data\<close>

lemma filter_upt_nth_index:
  "set (filter P [0..<n]) = {i. i < n \<and> P i}"
  by auto

lemma mset_update_swap:
  assumes "i < length xs" and "x = xs ! i"
  shows "mset (xs[i := y]) = mset xs - {#x#} + {#y#}"
  using assms by (simp add: mset_update)

text \<open>\<open>sum_list\<close> over a list in which one element changes.\<close>

lemma sum_list_update_int:
  fixes xs :: "int list"
  assumes "i < length xs"
  shows "sum_list (xs[i := y]) = sum_list xs - xs ! i + y"
  using assms
proof (induction xs arbitrary: i)
  case Nil
  then show ?case by simp
next
  case (Cons x xs)
  then show ?case by (cases i) auto
qed

end
