(* ===== verification/Chunk_Queue.thy ===== *)
theory Chunk_Queue
  imports Prelude
begin

text \<open>
  Package \<open>transfer\<close>, file \<open>chunk_queue.go\<close>. Every operation holds the queue's lock from start to
  end, so an operation is one step on the slice \<open>queue.queue\<close>. The generator of random numbers is an
  argument: \<open>draw n\<close> is what it delivers when asked for a number, reduced to the range the code
  asks for. The interface \<open>work_queue\<close> states what the downloaders rely on, that the queue loses and
  invents nothing; it is interpreted on the queue's own operations.
\<close>

section \<open>The queue\<close>

type_synonym ChunkQueue = "nat list"

definition NewChunkQueue :: ChunkQueue where
  "NewChunkQueue = []"

definition PushBack :: "nat \<Rightarrow> ChunkQueue \<Rightarrow> ChunkQueue" where
  "PushBack index queue = queue @ [index]"

definition swap :: "nat \<Rightarrow> nat \<Rightarrow> 'a list \<Rightarrow> 'a list" where
  "swap i j xs = xs[i := xs ! j, j := xs ! i]"

text \<open>
  \<open>rand.Shuffle(n, swap)\<close> is the Fisher-Yates shuffle: for \<open>i\<close> from \<open>n - 1\<close> down to 1 it swaps
  \<open>i\<close> with a random position that is at most \<open>i\<close>.
\<close>

fun Shuffle :: "(nat \<Rightarrow> nat) \<Rightarrow> nat \<Rightarrow> 'a list \<Rightarrow> 'a list" where
  "Shuffle draw 0 xs = xs"
| "Shuffle draw (Suc 0) xs = xs"
| "Shuffle draw (Suc (Suc i)) xs =
     Shuffle draw (Suc i) (swap (Suc i) (draw (Suc i) mod Suc (Suc i)) xs)"

definition PushShuffledList :: "(nat \<Rightarrow> nat) \<Rightarrow> nat list \<Rightarrow> ChunkQueue \<Rightarrow> ChunkQueue" where
  "PushShuffledList draw indices queue = queue @ Shuffle draw (length indices) indices"

definition PushShuffle :: "nat \<Rightarrow> nat \<Rightarrow> ChunkQueue \<Rightarrow> ChunkQueue" where
  "PushShuffle draw index queue =
     (let queue' = queue @ [index];
          lenQueue = length queue';
          indexInsert = draw mod lenQueue
      in swap indexInsert (lenQueue - 1) queue')"

definition Pop :: "ChunkQueue \<Rightarrow> (nat \<times> bool) \<times> ChunkQueue" where
  "Pop queue = (case queue of [] \<Rightarrow> ((0, False), queue) | index # rest \<Rightarrow> ((index, True), rest))"

section \<open>Basic facts\<close>

lemma length_swap [simp]: "length (swap i j xs) = length xs"
  by (simp add: swap_def)

lemma mset_swap_any [simp]: "i < length xs \<Longrightarrow> j < length xs \<Longrightarrow> mset (swap i j xs) = mset xs"
  by (simp add: swap_def mset_swap)

lemma mset_Shuffle [simp]: "n \<le> length xs \<Longrightarrow> mset (Shuffle draw n xs) = mset xs"
proof (induction draw n xs rule: Shuffle.induct)
  case (3 draw i xs)
  have "draw (Suc i) mod Suc (Suc i) < Suc (Suc i)" by (rule mod_less_divisor) simp
  then have "draw (Suc i) mod Suc (Suc i) < length xs" "Suc i < length xs"
    using "3.prems" by linarith+
  then show ?case using 3 by simp
qed simp_all

lemma mset_PushShuffle [simp]: "mset (PushShuffle draw index queue) = mset queue + {#index#}"
proof -
  have "draw mod Suc (length queue) < Suc (length queue)" by (rule mod_less_divisor) simp
  then show ?thesis by (simp add: PushShuffle_def Let_def)
qed

section \<open>The interface of a work queue\<close>

text \<open>
  What a user of a work queue relies on: the multiset of the pending elements grows by what is
  pushed, shrinks by what is popped, and popping fails on the empty queue only.
\<close>

locale work_queue =
  fixes empty :: 'q
    and push :: "'a \<Rightarrow> 'q \<Rightarrow> 'q"
    and push_all :: "'a list \<Rightarrow> 'q \<Rightarrow> 'q"
    and pop :: "'q \<Rightarrow> ('a \<times> bool) \<times> 'q"
    and pending :: "'q \<Rightarrow> 'a multiset"
  assumes pending_empty: "pending empty = {#}"
    and pending_push: "pending (push x q) = pending q + {#x#}"
    and pending_push_all: "pending (push_all xs q) = pending q + mset xs"
    and pop_some: "pop q = ((x, True), q') \<Longrightarrow> pending q = pending q' + {#x#}"
    and pop_none: "pop q = ((x, False), q') \<Longrightarrow> pending q = {#} \<and> q' = q"
begin

fun run :: "'q \<Rightarrow> ('a list + unit) list \<Rightarrow> 'a list \<times> 'q" where
  "run q [] = ([], q)"
| "run q (Inl [x] # ops) = run (push x q) ops"
| "run q (Inl xs # ops) = run (push_all xs q) ops"
| "run q (Inr _ # ops) =
     (let (r, q') = pop q; (out, q'') = run q' ops
      in (if snd r then fst r # out else out, q''))"

definition pushed :: "('a list + unit) list \<Rightarrow> 'a multiset" where
  "pushed ops = mset (concat (map (\<lambda>c. case c of Inl xs \<Rightarrow> xs | Inr _ \<Rightarrow> []) ops))"

lemma pop_cases:
  obtains (some) x q' where "pop q = ((x, True), q')" "pending q = pending q' + {#x#}"
  | (none) x where "pop q = ((x, False), q)" "pending q = {#}"
  by (metis (full_types) pop_none pop_some prod.exhaust)

lemma pop_nonempty: "pending q \<noteq> {#} \<Longrightarrow> \<exists>x q'. pop q = ((x, True), q')"
  by (cases q rule: pop_cases) auto

lemma conservation: "run q ops = (out, q') \<Longrightarrow> pending q + pushed ops = mset out + pending q'"
proof (induction q ops arbitrary: out q' rule: run.induct)
  case (4 q u ops)
  obtain r q1 where p: "pop q = (r, q1)" by (cases "pop q")
  obtain o1 q2 where o1: "run q1 ops = (o1, q2)" by (cases "run q1 ops")
  have res: "out = (if snd r then fst r # o1 else o1)" "q' = q2"
    using "4.prems" p o1 by (auto simp: Let_def)
  have "pending q1 + pushed ops = mset o1 + pending q2"
    using "4.IH" [of "(r, q1)" r q1 o1] p o1 by simp
  moreover have "pending q = pending q1 + (if snd r then {#fst r#} else {#})"
    using p by (cases q rule: pop_cases) auto
  ultimately show ?case using res by (simp add: pushed_def)
qed (auto simp: pushed_def pending_push pending_push_all ac_simps)

end

lemma Pop_simps [simp]:
  "Pop [] = ((0, False), [])"
  "Pop (x # xs) = ((x, True), xs)"
  by (simp_all add: Pop_def)

interpretation chunk_queue: work_queue NewChunkQueue PushBack "PushShuffledList draw" Pop mset
  for draw
  by unfold_locales (auto simp: NewChunkQueue_def PushBack_def PushShuffledList_def Pop_def split: list.splits)

section \<open>Properties\<close>

text \<open>
  A run of the queue as the program sees it: \<open>Inl xs\<close> pushes the indices \<open>xs\<close> (one index with
  \<open>PushBack\<close>, several with \<open>PushShuffledList\<close>), \<open>Inr ()\<close> pops.
\<close>

definition queue_run :: "(nat \<Rightarrow> nat) \<Rightarrow> ChunkQueue \<Rightarrow> (nat list + unit) list \<Rightarrow> nat list \<times> ChunkQueue" where
  "queue_run draw = chunk_queue.run draw"

definition queue_pushed :: "(nat list + unit) list \<Rightarrow> nat multiset" where
  "queue_pushed ops = mset (concat (map (\<lambda>c. case c of Inl xs \<Rightarrow> xs | Inr _ \<Rightarrow> []) ops))"

text \<open>Claim C4.
  The queue conserves chunk indices: over every sequence of pushes and pops, whatever the random
  numbers are, the indices that were in the queue or were pushed are, counted with multiplicity,
  exactly those that were popped or are still in the queue. So shuffling loses no chunk and makes
  no chunk be downloaded twice.\<close>

theorem queue_conservation:
  assumes "queue_run draw q ops = (out, q')"
  shows "mset q + queue_pushed ops = mset out + mset q'"
  using chunk_queue.conservation [of draw q ops out q'] assms
  unfolding queue_run_def queue_pushed_def chunk_queue.pushed_def .

theorem queue_conservation_witness:
  "queue_run (\<lambda>_. 0) NewChunkQueue [Inl [1, 2, 3], Inr (), Inl [4], Inr ()] = ([2, 3], [1, 4]) \<and>
   mset NewChunkQueue + queue_pushed [Inl [1, 2, 3], Inr (), Inl [4], Inr ()] = mset [2, 3] + mset [1, 4]"
proof -
  have run: "queue_run (\<lambda>_. 0) NewChunkQueue [Inl [1, 2, 3], Inr (), Inl [4], Inr ()] = ([2, 3], [1, 4])"
    by (simp add: queue_run_def NewChunkQueue_def PushBack_def PushShuffledList_def swap_def)
  show ?thesis using run queue_conservation [OF run] by blast
qed

text \<open>\<open>PushShuffle\<close> inserts one index and can place it at every position: the queue gains exactly that
  index, and for each position of the longer queue the random number that equals the position
  puts the new index there and moves the index that was there to the end.\<close>

theorem PushShuffle_places:
  assumes "p \<le> length queue"
  shows "mset (PushShuffle draw index queue) = mset queue + {#index#} \<and>
    PushShuffle p index queue ! p = index \<and>
    (p < length queue \<longrightarrow> last (PushShuffle p index queue) = queue ! p)"
proof -
  have "p mod Suc (length queue) = p" using assms by simp
  then have eq: "PushShuffle p index queue = swap p (length queue) (queue @ [index])"
    by (simp add: PushShuffle_def Let_def)
  have "last (swap p (length queue) (queue @ [index])) = queue ! p" if "p < length queue"
    using that by (subst last_conv_nth) (auto simp: swap_def nth_append)
  then show ?thesis using assms eq by (auto simp: swap_def nth_append nth_list_update)
qed

theorem PushShuffle_places_witness:
  "PushShuffle 1 9 [5, 6, 7] = [5, 9, 7, 6] \<and> PushShuffle 1 9 [5, 6, 7] ! 1 = 9"
  using PushShuffle_places [of 1 "[5, 6, 7]" 9 9]
  by (simp add: PushShuffle_def swap_def Let_def)

end
