(* ===== verification/Entries.thy ===== *)
theory Entries
  imports Prelude
begin

text \<open>
  Package \<open>utils\<close>, file \<open>atomic.go\<close>, and package \<open>types\<close>, file \<open>entry.go\<close>: the atomic cells and
  the four kinds of entries a storage is made of. An atomic operation is one step of the model,
  a function from the cell to its result and the new cell.
\<close>

section \<open>utils/atomic.go\<close>

type_synonym AtomicDuration = int

definition AtomicDuration_Load :: "AtomicDuration \<Rightarrow> duration" where
  "AtomicDuration_Load d = d"

definition AtomicDuration_Store :: "duration \<Rightarrow> AtomicDuration \<Rightarrow> AtomicDuration" where
  "AtomicDuration_Store val d = val"

definition AtomicDuration_Swap :: "duration \<Rightarrow> AtomicDuration \<Rightarrow> duration \<times> AtomicDuration" where
  "AtomicDuration_Swap new d = (d, new)"

definition AtomicDuration_CompareAndSwap ::
  "duration \<Rightarrow> duration \<Rightarrow> AtomicDuration \<Rightarrow> bool \<times> AtomicDuration" where
  "AtomicDuration_CompareAndSwap old new d = (if d = old then (True, new) else (False, d))"

definition AtomicDuration_Add :: "duration \<Rightarrow> AtomicDuration \<Rightarrow> duration \<times> AtomicDuration" where
  "AtomicDuration_Add delta d = (i64 (d + delta), i64 (d + delta))"

text \<open>An \<open>atomic.Value\<close> that holds a \<open>time.Time\<close>; \<open>None\<close> is the cell nothing was stored in.\<close>

type_synonym AtomicTime = "time option"

definition AtomicTime_Load :: "AtomicTime \<Rightarrow> time" where
  "AtomicTime_Load v = (case v of None \<Rightarrow> 0 | Some t \<Rightarrow> t)"

definition AtomicTime_Store :: "time \<Rightarrow> AtomicTime \<Rightarrow> AtomicTime" where
  "AtomicTime_Store val v = Some val"

definition AtomicTime_Swap :: "time \<Rightarrow> AtomicTime \<Rightarrow> time \<times> AtomicTime" where
  "AtomicTime_Swap new v = ((case v of None \<Rightarrow> 0 | Some t \<Rightarrow> t), Some new)"

definition AtomicTime_CompareAndSwap :: "time \<Rightarrow> time \<Rightarrow> AtomicTime \<Rightarrow> bool \<times> AtomicTime" where
  "AtomicTime_CompareAndSwap old new v =
     (if v = Some old then (True, Some new) else (False, v))"

lemma AtomicTime_Load_Store [simp]: "AtomicTime_Load (AtomicTime_Store t v) = t"
  by (simp add: AtomicTime_Load_def AtomicTime_Store_def)

section \<open>types/entry.go\<close>

record DirEntry =
  de_Name :: string
  de_Perm :: FileMode

record SymlinkEntry =
  se_Name :: string
  se_SymlinkTo :: string

record EmptyFileEntry =
  ee_Name :: string
  ee_Perm :: FileMode

record FileEntry =
  fe_Name :: string
  fe_Size :: int
  fe_Perm :: FileMode
  fe_remainingChunkCount :: int

text \<open>The interface \<open>Entry\<close> with the four types that implement it.\<close>

datatype Entry =
    EDir DirEntry
  | ESymlink SymlinkEntry
  | EEmptyFile EmptyFileEntry
  | EFile FileEntry

fun GetName :: "Entry \<Rightarrow> string" where
  "GetName (EDir e) = de_Name e"
| "GetName (ESymlink e) = se_Name e"
| "GetName (EEmptyFile e) = ee_Name e"
| "GetName (EFile e) = fe_Name e"

definition FileEntry_Copy :: "FileEntry \<Rightarrow> FileEntry" where
  "FileEntry_Copy e =
     \<lparr>fe_Name = fe_Name e, fe_Size = fe_Size e, fe_Perm = fe_Perm e, fe_remainingChunkCount = 0\<rparr>"

definition IncrementRemainingChunkCount :: "FileEntry \<Rightarrow> int \<times> FileEntry" where
  "IncrementRemainingChunkCount e =
     (let n = i32 (fe_remainingChunkCount e + 1) in (n, e\<lparr>fe_remainingChunkCount := n\<rparr>))"

definition DecrementRemainingChunkCount :: "FileEntry \<Rightarrow> int \<times> FileEntry" where
  "DecrementRemainingChunkCount e =
     (let n = i32 (fe_remainingChunkCount e - 1) in (n, e\<lparr>fe_remainingChunkCount := n\<rparr>))"

lemma FileEntry_Copy_simps [simp]:
  "fe_Name (FileEntry_Copy e) = fe_Name e"
  "fe_Size (FileEntry_Copy e) = fe_Size e"
  "fe_Perm (FileEntry_Copy e) = fe_Perm e"
  "fe_remainingChunkCount (FileEntry_Copy e) = 0"
  by (simp_all add: FileEntry_Copy_def)

end
