(* ===== verification/Chunks.thy ===== *)
theory Chunks
  imports Entries "HOL-Library.List_Lexorder" "HOL-Library.Char_ord"
begin

text \<open>
  Package \<open>types\<close>, file \<open>chunk.go\<close>: the transfer unit \<open>Chunk\<close>, its status cell, and
  \<open>BuildChunks\<close>, which packs the sorted file list greedily into chunks. The inner loop of
  \<open>BuildChunks\<close> is a \<open>partial_function (option)\<close>: with a chunk size of 0 it never leaves the loop,
  and \<open>None\<close> is that. The lemmas show that it returns for every positive chunk size and that the
  chunks it returns cut every file into adjacent ranges, within the size and the file-count limit.
\<close>

section \<open>Definitions\<close>

record FileRange =
  FileIndex :: nat
  StartOffset :: int
  EndOffset :: int

datatype ChunkStatus = ChunkStatusPending | ChunkStatusDownloading | ChunkStatusDone

record Chunk =
  FileRanges :: "FileRange list"
  ck_status :: ChunkStatus
  ck_updatedAt :: AtomicTime

text \<open>The zero value \<open>Chunk{}\<close>.\<close>

definition Chunk0 :: Chunk where
  "Chunk0 = \<lparr>FileRanges = [], ck_status = ChunkStatusPending, ck_updatedAt = None\<rparr>"

definition Chunk_copy :: "Chunk \<Rightarrow> Chunk" where
  "Chunk_copy c = Chunk0\<lparr>FileRanges := FileRanges c\<rparr>"

text \<open>The loop of \<open>Size\<close>, with its \<open>int64\<close> accumulator.\<close>

fun Chunk_Size_loop :: "int \<Rightarrow> FileRange list \<Rightarrow> int" where
  "Chunk_Size_loop len [] = len"
| "Chunk_Size_loop len (r # rs) = Chunk_Size_loop (i64 (len + i64 (EndOffset r - StartOffset r))) rs"

definition Chunk_Size :: "Chunk \<Rightarrow> int" where
  "Chunk_Size c = Chunk_Size_loop 0 (FileRanges c)"

definition Chunk_GetStatus :: "Chunk \<Rightarrow> ChunkStatus" where
  "Chunk_GetStatus c = ck_status c"

definition Chunk_SetStatus :: "ChunkStatus \<Rightarrow> Chunk \<Rightarrow> Chunk" where
  "Chunk_SetStatus s c = c\<lparr>ck_status := s\<rparr>"

definition Chunk_UpdateStatus :: "ChunkStatus \<Rightarrow> ChunkStatus \<Rightarrow> Chunk \<Rightarrow> bool \<times> Chunk" where
  "Chunk_UpdateStatus oldStatus newStatus c =
     (if ck_status c = oldStatus then (True, c\<lparr>ck_status := newStatus\<rparr>) else (False, c))"

definition Chunk_GetUpdatedAt :: "Chunk \<Rightarrow> time" where
  "Chunk_GetUpdatedAt c = AtomicTime_Load (ck_updatedAt c)"

definition Chunk_SetUpdatedAt :: "time \<Rightarrow> Chunk \<Rightarrow> Chunk" where
  "Chunk_SetUpdatedAt t c = c\<lparr>ck_updatedAt := AtomicTime_Store t (ck_updatedAt c)\<rparr>"

text \<open>
  The variables of \<open>BuildChunks\<close> that its two closures \<open>newChunk\<close> and \<open>addToChunk\<close> write:
  the list of finished chunks, the chunk being filled and its size.
\<close>

record build_state =
  bs_chunkList :: "Chunk list"
  bs_chunk :: Chunk
  bs_currentChunkSize :: int

definition newChunk :: "build_state \<Rightarrow> build_state" where
  "newChunk st =
     \<lparr>bs_chunkList = bs_chunkList st @ [Chunk_copy (bs_chunk st)], bs_chunk = Chunk0,
      bs_currentChunkSize = 0\<rparr>"

definition addToChunk :: "nat \<Rightarrow> int \<Rightarrow> int \<Rightarrow> build_state \<Rightarrow> build_state" where
  "addToChunk index startOffset endOffset st =
     st\<lparr>bs_chunk := (bs_chunk st)\<lparr>FileRanges := FileRanges (bs_chunk st) @
            [\<lparr>FileIndex = index, StartOffset = startOffset, EndOffset = endOffset\<rparr>]\<rparr>,
        bs_currentChunkSize := i64 (bs_currentChunkSize st + i64 (endOffset - startOffset))\<rparr>"

text \<open>The loop over the rest of one file (\<open>for remainFilesize > 0\<close>).\<close>

partial_function (option) BuildChunks_file ::
  "int \<Rightarrow> int \<Rightarrow> nat \<Rightarrow> int \<Rightarrow> int \<Rightarrow> FileEntry \<Rightarrow> build_state \<Rightarrow> (FileEntry \<times> build_state) option"
where
  "BuildChunks_file chunkSize maxFileCountPerChunk index startOffset remainFilesize file st =
     (if remainFilesize > 0 then
        let file' = snd (IncrementRemainingChunkCount file) in
        if i64 (bs_currentChunkSize st + remainFilesize) < chunkSize then
          let st' = addToChunk index startOffset (fe_Size file) st in
          Some (file',
            if int (length (FileRanges (bs_chunk st'))) = maxFileCountPerChunk
            then newChunk st' else st')
        else
          let size = i64 (chunkSize - bs_currentChunkSize st) in
          BuildChunks_file chunkSize maxFileCountPerChunk index
            (i64 (startOffset + size)) (i64 (remainFilesize - size)) file'
            (newChunk (addToChunk index startOffset (i64 (startOffset + size)) st))
      else Some (file, st))"

text \<open>The loop over the files (\<open>for index := range files\<close>).\<close>

fun BuildChunks_files ::
  "int \<Rightarrow> int \<Rightarrow> nat \<Rightarrow> FileEntry list \<Rightarrow> build_state \<Rightarrow> (FileEntry list \<times> build_state) option" where
  "BuildChunks_files chunkSize maxFileCountPerChunk index [] st = Some ([], st)"
| "BuildChunks_files chunkSize maxFileCountPerChunk index (file # files) st =
     (case BuildChunks_file chunkSize maxFileCountPerChunk index 0 (fe_Size file) file st of
        None \<Rightarrow> None
      | Some (file', st') \<Rightarrow>
          (case BuildChunks_files chunkSize maxFileCountPerChunk (Suc index) files st' of
             None \<Rightarrow> None
           | Some (files', st'') \<Rightarrow> Some (file' # files', st'')))"

text \<open>
  \<open>BuildChunks\<close> sorts the caller's slice in place and counts the ranges of every file in it, so
  the model returns the slice as it is left beside the chunks. \<open>sort.Slice\<close> compares names as byte
  strings; the names of a manifest are distinct, so that the sorted slice is unique.
\<close>

definition BuildChunks :: "FileEntry list \<Rightarrow> int \<Rightarrow> int \<Rightarrow> (FileEntry list \<times> Chunk list) option" where
  "BuildChunks files chunkSize maxFileCountPerChunk =
     (if files = [] then Some ([], [])
      else
        (case BuildChunks_files chunkSize maxFileCountPerChunk 0 (sort_key fe_Name files)
                \<lparr>bs_chunkList = [], bs_chunk = Chunk0, bs_currentChunkSize = 0\<rparr> of
           None \<Rightarrow> None
         | Some (files', st) \<Rightarrow>
             Some (files',
               if FileRanges (bs_chunk st) \<noteq> []
               then bs_chunkList st @ [Chunk_copy (bs_chunk st)] else bs_chunkList st)))"

section \<open>Ranges, limits and the loop invariant\<close>

definition range_len :: "FileRange \<Rightarrow> int" where
  "range_len r = EndOffset r - StartOffset r"

definition chunk_bytes :: "Chunk \<Rightarrow> int" where
  "chunk_bytes c = sum_list (map range_len (FileRanges c))"

text \<open>The ranges cut the interval from \<open>a\<close> to \<open>b\<close> into adjacent, non-empty pieces.\<close>

fun contiguous :: "int \<Rightarrow> FileRange list \<Rightarrow> int \<Rightarrow> bool" where
  "contiguous a [] b \<longleftrightarrow> a = b"
| "contiguous a (r # rs) b \<longleftrightarrow>
     StartOffset r = a \<and> a < EndOffset r \<and> contiguous (EndOffset r) rs b"

definition flat_ranges :: "Chunk list \<Rightarrow> FileRange list" where
  "flat_ranges cs = concat (map FileRanges cs)"

definition fresh_chunk :: "Chunk \<Rightarrow> bool" where
  "fresh_chunk c \<longleftrightarrow> ck_status c = ChunkStatusPending \<and> ck_updatedAt c = None"

definition chunk_limits :: "int \<Rightarrow> int \<Rightarrow> Chunk \<Rightarrow> bool" where
  "chunk_limits chunkSize maxFiles c \<longleftrightarrow>
     FileRanges c \<noteq> [] \<and> chunk_bytes c \<le> chunkSize \<and>
     (0 < maxFiles \<longrightarrow> int (length (FileRanges c)) \<le> maxFiles) \<and> fresh_chunk c"

definition chunk_full :: "int \<Rightarrow> int \<Rightarrow> Chunk \<Rightarrow> bool" where
  "chunk_full chunkSize maxFiles c \<longleftrightarrow>
     chunk_bytes c = chunkSize \<or> int (length (FileRanges c)) = maxFiles"

definition state_ranges :: "build_state \<Rightarrow> FileRange list" where
  "state_ranges st = flat_ranges (bs_chunkList st) @ FileRanges (bs_chunk st)"

definition build_inv :: "int \<Rightarrow> int \<Rightarrow> build_state \<Rightarrow> bool" where
  "build_inv chunkSize maxFiles st \<longleftrightarrow>
     (\<forall>c \<in> set (bs_chunkList st). chunk_limits chunkSize maxFiles c \<and> chunk_full chunkSize maxFiles c) \<and>
     bs_currentChunkSize st = chunk_bytes (bs_chunk st) \<and>
     0 \<le> bs_currentChunkSize st \<and> bs_currentChunkSize st < chunkSize \<and>
     (0 < maxFiles \<longrightarrow> int (length (FileRanges (bs_chunk st))) < maxFiles)"

lemma contiguous_append:
  "contiguous a (rs @ ss) b \<longleftrightarrow> (\<exists>m. contiguous a rs m \<and> contiguous m ss b)"
  by (induction rs arbitrary: a) auto

lemma contiguous_le: "contiguous a rs b \<Longrightarrow> a \<le> b"
proof (induction rs arbitrary: a)
  case (Cons r rs)
  then show ?case by fastforce
qed simp

lemma contiguous_bounds:
  "contiguous a rs b \<Longrightarrow> r \<in> set rs \<Longrightarrow> a \<le> StartOffset r \<and> StartOffset r < EndOffset r \<and> EndOffset r \<le> b"
proof (induction rs arbitrary: a)
  case (Cons s rs)
  then show ?case using contiguous_le by (fastforce dest: contiguous_le)
qed simp

lemma contiguous_len: "contiguous a rs b \<Longrightarrow> sum_list (map range_len rs) = b - a"
  by (induction rs arbitrary: a) (auto simp: range_len_def)

lemma flat_ranges_simps [simp]:
  "flat_ranges [] = []"
  "flat_ranges (c # cs) = FileRanges c @ flat_ranges cs"
  "flat_ranges (cs @ ds) = flat_ranges cs @ flat_ranges ds"
  by (simp_all add: flat_ranges_def)

lemma Chunk_copy_simps [simp]:
  "FileRanges (Chunk_copy c) = FileRanges c"
  "fresh_chunk (Chunk_copy c)"
  "FileRanges Chunk0 = []"
  by (simp_all add: Chunk_copy_def Chunk0_def fresh_chunk_def)

lemma chunk_bytes_simps [simp]:
  "chunk_bytes (Chunk_copy c) = chunk_bytes c"
  "chunk_bytes Chunk0 = 0"
  by (simp_all add: chunk_bytes_def)

lemma state_ranges_newChunk [simp]: "state_ranges (newChunk st) = state_ranges st"
  by (simp add: state_ranges_def newChunk_def)

lemma state_ranges_addToChunk [simp]:
  "state_ranges (addToChunk i s e st) =
     state_ranges st @ [\<lparr>FileIndex = i, StartOffset = s, EndOffset = e\<rparr>]"
  by (simp add: state_ranges_def addToChunk_def)

text \<open>Closing a chunk keeps the invariant when the chunk is full.\<close>

lemma build_inv_close:
  assumes inv: "build_inv C m st" and "0 < C" and "0 \<le> s" and "s < e" and "e < 2 ^ 63"
    and fits: "chunk_bytes (bs_chunk st) + (e - s) \<le> C"
    and full: "chunk_bytes (bs_chunk st) + (e - s) = C \<or> int (Suc (length (FileRanges (bs_chunk st)))) = m"
  shows "build_inv C m (newChunk (addToChunk i s e st))"
proof -
  let ?c = "Chunk_copy ((bs_chunk st)\<lparr>FileRanges := FileRanges (bs_chunk st) @
              [\<lparr>FileIndex = i, StartOffset = s, EndOffset = e\<rparr>]\<rparr>)"
  have "chunk_bytes ?c = chunk_bytes (bs_chunk st) + (e - s)"
    by (simp add: chunk_bytes_def range_len_def)
  then have "chunk_limits C m ?c \<and> chunk_full C m ?c"
    using assms by (auto simp: chunk_limits_def chunk_full_def build_inv_def)
  then show ?thesis
    using inv \<open>0 < C\<close> by (auto simp: build_inv_def newChunk_def addToChunk_def)
qed

text \<open>Adding a range that does not fill the chunk keeps the invariant.\<close>

lemma build_inv_add:
  assumes "build_inv C m st" and "0 \<le> s" and "s < e" and "e < 2 ^ 63" and "C < 2 ^ 63"
    and "chunk_bytes (bs_chunk st) + (e - s) < C"
    and "0 < m \<longrightarrow> int (Suc (length (FileRanges (bs_chunk st)))) < m"
  shows "build_inv C m (addToChunk i s e st)"
  using assms by (auto simp: build_inv_def addToChunk_def chunk_bytes_def range_len_def)

section \<open>The loops\<close>

lemma Increment_count [simp]:
  "snd (IncrementRemainingChunkCount f) = f\<lparr>fe_remainingChunkCount := i32 (fe_remainingChunkCount f + 1)\<rparr>"
  by (simp add: IncrementRemainingChunkCount_def Let_def)

text \<open>What the loop over one file does: it returns, and appends a partition of the rest of the file.\<close>

definition file_done :: "int \<Rightarrow> int \<Rightarrow> nat \<Rightarrow> int \<Rightarrow> FileEntry \<Rightarrow> build_state \<Rightarrow>
    (FileEntry \<times> build_state) option \<Rightarrow> bool" where
  "file_done C m i start file st res \<longleftrightarrow>
     (\<exists>rs st'.
        res = Some (file\<lparr>fe_remainingChunkCount := i32 (fe_remainingChunkCount file + int (length rs))\<rparr>, st') \<and>
        build_inv C m st' \<and> state_ranges st' = state_ranges st @ rs \<and>
        contiguous start rs (fe_Size file) \<and> (\<forall>r \<in> set rs. FileIndex r = i))"

lemma file_doneI:
  assumes "res = Some (file\<lparr>fe_remainingChunkCount := i32 (fe_remainingChunkCount file + int (length rs))\<rparr>, st')"
    and "build_inv C m st'" and "state_ranges st' = state_ranges st @ rs"
    and "contiguous start rs (fe_Size file)" and "\<forall>r \<in> set rs. FileIndex r = i"
  shows "file_done C m i start file st res"
  unfolding file_done_def using assms by blast

text \<open>A split step: a range in front of what the rest of the loop appends.\<close>

lemma file_done_split:
  assumes "file_done C m i mid (file\<lparr>fe_remainingChunkCount := i32 (fe_remainingChunkCount file + 1)\<rparr>)
             (newChunk (addToChunk i start mid st)) res"
    and "start < mid"
  shows "file_done C m i start file st res"
proof -
  let ?f = "file\<lparr>fe_remainingChunkCount := i32 (fe_remainingChunkCount file + 1)\<rparr>"
  obtain rs st' where res: "res = Some (?f\<lparr>fe_remainingChunkCount := i32 (fe_remainingChunkCount ?f + int (length rs))\<rparr>, st')"
    and inv: "build_inv C m st'"
    and app: "state_ranges st' = state_ranges (newChunk (addToChunk i start mid st)) @ rs"
    and cont: "contiguous mid rs (fe_Size ?f)" and idx: "\<forall>r \<in> set rs. FileIndex r = i"
    using assms(1) unfolding file_done_def by blast
  let ?r = "\<lparr>FileIndex = i, StartOffset = start, EndOffset = mid\<rparr>"
  show ?thesis
  proof (rule file_doneI [where rs = "?r # rs" and st' = st'])
    show "res = Some (file\<lparr>fe_remainingChunkCount :=
        i32 (fe_remainingChunkCount file + int (length (?r # rs)))\<rparr>, st')"
      using res by (simp add: i32_add_left add.assoc)
    show "state_ranges st' = state_ranges st @ ?r # rs" using app by simp
    show "contiguous start (?r # rs) (fe_Size file)" using cont assms(2) by simp
  qed (use inv idx in auto)
qed

lemma BuildChunks_file_done:
  assumes "0 < C" and "0 \<le> start" and "0 \<le> remain" and "start + remain = fe_Size fl"
    and "fe_Size fl + C < 2 ^ 63" and "build_inv C m st"
    and "i32 (fe_remainingChunkCount fl) = fe_remainingChunkCount fl"
  shows "file_done C m i start fl st (BuildChunks_file C m i start remain fl st)"
  using assms
proof (induction "nat remain" arbitrary: start remain fl st rule: less_induct)
  case less
  note inv = \<open>build_inv C m st\<close>
  let ?cur = "bs_currentChunkSize st"
  let ?f = "fl\<lparr>fe_remainingChunkCount := i32 (fe_remainingChunkCount fl + 1)\<rparr>"
  have cur: "?cur = chunk_bytes (bs_chunk st)" "0 \<le> ?cur" "?cur < C"
    using inv by (auto simp: build_inv_def)
  have nowrap: "i64 (?cur + remain) = ?cur + remain" "i64 (C - ?cur) = C - ?cur"
    using less.prems cur by simp_all
  consider (stop) "remain = 0" | (fit) "0 < remain" "?cur + remain < C" | (split) "0 < remain" "C \<le> ?cur + remain"
    using less.prems by linarith
  then show ?case
  proof cases
    case stop
    then show ?thesis
      using less.prems by (intro file_doneI [where rs = "[]" and st' = st]) (simp_all add: BuildChunks_file.simps)
  next
    case fit
    let ?st = "addToChunk i start (fe_Size fl) st"
    let ?full = "int (length (FileRanges (bs_chunk ?st))) = m"
    have len: "length (FileRanges (bs_chunk ?st)) = Suc (length (FileRanges (bs_chunk st)))"
      by (simp add: addToChunk_def)
    have size: "fe_Size fl - start = remain" using less.prems by simp
    have inv': "build_inv C m (if ?full then newChunk ?st else ?st)"
    proof (cases ?full)
      case True
      then show ?thesis
        using less.prems fit cur len size build_inv_close [OF inv, of start "fe_Size fl" i] by simp
    next
      case False
      moreover have "0 < m \<longrightarrow> int (Suc (length (FileRanges (bs_chunk st)))) < m"
        using inv False len by (auto simp: build_inv_def)
      ultimately show ?thesis
        using less.prems fit cur len size build_inv_add [OF inv, of start "fe_Size fl" i] by simp
    qed
    show ?thesis
    proof (rule file_doneI [where rs = "[\<lparr>FileIndex = i, StartOffset = start, EndOffset = fe_Size fl\<rparr>]"
          and st' = "if ?full then newChunk ?st else ?st"])
      show "BuildChunks_file C m i start remain fl st =
          Some (fl\<lparr>fe_remainingChunkCount := i32 (fe_remainingChunkCount fl +
            int (length [\<lparr>FileIndex = i, StartOffset = start, EndOffset = fe_Size fl\<rparr>]))\<rparr>,
            if ?full then newChunk ?st else ?st)"
        using fit nowrap by (simp add: BuildChunks_file.simps [of C m i start remain] Let_def)
    qed (use inv' fit less.prems in auto)
  next
    case split
    let ?mid = "start + (C - ?cur)"
    let ?st = "newChunk (addToChunk i start ?mid st)"
    have mid: "start < ?mid" "?mid \<le> fe_Size fl" "i64 ?mid = ?mid" "i64 (remain - (C - ?cur)) = remain - (C - ?cur)"
      using split less.prems cur by simp_all
    have inv': "build_inv C m ?st"
      using split less.prems cur mid by (intro build_inv_close [OF inv]) simp_all
    have rest: "file_done C m i ?mid ?f ?st (BuildChunks_file C m i ?mid (remain - (C - ?cur)) ?f ?st)"
    proof (rule less.hyps)
      show "nat (remain - (C - ?cur)) < nat remain" using split cur by simp
      show "i32 (fe_remainingChunkCount ?f) = fe_remainingChunkCount ?f"
        using i32_add_left [of "fe_remainingChunkCount fl + 1" 0] by simp
    qed (use split less.prems cur inv' mid in simp_all)
    have step: "BuildChunks_file C m i start remain fl st =
        BuildChunks_file C m i ?mid (remain - (C - ?cur)) ?f ?st"
      using split nowrap mid by (simp add: BuildChunks_file.simps [of C m i start remain] Let_def)
    show ?thesis
      unfolding step by (rule file_done_split [OF rest mid(1)])
  qed
qed

definition index_ranges :: "nat \<Rightarrow> FileRange list \<Rightarrow> FileRange list" where
  "index_ranges i rs = filter (\<lambda>r. FileIndex r = i) rs"

lemma index_ranges_append [simp]: "index_ranges i (rs @ ss) = index_ranges i rs @ index_ranges i ss"
  by (simp add: index_ranges_def)

lemma index_ranges_same: "\<forall>r \<in> set rs. FileIndex r = i \<Longrightarrow> index_ranges j rs = (if i = j then rs else [])"
  by (induction rs) (auto simp: index_ranges_def)

lemma index_ranges_none: "\<forall>r \<in> set rs. FileIndex r \<noteq> i \<Longrightarrow> index_ranges i rs = []"
  by (auto simp: index_ranges_def filter_empty_conv)

text \<open>A file list \<open>files\<close>, numbered from \<open>k\<close>, is cut into the ranges \<open>rs\<close>, and counts them.\<close>

definition cut_into :: "nat \<Rightarrow> FileEntry list \<Rightarrow> FileEntry list \<Rightarrow> FileRange list \<Rightarrow> bool" where
  "cut_into k files files' rs \<longleftrightarrow>
     length files' = length files \<and>
     sorted (map FileIndex rs) \<and>
     (\<forall>r \<in> set rs. k \<le> FileIndex r \<and> FileIndex r < k + length files) \<and>
     (\<forall>j < length files.
        contiguous 0 (index_ranges (k + j) rs) (fe_Size (files ! j)) \<and>
        files' ! j = (files ! j)\<lparr>fe_remainingChunkCount :=
          i32 (fe_remainingChunkCount (files ! j) + int (length (index_ranges (k + j) rs)))\<rparr>)"

lemma cut_into_Cons:
  assumes rest: "cut_into (Suc k) files files' ss"
    and first: "contiguous 0 rs (fe_Size f)" "\<forall>r \<in> set rs. FileIndex r = k"
  shows "cut_into k (f # files)
           (f\<lparr>fe_remainingChunkCount := i32 (fe_remainingChunkCount f + int (length rs))\<rparr> # files') (rs @ ss)"
proof -
  have ss: "\<forall>r \<in> set ss. Suc k \<le> FileIndex r \<and> FileIndex r < Suc k + length files"
    using rest by (simp add: cut_into_def)
  have k_ss: "index_ranges k ss = []" using ss by (intro index_ranges_none) auto
  have rs_at: "index_ranges (k + j) rs = (if j = 0 then rs else [])" for j
    using index_ranges_same [OF first(2), of "k + j"] by simp
  have "sorted (map FileIndex (rs @ ss))"
    using rest ss first(2) by (auto simp: cut_into_def sorted_append intro: sorted_wrt_iff_nth_less [THEN iffD2])
  moreover have "contiguous 0 (index_ranges (k + j) (rs @ ss)) (fe_Size ((f # files) ! j)) \<and>
      (f\<lparr>fe_remainingChunkCount := i32 (fe_remainingChunkCount f + int (length rs))\<rparr> # files') ! j =
      ((f # files) ! j)\<lparr>fe_remainingChunkCount := i32 (fe_remainingChunkCount ((f # files) ! j) +
          int (length (index_ranges (k + j) (rs @ ss))))\<rparr>"
    if "j < length (f # files)" for j
    using that rest first(1) k_ss rs_at [of j] by (cases j) (auto simp: cut_into_def)
  moreover have "\<forall>r \<in> set (rs @ ss). k \<le> FileIndex r \<and> FileIndex r < k + length (f # files)"
    using ss first(2) by auto
  ultimately show ?thesis
    using rest by (auto simp: cut_into_def)
qed

lemma BuildChunks_files_done:
  assumes "0 < C" and "build_inv C m st"
    and "\<forall>f \<in> set files. 0 \<le> fe_Size f \<and> fe_Size f + C < 2 ^ 63 \<and>
           i32 (fe_remainingChunkCount f) = fe_remainingChunkCount f"
  shows "\<exists>files' st' rs. BuildChunks_files C m k files st = Some (files', st') \<and> build_inv C m st' \<and>
           state_ranges st' = state_ranges st @ rs \<and> cut_into k files files' rs"
  using assms
proof (induction files arbitrary: k st)
  case Nil
  then show ?case by (auto simp: cut_into_def)
next
  case (Cons f files)
  have "file_done C m k 0 f st (BuildChunks_file C m k 0 (fe_Size f) f st)"
    using Cons.prems by (intro BuildChunks_file_done) auto
  then obtain rs st1 where
    one: "BuildChunks_file C m k 0 (fe_Size f) f st =
        Some (f\<lparr>fe_remainingChunkCount := i32 (fe_remainingChunkCount f + int (length rs))\<rparr>, st1)"
    "build_inv C m st1" "state_ranges st1 = state_ranges st @ rs"
    "contiguous 0 rs (fe_Size f)" "\<forall>r \<in> set rs. FileIndex r = k"
    unfolding file_done_def by blast
  obtain files' st' ss where
    two: "BuildChunks_files C m (Suc k) files st1 = Some (files', st')" "build_inv C m st'"
    "state_ranges st' = state_ranges st1 @ ss" "cut_into (Suc k) files files' ss"
    using Cons.IH [of st1 "Suc k"] Cons.prems one(2) by auto
  show ?case
    using one two cut_into_Cons [OF two(4) one(4,5)] by (simp add: one(1) two(1))
qed

section \<open>BuildChunks\<close>

text \<open>What \<open>BuildChunks\<close> is given: sizes for which no \<open>int64\<close> sum of it overflows.\<close>

definition input_ok :: "int \<Rightarrow> FileEntry list \<Rightarrow> bool" where
  "input_ok chunkSize files \<longleftrightarrow> 0 < chunkSize \<and>
     (\<forall>f \<in> set files. 0 \<le> fe_Size f \<and> fe_Size f + chunkSize < 2 ^ 63 \<and> fe_remainingChunkCount f = 0)"

definition chunks_ok :: "int \<Rightarrow> int \<Rightarrow> Chunk list \<Rightarrow> bool" where
  "chunks_ok chunkSize maxFiles cs \<longleftrightarrow>
     (\<forall>c \<in> set cs. chunk_limits chunkSize maxFiles c) \<and>
     (\<forall>c \<in> set (butlast cs). chunk_full chunkSize maxFiles c)"

lemma BuildChunks_returns:
  assumes "input_ok C files"
  shows "\<exists>files' cs. BuildChunks files C m = Some (files', cs) \<and> chunks_ok C m cs \<and>
           cut_into 0 (sort_key fe_Name files) files' (flat_ranges cs)"
proof (cases "files = []")
  case True
  then show ?thesis by (simp add: BuildChunks_def chunks_ok_def cut_into_def)
next
  case False
  let ?st0 = "\<lparr>bs_chunkList = [], bs_chunk = Chunk0, bs_currentChunkSize = 0\<rparr>"
  have C: "0 < C" using assms by (simp add: input_ok_def)
  have inv0: "build_inv C m ?st0" using C by (simp add: build_inv_def)
  have sizes: "\<forall>f \<in> set (sort_key fe_Name files). 0 \<le> fe_Size f \<and> fe_Size f + C < 2 ^ 63 \<and>
           i32 (fe_remainingChunkCount f) = fe_remainingChunkCount f"
    using assms by (simp add: input_ok_def)
  obtain files' st rs where run: "BuildChunks_files C m 0 (sort_key fe_Name files) ?st0 = Some (files', st)"
    and inv: "build_inv C m st" and rs: "state_ranges st = rs"
    and cut: "cut_into 0 (sort_key fe_Name files) files' rs"
    using BuildChunks_files_done [OF C inv0 sizes, of 0] by (auto simp: state_ranges_def)
  let ?cs = "if FileRanges (bs_chunk st) \<noteq> [] then bs_chunkList st @ [Chunk_copy (bs_chunk st)] else bs_chunkList st"
  have "flat_ranges ?cs = rs" using rs by (auto simp: state_ranges_def)
  moreover have "chunks_ok C m ?cs"
    using inv by (auto simp: chunks_ok_def build_inv_def chunk_limits_def dest: in_set_butlastD)
  ultimately show ?thesis
    using run cut False by (auto simp: BuildChunks_def)
qed

lemma Chunk_Size_loop_sum:
  assumes "\<forall>r \<in> set rs. 0 \<le> StartOffset r \<and> StartOffset r \<le> EndOffset r \<and> EndOffset r < 2 ^ 63"
    and "0 \<le> len" and "len + sum_list (map range_len rs) < 2 ^ 63"
  shows "Chunk_Size_loop len rs = len + sum_list (map range_len rs)"
  using assms
proof (induction rs arbitrary: len)
  case (Cons r rs)
  have nn: "0 \<le> sum_list (map range_len rs)"
    using Cons.prems(1) by (intro sum_list_nonneg) (auto simp: range_len_def)
  have r: "0 \<le> range_len r" "range_len r < 2 ^ 63"
    using Cons.prems(1) by (auto simp: range_len_def)
  have w: "i64 (EndOffset r - StartOffset r) = range_len r"
    using r by (simp add: range_len_def)
  have "i64 (len + range_len r) = len + range_len r"
    using nn r Cons.prems(2,3) by simp
  then show ?case
    using Cons.IH [of "len + range_len r"] Cons.prems nn r w by simp
qed simp

lemma flat_ranges_bounds:
  assumes "cut_into 0 files files' (flat_ranges cs)" and "c \<in> set cs" and "r \<in> set (FileRanges c)"
  shows "FileIndex r < length files \<and> 0 \<le> StartOffset r \<and> StartOffset r < EndOffset r \<and>
    EndOffset r \<le> fe_Size (files ! FileIndex r)"
proof -
  have r: "r \<in> set (flat_ranges cs)" using assms(2,3) by (auto simp: flat_ranges_def)
  then have i: "FileIndex r < length files" using assms(1) by (auto simp: cut_into_def)
  have "r \<in> set (index_ranges (FileIndex r) (flat_ranges cs))" using r by (simp add: index_ranges_def)
  moreover have "contiguous 0 (index_ranges (FileIndex r) (flat_ranges cs)) (fe_Size (files ! FileIndex r))"
    using assms(1) i by (auto simp: cut_into_def)
  ultimately show ?thesis using i contiguous_bounds by blast
qed

lemma BuildChunks_bounds:
  assumes "input_ok C files" and "BuildChunks files C m = Some (files', cs)"
  shows "chunks_ok C m cs" and "cut_into 0 (sort_key fe_Name files) files' (flat_ranges cs)"
  using BuildChunks_returns [OF assms(1), of m] assms(2) by auto

lemma Chunk_Size_chunk_bytes:
  assumes inp: "input_ok C files" "C < 2 ^ 63" and run: "BuildChunks files C m = Some (files', cs)" and c: "c \<in> set cs"
  shows "Chunk_Size c = chunk_bytes c"
proof -
  note B = BuildChunks_bounds [OF inp(1) run]
  have bd: "\<forall>r \<in> set (FileRanges c). 0 \<le> StartOffset r \<and> StartOffset r \<le> EndOffset r \<and> EndOffset r < 2 ^ 63"
  proof
    fix r assume r: "r \<in> set (FileRanges c)"
    let ?fs = "sort_key fe_Name files"
    have b: "FileIndex r < length ?fs" "0 \<le> StartOffset r" "StartOffset r < EndOffset r"
      "EndOffset r \<le> fe_Size (?fs ! FileIndex r)"
      using flat_ranges_bounds [OF B(2) c r] by simp_all
    then have "?fs ! FileIndex r \<in> set files" by (metis nth_mem set_sort)
    with inp(1) have "fe_Size (?fs ! FileIndex r) + C < 2 ^ 63" "0 < C" by (auto simp: input_ok_def)
    with b show "0 \<le> StartOffset r \<and> StartOffset r \<le> EndOffset r \<and> EndOffset r < 2 ^ 63" by linarith
  qed
  have "chunk_bytes c < 2 ^ 63" using B(1) c inp(2) by (auto simp: chunks_ok_def chunk_limits_def)
  then show ?thesis
    using Chunk_Size_loop_sum [OF bd, of 0] by (simp add: Chunk_Size_def chunk_bytes_def)
qed

text \<open>The chunks in order, as data: every range delivers its bytes of its file.\<close>

definition range_data :: "byte list list \<Rightarrow> FileRange \<Rightarrow> byte list" where
  "range_data contents r =
     window (nat (StartOffset r)) (nat (EndOffset r - StartOffset r)) (contents ! FileIndex r)"

definition chunk_data :: "byte list list \<Rightarrow> Chunk \<Rightarrow> byte list" where
  "chunk_data contents c = concat (map (range_data contents) (FileRanges c))"

lemma contiguous_data:
  assumes "contiguous a rs b" and "0 \<le> a"
  shows "concat (map (\<lambda>r. window (nat (StartOffset r)) (nat (EndOffset r - StartOffset r)) xs) rs) =
           window (nat a) (nat (b - a)) xs"
  using assms
proof (induction rs arbitrary: a)
  case (Cons r rs)
  let ?e = "EndOffset r"
  have e: "StartOffset r = a" "a < ?e" "contiguous ?e rs b" using Cons.prems(1) by simp_all
  have "?e \<le> b" using e(3) by (rule contiguous_le)
  then have "nat a + nat (?e - a) = nat ?e" "nat (?e - a) + nat (b - ?e) = nat (b - a)"
    using e Cons.prems(2) by simp_all
  then show ?case
    using Cons.IH [OF e(3)] e Cons.prems(2) window_append_adjacent [of "nat a" "nat (?e - a)" xs "nat (b - ?e)"]
    by simp
qed simp

lemma filter_less_Suc_sorted:
  "sorted (map f xs) \<Longrightarrow>
     filter (\<lambda>x. f x < Suc n) xs = filter (\<lambda>x. f x < n) xs @ filter (\<lambda>x. f x = n) xs"
proof (induction xs)
  case (Cons x xs)
  show ?case
  proof (cases "f x < n")
    case True
    then show ?thesis using Cons by simp
  next
    case False
    then have "filter (\<lambda>y. f y < n) xs = []"
      using Cons.prems by (auto simp: filter_empty_conv)
    then show ?thesis using Cons False by auto
  qed
qed simp

lemma sorted_group:
  assumes "sorted (map FileIndex rs)" and "\<forall>r \<in> set rs. FileIndex r < n"
  shows "rs = concat (map (\<lambda>i. index_ranges i rs) [0..<n])"
proof -
  have "filter (\<lambda>r. FileIndex r < n) rs = concat (map (\<lambda>i. index_ranges i rs) [0..<n])"
    using filter_less_Suc_sorted [OF assms(1)] by (induction n) (simp_all add: index_ranges_def)
  moreover have "filter (\<lambda>r. FileIndex r < n) rs = rs" using assms(2) by (simp add: filter_id_conv)
  ultimately show ?thesis by simp
qed

lemma index_ranges_data:
  assumes "contiguous 0 (index_ranges i rs) (int (length (contents ! i)))"
  shows "concat (map (range_data contents) (index_ranges i rs)) = contents ! i"
proof -
  let ?w = "\<lambda>r. window (nat (StartOffset r)) (nat (EndOffset r - StartOffset r)) (contents ! i)"
  have "map (range_data contents) (index_ranges i rs) = map ?w (index_ranges i rs)"
    by (auto simp: range_data_def index_ranges_def)
  then have "concat (map (range_data contents) (index_ranges i rs)) = concat (map ?w (index_ranges i rs))"
    by (rule arg_cong)
  also have "\<dots> = contents ! i"
    using contiguous_data [OF assms, of "contents ! i"] by simp
  finally show ?thesis .
qed

lemma concat_map_concat:
  "concat (map f (concat (map g xs))) = concat (map (\<lambda>x. concat (map f (g x))) xs)"
  by (induction xs) simp_all

lemma chunk_data_all:
  assumes "cut_into 0 files files' (flat_ranges cs)"
    and "length contents = length files" and "\<forall>i < length files. fe_Size (files ! i) = int (length (contents ! i))"
  shows "concat (map (chunk_data contents) cs) = concat contents"
proof -
  let ?rs = "flat_ranges cs" and ?n = "length files"
  have group: "?rs = concat (map (\<lambda>i. index_ranges i ?rs) [0..<?n])"
    using assms(1) by (intro sorted_group) (auto simp: cut_into_def)
  have "concat (map (range_data contents) ?rs) =
      concat (map (range_data contents) (concat (map (\<lambda>i. index_ranges i ?rs) [0..<?n])))"
    using group by (rule arg_cong)
  also have "\<dots> = concat (map (\<lambda>i. concat (map (range_data contents) (index_ranges i ?rs))) [0..<?n])"
    by (rule concat_map_concat)
  also have "\<dots> = concat (map (\<lambda>i. contents ! i) [0..<?n])"
    using assms by (intro arg_cong [where f = concat] map_cong) (auto simp: cut_into_def index_ranges_data)
  also have "\<dots> = concat contents" using assms(2) by (metis map_nth)
  finally show ?thesis by (simp add: chunk_data_def [abs_def] flat_ranges_def concat_map_concat)
qed

text \<open>With a chunk size of 0 the loop over a non-empty file never ends.\<close>

lemma BuildChunks_file_zero:
  assumes ret: "BuildChunks_file C m i start remain fl st = Some res"
  shows "C = 0 \<longrightarrow> 0 < remain \<longrightarrow> remain < 2 ^ 63 \<longrightarrow> bs_currentChunkSize st \<noteq> 0"
proof (rule BuildChunks_file.raw_induct [where P = "\<lambda>C m i start remain fl st res.
      C = 0 \<longrightarrow> 0 < remain \<longrightarrow> remain < 2 ^ 63 \<longrightarrow> bs_currentChunkSize st \<noteq> 0", OF _ ret], goal_cases)
  case (1 f C m i start remain fl st res)
  show ?case
  proof (intro impI notI)
    assume z: "C = 0" "0 < remain" "remain < 2 ^ 63" "bs_currentChunkSize st = 0"
    let ?st = "newChunk (addToChunk i start (i64 start) st)"
    have "f C m i (i64 start) remain (snd (IncrementRemainingChunkCount fl)) ?st = Some res"
      using 1(2) z by (simp add: Let_def)
    from 1(1) [OF this] z show False by (simp add: newChunk_def)
  qed
qed

section \<open>Properties\<close>

text \<open>Claim C1.
  \<open>BuildChunks\<close> returns for every positive chunk size, and the chunks it builds cut the sorted
  file list exactly: the files it leaves are the given ones in the order of their names, the ranges
  that name file \<open>i\<close> are adjacent, non-empty and run from offset 0 to the size of the file, every
  range names a file of the list, and the remaining-chunk counter of a file is the number of its
  ranges (as an \<open>int32\<close>).\<close>

theorem BuildChunks_partition:
  assumes "input_ok chunkSize files"
  shows "\<exists>files' chunks. BuildChunks files chunkSize maxFileCountPerChunk = Some (files', chunks) \<and>
    sorted (map fe_Name files') \<and>
    mset (map FileEntry_Copy files') = mset (map FileEntry_Copy files) \<and>
    (\<forall>r \<in> set (flat_ranges chunks). FileIndex r < length files') \<and>
    (\<forall>i < length files'.
       contiguous 0 (index_ranges i (flat_ranges chunks)) (fe_Size (files' ! i)) \<and>
       fe_remainingChunkCount (files' ! i) = i32 (int (length (index_ranges i (flat_ranges chunks)))))"
proof -
  let ?s = "sort_key fe_Name files"
  obtain files' cs where run: "BuildChunks files chunkSize maxFileCountPerChunk = Some (files', cs)"
    and cut: "cut_into 0 ?s files' (flat_ranges cs)"
    using BuildChunks_returns [OF assms] by blast
  have at: "files' ! i = (?s ! i)\<lparr>fe_remainingChunkCount :=
      i32 (int (length (index_ranges i (flat_ranges cs))))\<rparr>" if "i < length ?s" for i
  proof -
    have "?s ! i \<in> set files" using that by (metis nth_mem set_sort)
    then have "fe_remainingChunkCount (?s ! i) = 0" using assms by (auto simp: input_ok_def)
    then show ?thesis using cut that by (simp add: cut_into_def)
  qed
  have len: "length files' = length ?s" using cut by (simp add: cut_into_def)
  have names: "map fe_Name files' = map fe_Name ?s"
    using len at by (intro nth_equalityI) simp_all
  have copies: "map FileEntry_Copy files' = map FileEntry_Copy ?s"
    using len at by (intro nth_equalityI) (simp_all add: FileEntry_Copy_def)
  have "mset (map FileEntry_Copy files') = mset (map FileEntry_Copy files)"
    unfolding copies by simp
  moreover have "sorted (map fe_Name files')" unfolding names by simp
  moreover have "contiguous 0 (index_ranges i (flat_ranges cs)) (fe_Size (files' ! i))" if "i < length files'" for i
    using cut that len at [of i] by (simp add: cut_into_def)
  moreover have "fe_remainingChunkCount (files' ! i) = i32 (int (length (index_ranges i (flat_ranges cs))))"
    if "i < length files'" for i
    using that len at [of i] by simp
  moreover have "\<forall>r \<in> set (flat_ranges cs). FileIndex r < length files'"
    using cut len by (simp add: cut_into_def)
  ultimately show ?thesis using run by blast
qed

theorem BuildChunks_partition_witness:
  "\<exists>files' chunks.
    BuildChunks [\<lparr>fe_Name = ''b'', fe_Size = 5, fe_Perm = 420, fe_remainingChunkCount = 0\<rparr>,
                 \<lparr>fe_Name = ''a'', fe_Size = 3, fe_Perm = 420, fe_remainingChunkCount = 0\<rparr>] 4 5 =
      Some (files', chunks) \<and> sorted (map fe_Name files') \<and>
    (\<forall>i < length files'. contiguous 0 (index_ranges i (flat_ranges chunks)) (fe_Size (files' ! i)))"
  using BuildChunks_partition [of 4 "[\<lparr>fe_Name = ''b'', fe_Size = 5, fe_Perm = 420, fe_remainingChunkCount = 0\<rparr>,
                 \<lparr>fe_Name = ''a'', fe_Size = 3, fe_Perm = 420, fe_remainingChunkCount = 0\<rparr>]" 5]
  by (auto simp: input_ok_def)

text \<open>Claim C2.
  The limits: every chunk \<open>BuildChunks\<close> returns is pending, holds at least one range, its \<open>Size()\<close>
  is positive, at most the chunk size and computed without overflow, and it holds at most
  \<open>maxFileCountPerChunk\<close> ranges when that limit is positive (0 or less is no limit); every chunk
  but the last is full, in bytes or in ranges.\<close>

theorem BuildChunks_limits:
  assumes "input_ok chunkSize files" and "chunkSize < 2 ^ 63"
    and "BuildChunks files chunkSize maxFileCountPerChunk = Some (files', chunks)"
    and "c \<in> set chunks"
  shows "Chunk_GetStatus c = ChunkStatusPending \<and> 0 < Chunk_Size c \<and> Chunk_Size c \<le> chunkSize \<and>
    (0 < maxFileCountPerChunk \<longrightarrow> int (length (FileRanges c)) \<le> maxFileCountPerChunk) \<and>
    (c \<in> set (butlast chunks) \<longrightarrow>
       Chunk_Size c = chunkSize \<or> int (length (FileRanges c)) = maxFileCountPerChunk)"
proof -
  note B = BuildChunks_bounds [OF assms(1,3)] and S = Chunk_Size_chunk_bytes [OF assms(1,2,3,4)]
  have lim: "chunk_limits chunkSize maxFileCountPerChunk c" using B(1) assms(4) by (auto simp: chunks_ok_def)
  then obtain r rs where rs: "FileRanges c = r # rs" by (cases "FileRanges c") (auto simp: chunk_limits_def)
  have pos: "0 < range_len x" if "x \<in> set (FileRanges c)" for x
    using flat_ranges_bounds [OF B(2) assms(4) that] by (simp add: range_len_def)
  have "0 \<le> sum_list (map range_len rs)"
    using pos rs by (intro sum_list_nonneg) (auto intro: less_imp_le)
  then have "0 < chunk_bytes c" using pos [of r] rs by (simp add: chunk_bytes_def)
  then show ?thesis
    using lim B(1) S by (auto simp: chunk_limits_def chunks_ok_def chunk_full_def fresh_chunk_def Chunk_GetStatus_def)
qed

theorem BuildChunks_limits_witness:
  "\<exists>files' c. BuildChunks [\<lparr>fe_Name = ''a'', fe_Size = 3, fe_Perm = 420, fe_remainingChunkCount = 0\<rparr>] 4 5 =
      Some (files', [c]) \<and> Chunk_Size c \<le> 4"
proof -
  let ?f = "\<lparr>fe_Name = ''a'', fe_Size = 3, fe_Perm = 420, fe_remainingChunkCount = 0\<rparr>"
  let ?c = "Chunk0\<lparr>FileRanges := [\<lparr>FileIndex = 0, StartOffset = 0, EndOffset = 3\<rparr>]\<rparr>"
  have run: "BuildChunks [?f] 4 5 = Some ([?f\<lparr>fe_remainingChunkCount := 1\<rparr>], [?c])"
    by (simp add: BuildChunks_def BuildChunks_file.simps addToChunk_def newChunk_def Let_def Chunk_copy_def Chunk0_def)
  show ?thesis
    using run BuildChunks_limits [of 4 "[?f]" 5, OF _ _ run, of ?c] by (auto simp: input_ok_def)
qed

text \<open>Claim C3.
  Cutting the files into chunks and sending the chunks in order loses, repeats and reorders no
  byte: the data of the chunks, joined, is the data of the files in the order of their names,
  joined. The data of a chunk is what its ranges read from the file contents.\<close>

theorem BuildChunks_data:
  assumes "input_ok chunkSize files"
    and "BuildChunks files chunkSize maxFileCountPerChunk = Some (files', chunks)"
    and "map (\<lambda>bs. int (length bs)) contents = map fe_Size files'"
  shows "concat (map (chunk_data contents) chunks) = concat contents"
proof (rule chunk_data_all [OF BuildChunks_bounds(2) [OF assms(1,2)]])
  let ?s = "sort_key fe_Name files"
  have cut: "cut_into 0 ?s files' (flat_ranges chunks)" by (rule BuildChunks_bounds(2) [OF assms(1,2)])
  have len: "length contents = length files'" using assms(3) by (rule map_eq_imp_length_eq)
  then show "length contents = length ?s" using cut by (simp add: cut_into_def)
  show "\<forall>i < length ?s. fe_Size (?s ! i) = int (length (contents ! i))"
  proof (intro allI impI)
    fix i assume i: "i < length ?s"
    have l: "length files' = length ?s" using cut by (simp add: cut_into_def)
    have "fe_Size (files' ! i) = fe_Size (?s ! i)" using cut i by (simp add: cut_into_def)
    moreover have "fe_Size (files' ! i) = int (length (contents ! i))"
      using arg_cong [OF assms(3), of "\<lambda>xs. xs ! i"] i len l by simp
    ultimately show "fe_Size (?s ! i) = int (length (contents ! i))" by simp
  qed
qed

theorem BuildChunks_data_witness:
  "\<exists>files' c d. BuildChunks [\<lparr>fe_Name = ''a'', fe_Size = 3, fe_Perm = 420, fe_remainingChunkCount = 0\<rparr>] 2 5 =
      Some (files', [c, d]) \<and> chunk_data [[7, 8, 9]] c @ chunk_data [[7, 8, 9]] d = [7, 8, 9]"
proof -
  let ?f = "\<lparr>fe_Name = ''a'', fe_Size = 3, fe_Perm = 420, fe_remainingChunkCount = 0\<rparr>"
  let ?c = "Chunk0\<lparr>FileRanges := [\<lparr>FileIndex = 0, StartOffset = 0, EndOffset = 2\<rparr>]\<rparr>"
  let ?d = "Chunk0\<lparr>FileRanges := [\<lparr>FileIndex = 0, StartOffset = 2, EndOffset = 3\<rparr>]\<rparr>"
  have run: "BuildChunks [?f] 2 5 = Some ([?f\<lparr>fe_remainingChunkCount := 2\<rparr>], [?c, ?d])"
    by (simp add: BuildChunks_def BuildChunks_file.simps addToChunk_def newChunk_def Let_def Chunk_copy_def Chunk0_def)
  show ?thesis
    using run BuildChunks_data [of 2 "[?f]" 5, OF _ run, of "[[7, 8, 9]]"] by (auto simp: input_ok_def)
qed

text \<open>The guard on the chunk size is needed: with a chunk size of 0, \<open>BuildChunks\<close> never returns for a
  list that starts with a non-empty file, because every round of the loop adds an empty range and
  leaves the remaining size as it was.\<close>

theorem BuildChunks_zero_diverges:
  assumes "0 < fe_Size f" and "fe_Size f < 2 ^ 63"
  shows "BuildChunks [f] 0 maxFileCountPerChunk = None"
proof -
  let ?st = "\<lparr>bs_chunkList = [], bs_chunk = Chunk0, bs_currentChunkSize = 0\<rparr>"
  have "BuildChunks_file 0 maxFileCountPerChunk 0 0 (fe_Size f) f ?st = None"
    using BuildChunks_file_zero [of 0 maxFileCountPerChunk 0 0 "fe_Size f" f ?st] assms
    by (cases "BuildChunks_file 0 maxFileCountPerChunk 0 0 (fe_Size f) f ?st") auto
  then show ?thesis by (simp add: BuildChunks_def)
qed

theorem BuildChunks_zero_diverges_witness:
  "BuildChunks [\<lparr>fe_Name = ''a'', fe_Size = 3, fe_Perm = 420, fe_remainingChunkCount = 0\<rparr>] 0 5 = None"
  by (rule BuildChunks_zero_diverges) simp_all

end
