(* ===== verification/Manifest_Data.thy ===== *)
theory Manifest_Data
  imports Chunks
begin

text \<open>
  The data of package \<open>transfer\<close> that its files share: the manifest of a transfer (file
  \<open>manifest.go\<close>) and the chunk manager's record (file \<open>chunk_manager.go\<close>), with the constants of
  package \<open>constants\<close> that the models use and the version string of package \<open>version\<close>.
\<close>

section \<open>constants/constants.go and version/version.go\<close>

definition millisecond :: duration where "millisecond = 1000000"
definition second :: duration where "second = 1000 * millisecond"

text \<open>
  The whole seconds of a duration, as \<open>int(d.Seconds())\<close> gives them (for durations below \<open>2 ^ 53\<close>
  nanoseconds, which a \<open>float64\<close> of seconds does not round up).
\<close>

definition whole_seconds :: "duration \<Rightarrow> int" where
  "whole_seconds d = (if d < 0 then - (- d div second) else d div second)"

definition ShutdownTimeout :: duration where "ShutdownTimeout = 10 * second"
definition DNSLookupTimeout :: duration where "DNSLookupTimeout = 2 * second"
definition PeerWaitDuration :: duration where "PeerWaitDuration = 200 * millisecond"
definition MaxPeerNumConcurrent :: int where "MaxPeerNumConcurrent = 16"
definition MaxLocalNumConcurrent :: int where "MaxLocalNumConcurrent = 16"
definition MaxChunkSize :: int where "MaxChunkSize = 134217728"
definition DefaultPort :: int where "DefaultPort = 10090"
definition DefaultDigest :: string where "DefaultDigest = ''xxh3''"
definition PeerTransferTimeout :: duration where "PeerTransferTimeout = 20 * second"
definition DefaultMaxConnsPerHost :: int where "DefaultMaxConnsPerHost = 2"
definition HttpConnectTimeout :: duration where "HttpConnectTimeout = 500 * millisecond"
definition HttpIdleConnTimeout :: duration where "HttpIdleConnTimeout = 5 * second"

text \<open>The variables of package \<open>version\<close>, which the build sets.\<close>

record Version =
  v_Major :: string
  v_Minor :: string
  v_Patch :: string
  v_Build :: string

definition GetVersion :: "Version \<Rightarrow> string" where
  "GetVersion v = ''p2pcp-'' @ v_Major v @ ''.'' @ v_Minor v @ ''.'' @ v_Patch v @ ''+'' @ v_Build v"

section \<open>The manifest\<close>

record Manifest =
  mf_MajorVersion :: string
  mf_MinorVersion :: string
  mf_ChunkSize :: int
  mf_ChunkChecksum :: uint64
  mf_TransferChunkCount :: int
  mf_Dirs :: "DirEntry list"
  mf_Symlinks :: "SymlinkEntry list"
  mf_EmptyFiles :: "EmptyFileEntry list"
  mf_Files :: "FileEntry list"

section \<open>The chunk manager\<close>

text \<open>
  The in-flight calls of \<open>chunkChecksumGroup\<close> are not state between operations: an operation of the
  model runs from its start to its end.
\<close>

record ChunkManager =
  cm_manifest :: Manifest
  cm_manifestJson :: "byte list"
  cm_chunks :: "Chunk list"
  cm_chunkChecksums :: "uint64 list"

abbreviation cm_Files :: "ChunkManager \<Rightarrow> FileEntry list" where
  "cm_Files cm \<equiv> mf_Files (cm_manifest cm)"

definition set_Files :: "FileEntry list \<Rightarrow> ChunkManager \<Rightarrow> ChunkManager" where
  "set_Files files cm = cm\<lparr>cm_manifest := (cm_manifest cm)\<lparr>mf_Files := files\<rparr>\<rparr>"

definition set_chunk :: "nat \<Rightarrow> Chunk \<Rightarrow> ChunkManager \<Rightarrow> ChunkManager" where
  "set_chunk i c cm = cm\<lparr>cm_chunks := (cm_chunks cm)[i := c]\<rparr>"

lemma set_Files_simps [simp]:
  "cm_Files (set_Files files cm) = files"
  "cm_chunks (set_Files files cm) = cm_chunks cm"
  "cm_chunkChecksums (set_Files files cm) = cm_chunkChecksums cm"
  "set_Files (cm_Files cm) cm = cm"
  "set_Files files (set_Files files' cm) = set_Files files cm"
  by (simp_all add: set_Files_def)

lemma set_chunk_simps [simp]:
  "cm_chunks (set_chunk i c cm) = (cm_chunks cm)[i := c]"
  "cm_manifest (set_chunk i c cm) = cm_manifest cm"
  "cm_chunkChecksums (set_chunk i c cm) = cm_chunkChecksums cm"
  by (simp_all add: set_chunk_def)

end
