(* ===== verification/Storage_Interface.thy ===== *)
theory Storage_Interface
  imports Entries
begin

text \<open>
  The readers that pass between the components, and the interface \<open>Storage\<close> of package \<open>storage\<close>
  (file \<open>storage.go\<close>) as a record of operations over a world \<open>'w\<close>. An \<open>io.Reader\<close> is what it will
  deliver: a sequence of bytes and then an error, \<open>EOF\<close> at a regular end. The locale
  \<open>file_storage\<close> states what the transfer code relies on when it writes and reads file ranges; it
  is interpreted on the local storage in \<open>Local_Storage\<close>.
\<close>

section \<open>Readers\<close>

record Reader =
  rd_data :: "byte list"
  rd_fin :: go_error

text \<open>\<open>Read(p)\<close> with a buffer of \<open>n\<close> bytes.\<close>

definition Reader_Read :: "nat \<Rightarrow> Reader \<Rightarrow> (byte list \<times> go_error option) \<times> Reader" where
  "Reader_Read n rd =
     (if rd_data rd = [] then (([], Some (rd_fin rd)), rd)
      else ((take n (rd_data rd), None), rd\<lparr>rd_data := drop n (rd_data rd)\<rparr>))"

definition LimitReader :: "int \<Rightarrow> Reader \<Rightarrow> Reader" where
  "LimitReader n rd =
     \<lparr>rd_data = take (nat n) (rd_data rd),
      rd_fin = (if nat n \<le> length (rd_data rd) then EOF else rd_fin rd)\<rparr>"

text \<open>
  \<open>io.CopyN(dst, src, n)\<close>: the bytes handed to the writer, the error (an end before \<open>n\<close> bytes is the
  error \<open>EOF\<close>), and what is left of the source.
\<close>

definition CopyN :: "int \<Rightarrow> Reader \<Rightarrow> (byte list \<times> go_error option) \<times> Reader" where
  "CopyN n rd =
     (if nat n \<le> length (rd_data rd)
      then ((take (nat n) (rd_data rd), None), rd\<lparr>rd_data := drop (nat n) (rd_data rd)\<rparr>)
      else ((rd_data rd, Some (rd_fin rd)), rd\<lparr>rd_data := []\<rparr>))"

lemma Reader_Read_progress:
  "0 < n \<Longrightarrow> rd_data rd \<noteq> [] \<Longrightarrow>
     length (rd_data (snd (Reader_Read n rd))) < length (rd_data rd)"
  by (simp add: Reader_Read_def)

section \<open>The interface Storage\<close>

record 'w Storage =
  st_GetBaseDirectory :: string
  st_Walk :: "string \<Rightarrow> 'w \<Rightarrow> Entry list \<times> go_error option"
  st_Prepare :: "'w \<Rightarrow> go_error option \<times> 'w"
  st_PrepareEntry :: "Entry \<Rightarrow> 'w \<Rightarrow> go_error option \<times> 'w"
  st_CommitEntry :: "Entry \<Rightarrow> 'w \<Rightarrow> go_error option \<times> 'w"
  st_Write :: "string \<Rightarrow> int \<Rightarrow> int \<Rightarrow> Reader \<Rightarrow> 'w \<Rightarrow> (int \<times> go_error option) \<times> Reader \<times> 'w"
  st_GetReader :: "string \<Rightarrow> int \<Rightarrow> int \<Rightarrow> 'w \<Rightarrow> Reader result"

text \<open>
  \<open>Walk\<close> visits the entries of the list in order and then stops with the error; a visitor that
  fails stops it earlier, with the visitor's error. The visitors of the program never fail.
\<close>

fun visit :: "(Entry \<Rightarrow> 's \<Rightarrow> go_error option \<times> 's) \<Rightarrow> Entry list \<Rightarrow> go_error option \<Rightarrow> 's \<Rightarrow> go_error option \<times> 's" where
  "visit fn [] err s = (err, s)"
| "visit fn (e # es) err s =
     (case fn e s of (Some e', s') \<Rightarrow> (Some e', s') | (None, s') \<Rightarrow> visit fn es err s')"

lemma visit_total: "(\<And>e s. fn e s = (None, g e s)) \<Longrightarrow> visit fn es err s = (err, fold g es s)"
  by (induction es arbitrary: s) simp_all

section \<open>What the transfer relies on\<close>

text \<open>
  \<open>content w name\<close> is the content of the regular file \<open>name\<close> if there is one that can be read,
  \<open>writable w name\<close> says that it can be written. A range read delivers the bytes of the range; a
  write puts the bytes it takes from the reader at its offset, changes no other file, and reports
  the reader's error when the reader ends early.
\<close>

locale file_storage =
  fixes st :: "'w Storage"
    and content :: "'w \<Rightarrow> string \<Rightarrow> byte list option"
    and writable :: "'w \<Rightarrow> string \<Rightarrow> bool"
  assumes read_range: "content w name = Some xs \<Longrightarrow> 0 \<le> off \<Longrightarrow> 0 \<le> n \<Longrightarrow>
      st_GetReader st name off n w = Inr \<lparr>rd_data = window (nat off) (nat n) xs, rd_fin = EOF\<rparr>"
    and write_range: "content w name = Some xs \<Longrightarrow> writable w name \<Longrightarrow> 0 \<le> off \<Longrightarrow> 0 \<le> n \<Longrightarrow>
      CopyN n rd = ((bs, err), rd') \<Longrightarrow>
      \<exists>w'. st_Write st name off n rd w = ((int (length bs), err), rd', w') \<and>
           content w' = (content w)(name \<mapsto> overwrite (nat off) bs xs) \<and> writable w' = writable w"
begin

text \<open>Writing a range of a file with enough data.\<close>

lemma write_enough:
  assumes "content w name = Some xs" "writable w name" "0 \<le> off" "0 \<le> n" "nat n \<le> length (rd_data rd)"
  shows "\<exists>w'. st_Write st name off n rd w = ((n, None), rd\<lparr>rd_data := drop (nat n) (rd_data rd)\<rparr>, w') \<and>
      content w' = (content w)(name \<mapsto> overwrite (nat off) (take (nat n) (rd_data rd)) xs) \<and>
      writable w' = writable w"
  using write_range [OF assms(1-4), of rd "take (nat n) (rd_data rd)" None] assms(4,5)
  by (simp add: CopyN_def min_absorb2)

end

end
