(* ===== verification/Go_Strings.thy ===== *)
theory Go_Strings
  imports Prelude
begin

text \<open>
  What the sources use of Go's packages \<open>strings\<close> and \<open>strconv\<close>, on strings as sequences of bytes:
  splitting at a separator, trimming, replacing, and the decimal numerals with their parsers.
  \<open>TrimSpace\<close> and \<open>ToLower\<close> work on ASCII. The lemmas are the round trips between printing and
  parsing and between joining and splitting.
\<close>

section \<open>strings\<close>

text \<open>\<open>strings.Split(s, sep)\<close> for a separator of one byte: never the empty list.\<close>

fun Split :: "char \<Rightarrow> string \<Rightarrow> string list" where
  "Split sep [] = [[]]"
| "Split sep (c # cs) =
     (if c = sep then [] # Split sep cs
      else (case Split sep cs of [] \<Rightarrow> [[c]] | t # ts \<Rightarrow> (c # t) # ts))"

text \<open>\<open>strings.SplitN(s, sep, 2)\<close>: one element when the separator does not occur, two otherwise.\<close>

fun SplitN2 :: "char \<Rightarrow> string \<Rightarrow> string list" where
  "SplitN2 sep s =
     (if sep \<in> set s then [takeWhile (\<lambda>c. c \<noteq> sep) s, tl (dropWhile (\<lambda>c. c \<noteq> sep) s)] else [s])"

fun join_with :: "char \<Rightarrow> string list \<Rightarrow> string" where
  "join_with sep [] = []"
| "join_with sep [s] = s"
| "join_with sep (s # t # ts) = s @ sep # join_with sep (t # ts)"

definition is_space :: "char \<Rightarrow> bool" where
  "is_space c \<longleftrightarrow> c \<in> {CHR '' '', CHR 0x09, CHR 0x0A, CHR 0x0B, CHR 0x0C, CHR 0x0D}"

definition TrimSpace :: "string \<Rightarrow> string" where
  "TrimSpace s = rev (dropWhile is_space (rev (dropWhile is_space s)))"

definition HasPrefix :: "string \<Rightarrow> string \<Rightarrow> bool" where
  "HasPrefix s p \<longleftrightarrow> take (length p) s = p"

definition TrimPrefix :: "string \<Rightarrow> string \<Rightarrow> string" where
  "TrimPrefix s p = (if HasPrefix s p then drop (length p) s else s)"

definition TrimSuffix :: "string \<Rightarrow> string \<Rightarrow> string" where
  "TrimSuffix s p =
     (if length p \<le> length s \<and> drop (length s - length p) s = p
      then take (length s - length p) s else s)"

definition lower :: "char \<Rightarrow> char" where
  "lower c = (let n = of_char c :: nat in if 65 \<le> n \<and> n \<le> 90 then char_of (n + 32) else c)"

definition ToLower :: "string \<Rightarrow> string" where
  "ToLower s = map lower s"

text \<open>\<open>strings.Replace(s, old, new, -1)\<close> for a non-empty \<open>old\<close>: matches are taken from the left.\<close>

function Replace :: "string \<Rightarrow> string \<Rightarrow> string \<Rightarrow> string" where
  "Replace s old new =
     (if s = [] then []
      else if old \<noteq> [] \<and> HasPrefix s old then new @ Replace (drop (length old) s) old new
      else hd s # Replace (tl s) old new)"
  by pat_completeness auto
termination
  by (relation "measure (\<lambda>(s, old, new). length s)") auto

declare Replace.simps [simp del]

section \<open>strconv\<close>

definition digit :: "nat \<Rightarrow> char" where
  "digit d = char_of (48 + d)"

definition digit_value :: "char \<Rightarrow> nat option" where
  "digit_value c = (let n = of_char c :: nat in if 48 \<le> n \<and> n \<le> 57 then Some (n - 48) else None)"

fun FormatNat :: "nat \<Rightarrow> string" where
  "FormatNat n = (if n < 10 then [digit n] else FormatNat (n div 10) @ [digit (n mod 10)])"

declare FormatNat.simps [simp del]

definition FormatInt :: "int \<Rightarrow> string" where
  "FormatInt i = (if i < 0 then CHR ''-'' # FormatNat (nat (- i)) else FormatNat (nat i))"

definition FormatUint :: "uint64 \<Rightarrow> string" where
  "FormatUint w = FormatNat (unat w)"

fun parse_digits :: "nat \<Rightarrow> string \<Rightarrow> nat option" where
  "parse_digits acc [] = Some acc"
| "parse_digits acc (c # cs) =
     (case digit_value c of None \<Rightarrow> None | Some d \<Rightarrow> parse_digits (10 * acc + d) cs)"

text \<open>\<open>strconv.ParseUint(s, 10, 64)\<close>: digits only, at least one, and no more than 64 bits.\<close>

definition ParseUint :: "string \<Rightarrow> uint64 result" where
  "ParseUint s =
     (if s = [] then Inl (Error ''invalid syntax'')
      else (case parse_digits 0 s of
              None \<Rightarrow> Inl (Error ''invalid syntax'')
            | Some n \<Rightarrow> if n < 2 ^ 64 then Inr (of_nat n) else Inl (Error ''value out of range'')))"

text \<open>\<open>strconv.Atoi(s)\<close>: an optional sign, digits, and the range of a 64-bit \<open>int\<close>.\<close>

definition Atoi :: "string \<Rightarrow> int result" where
  "Atoi s =
     (let (neg, ds) = (case s of
              c # cs \<Rightarrow> if c = CHR ''-'' then (True, cs) else if c = CHR ''+'' then (False, cs) else (False, s)
            | [] \<Rightarrow> (False, s))
      in if ds = [] then Inl (Error ''invalid syntax'')
         else (case parse_digits 0 ds of
                 None \<Rightarrow> Inl (Error ''invalid syntax'')
               | Some n \<Rightarrow>
                   if neg then (if int n \<le> 2 ^ 63 then Inr (- int n) else Inl (Error ''value out of range''))
                   else (if int n < 2 ^ 63 then Inr (int n) else Inl (Error ''value out of range''))))"

section \<open>Round trips\<close>

lemma Split_not_Nil [simp]: "Split sep s \<noteq> []"
  by (induction s) (auto split: list.splits)

lemma Split_no_sep: "sep \<notin> set s \<Longrightarrow> Split sep s = [s]"
  by (induction s) auto

lemma Split_append:
  "sep \<notin> set s \<Longrightarrow> Split sep (s @ sep # t) = s # Split sep t"
  by (induction s) auto

lemma Split_join:
  "ss \<noteq> [] \<Longrightarrow> \<forall>s \<in> set ss. sep \<notin> set s \<Longrightarrow> Split sep (join_with sep ss) = ss"
  by (induction sep ss rule: join_with.induct) (auto simp: Split_no_sep Split_append)

lemma join_Split: "join_with sep (Split sep s) = s"
proof (induction s)
  case (Cons c s)
  obtain t ts where t: "Split sep s = t # ts" by (cases "Split sep s") auto
  show ?case using Cons t by (cases ts) auto
qed simp

lemma Split_no_sep_in_parts: "t \<in> set (Split sep s) \<Longrightarrow> sep \<notin> set t"
  by (induction s arbitrary: t) (auto split: if_splits list.splits)

lemma digit_value_digit [simp]: "d < 10 \<Longrightarrow> digit_value (digit d) = Some d"
  by (simp add: digit_value_def digit_def Let_def)

lemma parse_digits_append:
  "parse_digits acc (s @ t) =
     (case parse_digits acc s of None \<Rightarrow> None | Some n \<Rightarrow> parse_digits n t)"
  by (induction s arbitrary: acc) (auto split: option.splits)

lemma parse_FormatNat [simp]: "parse_digits 0 (FormatNat n) = Some n"
proof (induction n rule: FormatNat.induct)
  case (1 n)
  then show ?case
    by (subst FormatNat.simps) (auto simp: parse_digits_append)
qed

lemma FormatNat_not_Nil [simp]: "FormatNat n \<noteq> []"
  by (subst FormatNat.simps) simp

lemma digit_chars: "d < 10 \<Longrightarrow> of_char (digit d) = (48 + d :: nat)"
  by (simp add: digit_def)

lemma FormatNat_chars: "c \<in> set (FormatNat n) \<Longrightarrow> 48 \<le> (of_char c :: nat) \<and> (of_char c :: nat) \<le> 57"
proof (induction n rule: FormatNat.induct)
  case (1 n)
  then show ?case
    by (subst (asm) (2) FormatNat.simps) (auto simp: digit_chars split: if_splits)
qed

lemma ParseUint_FormatUint [simp]: "ParseUint (FormatUint w) = Inr w"
proof -
  have "unat w < 2 ^ 64" using unsigned_less [of w] by simp
  then show ?thesis by (simp add: ParseUint_def FormatUint_def)
qed

lemma FormatNat_no_char: "(of_char c :: nat) < 48 \<or> 57 < (of_char c :: nat) \<Longrightarrow> c \<notin> set (FormatNat n)"
  using FormatNat_chars by fastforce

lemma Atoi_FormatNat_cases:
  "Atoi (FormatNat n) = (if int n < 2 ^ 63 then Inr (int n) else Inl (Error ''value out of range''))"
proof -
  obtain c cs where s: "FormatNat n = c # cs" by (cases "FormatNat n") simp
  have "c \<noteq> CHR ''-''" "c \<noteq> CHR ''+''"
    using FormatNat_chars [of c n] s by auto
  then have "Atoi (FormatNat n) = (case parse_digits 0 (FormatNat n) of None \<Rightarrow> Inl (Error ''invalid syntax'')
      | Some m \<Rightarrow> if int m < 2 ^ 63 then Inr (int m) else Inl (Error ''value out of range''))"
    by (simp add: Atoi_def s Let_def cong: option.case_cong)
  then show ?thesis by simp
qed

lemma Atoi_FormatNat: "int n < 2 ^ 63 \<Longrightarrow> Atoi (FormatNat n) = Inr (int n)"
  by (simp add: Atoi_FormatNat_cases)

end
