(* ===== verification/File_System.thy ===== *)
theory File_System
  imports Go_Strings "HOL-Library.AList" "HOL-Library.List_Lexorder" "HOL-Library.Char_ord"
begin

unbundle bit_operations_syntax

text \<open>
  What the sources use of Go's packages \<open>path/filepath\<close> and \<open>os\<close>, on a model of a Unix file
  system: a table from absolute paths (lists of names) to nodes. Path resolution follows symbolic
  links and checks the permission bits of the owner, as the calls do; \<open>superuser\<close> turns the checks
  off. Device files and sockets are nodes that cannot be opened. What can fail in the calls for
  reasons outside this state (a full disk, an I/O error) is not modelled.
\<close>

section \<open>path/filepath\<close>

type_synonym path = "string list"

abbreviation slash :: char where "slash \<equiv> CHR ''/''"

fun clean_comps :: "bool \<Rightarrow> string list \<Rightarrow> string list \<Rightarrow> string list" where
  "clean_comps rooted acc [] = rev acc"
| "clean_comps rooted acc (c # cs) =
     (if c = [] \<or> c = ''.'' then clean_comps rooted acc cs
      else if c = ''..'' then
        (case acc of
           [] \<Rightarrow> if rooted then clean_comps rooted [] cs else clean_comps rooted [c] cs
         | a # as \<Rightarrow> if a = ''..'' then clean_comps rooted (c # acc) cs else clean_comps rooted as cs)
      else clean_comps rooted (c # acc) cs)"

definition rooted_path :: "string \<Rightarrow> bool" where
  "rooted_path p \<longleftrightarrow> HasPrefix p [slash]"

definition Clean :: "string \<Rightarrow> string" where
  "Clean p =
     (if p = [] then ''.''
      else let cs = clean_comps (rooted_path p) [] (Split slash p)
           in if rooted_path p then slash # join_with slash cs
              else if cs = [] then ''.'' else join_with slash cs)"

definition Join :: "string \<Rightarrow> string \<Rightarrow> string" where
  "Join a b =
     (let es = filter (\<lambda>e. e \<noteq> []) [a, b] in if es = [] then [] else Clean (join_with slash es))"

definition path_comps :: "string \<Rightarrow> path" where
  "path_comps p = filter (\<lambda>c. c \<noteq> []) (Split slash p)"

text \<open>Names without separators that mean themselves, and the paths built of them.\<close>

definition clean_name :: "string \<Rightarrow> bool" where
  "clean_name c \<longleftrightarrow> c \<noteq> [] \<and> slash \<notin> set c \<and> c \<noteq> ''.'' \<and> c \<noteq> ''..''"

definition abs_path :: "path \<Rightarrow> string" where
  "abs_path cs = slash # join_with slash cs"

definition rel_path :: "path \<Rightarrow> string" where
  "rel_path cs = join_with slash cs"

lemma clean_comps_clean: "\<forall>c \<in> set cs. clean_name c \<Longrightarrow> clean_comps b acc cs = rev acc @ cs"
  by (induction cs arbitrary: acc) (auto simp: clean_name_def)

lemma clean_no_slash: "\<forall>c \<in> set cs. clean_name c \<Longrightarrow> \<forall>c \<in> set cs. slash \<notin> set c"
  by (auto simp: clean_name_def)

lemma Split_rel_path: "cs \<noteq> [] \<Longrightarrow> \<forall>c \<in> set cs. clean_name c \<Longrightarrow> Split slash (rel_path cs) = cs"
  unfolding rel_path_def by (rule Split_join) (auto dest: clean_no_slash)

lemma Split_abs_path: "\<forall>c \<in> set cs. clean_name c \<Longrightarrow>
    Split slash (abs_path cs) = [] # (if cs = [] then [[]] else cs)"
  using Split_rel_path [of cs] by (auto simp: abs_path_def rel_path_def)

lemma rooted_abs_path [simp]: "rooted_path (abs_path cs)"
  by (simp add: rooted_path_def abs_path_def HasPrefix_def)

lemma path_comps_abs_path [simp]: "\<forall>c \<in> set cs. clean_name c \<Longrightarrow> path_comps (abs_path cs) = cs"
  by (auto simp: path_comps_def Split_abs_path clean_name_def intro: filter_True)

lemma Clean_abs_path [simp]: "\<forall>c \<in> set cs. clean_name c \<Longrightarrow> Clean (abs_path cs) = abs_path cs"
proof -
  assume cs: "\<forall>c \<in> set cs. clean_name c"
  have ne: "abs_path cs \<noteq> []" by (simp add: abs_path_def)
  have "clean_comps True [] (Split slash (abs_path cs)) = cs"
    using clean_comps_clean [OF cs, of True "[]"] by (auto simp: Split_abs_path [OF cs])
  then show ?thesis using ne by (simp add: Clean_def Let_def) (simp add: abs_path_def)
qed

lemma join_with_append:
  "xs \<noteq> [] \<Longrightarrow> ys \<noteq> [] \<Longrightarrow> join_with sep (xs @ ys) = join_with sep xs @ sep # join_with sep ys"
proof (induction sep xs rule: join_with.induct)
  case (2 sep s)
  then show ?case by (cases ys) auto
qed auto

lemma rel_path_not_Nil: "cs \<noteq> [] \<Longrightarrow> \<forall>c \<in> set cs. clean_name c \<Longrightarrow> rel_path cs \<noteq> []"
  by (cases cs rule: list.exhaust; cases "tl cs") (auto simp: rel_path_def clean_name_def)

lemma Join_abs_rel [simp]:
  assumes "\<forall>c \<in> set bs. clean_name c" and "\<forall>c \<in> set ns. clean_name c" and "ns \<noteq> []"
  shows "Join (abs_path bs) (rel_path ns) = abs_path (bs @ ns)"
proof -
  have ne: "abs_path bs \<noteq> []" "rel_path ns \<noteq> []"
    using rel_path_not_Nil assms by (auto simp: abs_path_def)
  let ?p = "abs_path bs @ slash # rel_path ns"
  have r: "rooted_path ?p" by (simp add: rooted_path_def abs_path_def HasPrefix_def)
  have sp: "clean_comps True [] (Split slash ?p) = bs @ ns"
  proof (cases "bs = []")
    case True
    then show ?thesis
      using clean_comps_clean [OF assms(2), of True "[]"] Split_rel_path [OF assms(3,2)] by (simp add: abs_path_def)
  next
    case False
    have eq: "?p = slash # rel_path (bs @ ns)"
      using join_with_append [OF False assms(3)] by (simp add: abs_path_def rel_path_def)
    have all: "\<forall>c \<in> set (bs @ ns). clean_name c" using assms by auto
    have "Split slash ?p = [] # (bs @ ns)"
      unfolding eq using Split_rel_path [OF _ all] assms(3) by simp
    then show ?thesis using clean_comps_clean [OF all, of True "[]"] by simp
  qed
  show ?thesis
    using ne r sp by (simp add: Join_def Clean_def) (simp add: abs_path_def)
qed

section \<open>The file system\<close>

datatype node =
    NFile FileMode "byte list"
  | NDir FileMode
  | NSymlink string
  | NOther FileMode

record world =
  files :: "(path \<times> node) list"
  cwd :: path
  umask :: FileMode
  superuser :: bool

text \<open>The root directory is always there.\<close>

definition node_at :: "world \<Rightarrow> path \<Rightarrow> node option" where
  "node_at w p =
     (case map_of (files w) p of
        Some n \<Rightarrow> Some n
      | None \<Rightarrow> if p = [] then Some (NDir 493) else None)"

definition set_node :: "path \<Rightarrow> node \<Rightarrow> world \<Rightarrow> world" where
  "set_node p n w = w\<lparr>files := AList.update p n (files w)\<rparr>"

definition delete_node :: "path \<Rightarrow> world \<Rightarrow> world" where
  "delete_node p w = w\<lparr>files := AList.delete p (files w)\<rparr>"

definition permits :: "world \<Rightarrow> FileMode \<Rightarrow> FileMode \<Rightarrow> bool" where
  "permits w perm flag \<longleftrightarrow> superuser w \<or> perm AND flag \<noteq> 0"

definition Abs :: "world \<Rightarrow> string \<Rightarrow> string" where
  "Abs w p = (if rooted_path p then Clean p else Join (abs_path (cwd w)) p)"

text \<open>
  Resolving a path: \<open>acc\<close> is the directory reached so far, the list is what is left, \<open>k\<close> bounds
  the symbolic links that are followed (Linux stops at 40), \<open>follow\<close> says what to do with a link
  in the last position. The result is the path of the node, which need not exist.
\<close>

function resolve :: "world \<Rightarrow> nat \<Rightarrow> bool \<Rightarrow> path \<Rightarrow> path \<Rightarrow> path result" where
  "resolve w k follow acc [] = Inr acc"
| "resolve w k follow acc (c # cs) =
     (case node_at w acc of
        None \<Rightarrow> Inl ENOENT
      | Some (NDir p) \<Rightarrow>
          if \<not> permits w p 64 then Inl EACCES
          else if c = ''.'' then resolve w k follow acc cs
          else if c = ''..'' then resolve w k follow (butlast acc) cs
          else
            (case node_at w (acc @ [c]) of
               None \<Rightarrow> if cs = [] then Inr (acc @ [c]) else Inl ENOENT
             | Some (NSymlink t) \<Rightarrow>
                 if cs = [] \<and> \<not> follow then Inr (acc @ [c])
                 else (case k of
                         0 \<Rightarrow> Inl ELOOP
                       | Suc k' \<Rightarrow>
                           if t = [] then Inl ENOENT
                           else resolve w k' follow (if rooted_path t then [] else acc) (path_comps t @ cs))
             | Some n \<Rightarrow> resolve w k follow (acc @ [c]) cs)
      | Some n \<Rightarrow> Inl ENOTDIR)"
  by pat_completeness auto
termination
  by (relation "measures [\<lambda>(w, k, follow, acc, cs). k, \<lambda>(w, k, follow, acc, cs). length cs]") auto

definition resolve_path :: "world \<Rightarrow> bool \<Rightarrow> string \<Rightarrow> path result" where
  "resolve_path w follow p =
     (if p = [] then Inl ENOENT
      else resolve w 40 follow (if rooted_path p then [] else cwd w) (path_comps p))"

section \<open>os\<close>

definition os_Stat :: "world \<Rightarrow> string \<Rightarrow> node result" where
  "os_Stat w p =
     (case resolve_path w True p of
        Inl e \<Rightarrow> Inl e
      | Inr q \<Rightarrow> (case node_at w q of None \<Rightarrow> Inl ENOENT | Some n \<Rightarrow> Inr n))"

definition os_Lstat :: "world \<Rightarrow> string \<Rightarrow> node result" where
  "os_Lstat w p =
     (case resolve_path w False p of
        Inl e \<Rightarrow> Inl e
      | Inr q \<Rightarrow> (case node_at w q of None \<Rightarrow> Inl ENOENT | Some n \<Rightarrow> Inr n))"

definition os_Readlink :: "world \<Rightarrow> string \<Rightarrow> string result" where
  "os_Readlink w p =
     (case os_Lstat w p of
        Inl e \<Rightarrow> Inl e
      | Inr n \<Rightarrow> (case n of NSymlink t \<Rightarrow> Inr t | _ \<Rightarrow> Inl EINVAL))"

fun set_perm :: "FileMode \<Rightarrow> node \<Rightarrow> node" where
  "set_perm m (NFile p bs) = NFile m bs"
| "set_perm m (NDir p) = NDir m"
| "set_perm m (NSymlink t) = NSymlink t"
| "set_perm m (NOther p) = NOther m"

definition os_Chmod :: "string \<Rightarrow> FileMode \<Rightarrow> world \<Rightarrow> go_error option \<times> world" where
  "os_Chmod p mode w =
     (case resolve_path w True p of
        Inl e \<Rightarrow> (Some e, w)
      | Inr q \<Rightarrow>
          (case node_at w q of
             None \<Rightarrow> (Some ENOENT, w)
           | Some n \<Rightarrow> (None, set_node q (set_perm mode n) w)))"

text \<open>Making an entry in a directory needs the write permission of the directory.\<close>

definition may_change_dir :: "world \<Rightarrow> path \<Rightarrow> bool" where
  "may_change_dir w q = (case node_at w (butlast q) of Some (NDir p) \<Rightarrow> permits w p 128 | _ \<Rightarrow> False)"

definition create_at :: "path \<Rightarrow> node \<Rightarrow> world \<Rightarrow> go_error option \<times> world" where
  "create_at q n w =
     (if node_at w q \<noteq> None then (Some EEXIST, w)
      else if may_change_dir w q then (None, set_node q n w)
      else (Some EACCES, w))"

definition os_Mkdir :: "string \<Rightarrow> FileMode \<Rightarrow> world \<Rightarrow> go_error option \<times> world" where
  "os_Mkdir p perm w =
     (case resolve_path w False p of
        Inl e \<Rightarrow> (Some e, w)
      | Inr q \<Rightarrow> create_at q (NDir (perm AND NOT (umask w))) w)"

definition os_Symlink :: "string \<Rightarrow> string \<Rightarrow> world \<Rightarrow> go_error option \<times> world" where
  "os_Symlink target p w =
     (if target = [] then (Some ENOENT, w)
      else (case resolve_path w False p of
              Inl e \<Rightarrow> (Some e, w)
            | Inr q \<Rightarrow> create_at q (NSymlink target) w))"

definition dir_names :: "world \<Rightarrow> path \<Rightarrow> string list" where
  "dir_names w q =
     map last (filter (\<lambda>k. k \<noteq> [] \<and> butlast k = q) (map fst (files w)))"

definition os_Remove :: "string \<Rightarrow> world \<Rightarrow> go_error option \<times> world" where
  "os_Remove p w =
     (case resolve_path w False p of
        Inl e \<Rightarrow> (Some e, w)
      | Inr q \<Rightarrow>
          (case node_at w q of
             None \<Rightarrow> (Some ENOENT, w)
           | Some n \<Rightarrow>
               if q = [] \<or> \<not> may_change_dir w q then (Some EACCES, w)
               else if dir_names w q \<noteq> [] then (Some ENOTEMPTY, w)
               else (None, delete_node q w)))"

text \<open>
  \<open>os.MkdirAll\<close>: a directory that is there is a success, anything else there an error; otherwise the
  parent is made first. The path is given by its components, in reverse.
\<close>

fun os_MkdirAll_rev :: "path \<Rightarrow> FileMode \<Rightarrow> world \<Rightarrow> go_error option \<times> world" where
  "os_MkdirAll_rev [] perm w = (None, w)"
| "os_MkdirAll_rev (c # cs) perm w =
     (let p = abs_path (rev (c # cs)) in
      case os_Stat w p of
        Inr (NDir m) \<Rightarrow> (None, w)
      | Inr n \<Rightarrow> (Some ENOTDIR, w)
      | Inl e \<Rightarrow>
          (case os_MkdirAll_rev cs perm w of
             (Some e, w') \<Rightarrow> (Some e, w')
           | (None, w') \<Rightarrow>
               (case os_Mkdir p perm w' of
                  (None, w'') \<Rightarrow> (None, w'')
                | (Some e, w'') \<Rightarrow>
                    (case os_Lstat w'' p of Inr (NDir m) \<Rightarrow> (None, w'') | _ \<Rightarrow> (Some e, w'')))))"

definition os_MkdirAll :: "string \<Rightarrow> FileMode \<Rightarrow> world \<Rightarrow> go_error option \<times> world" where
  "os_MkdirAll p perm w = os_MkdirAll_rev (rev (path_comps (Abs w p))) perm w"

text \<open>
  \<open>os.OpenFile\<close>: the result is the path of the opened file. Opening with \<open>O_TRUNC\<close> needs the write
  permission, as it does on Linux.
\<close>

record open_flags =
  o_create :: bool
  o_trunc :: bool
  o_read :: bool
  o_write :: bool

definition os_OpenFile :: "string \<Rightarrow> open_flags \<Rightarrow> FileMode \<Rightarrow> world \<Rightarrow> path result \<times> world" where
  "os_OpenFile p fl perm w =
     (case resolve_path w True p of
        Inl e \<Rightarrow> (Inl e, w)
      | Inr q \<Rightarrow>
          (case node_at w q of
             None \<Rightarrow>
               if \<not> o_create fl then (Inl ENOENT, w)
               else (case create_at q (NFile (perm AND NOT (umask w)) []) w of
                       (Some e, w') \<Rightarrow> (Inl e, w')
                     | (None, w') \<Rightarrow> (Inr q, w'))
           | Some (NFile m bs) \<Rightarrow>
               if o_read fl \<and> \<not> permits w m 256 \<or> (o_write fl \<or> o_trunc fl) \<and> \<not> permits w m 128
               then (Inl EACCES, w)
               else (Inr q, if o_trunc fl then set_node q (NFile m []) w else w)
           | Some (NDir m) \<Rightarrow>
               if o_write fl \<or> o_create fl then (Inl EISDIR, w)
               else if o_read fl \<and> \<not> permits w m 256 then (Inl EACCES, w) else (Inr q, w)
           | Some n \<Rightarrow> (Inl EINVAL, w)))"

text \<open>On an opened file: setting its length, writing at an offset, reading from an offset.\<close>

definition file_Ftruncate :: "path \<Rightarrow> int \<Rightarrow> world \<Rightarrow> go_error option \<times> world" where
  "file_Ftruncate q sz w =
     (if sz < 0 then (Some EINVAL, w)
      else (case node_at w q of
              Some (NFile m bs) \<Rightarrow>
                (None, set_node q (NFile m (take (nat sz) bs @ replicate (nat sz - length bs) 0)) w)
            | _ \<Rightarrow> (Some EINVAL, w)))"

definition file_pwrite :: "path \<Rightarrow> nat \<Rightarrow> byte list \<Rightarrow> world \<Rightarrow> world" where
  "file_pwrite q off bs w =
     (case node_at w q of Some (NFile m xs) \<Rightarrow> set_node q (NFile m (overwrite off bs xs)) w | _ \<Rightarrow> w)"

definition file_content :: "world \<Rightarrow> path \<Rightarrow> byte list" where
  "file_content w q = (case node_at w q of Some (NFile m xs) \<Rightarrow> xs | _ \<Rightarrow> [])"

text \<open>\<open>os.ReadDir\<close>: the names in the directory, sorted.\<close>

definition os_ReadDir :: "world \<Rightarrow> string \<Rightarrow> string list result" where
  "os_ReadDir w p =
     (case resolve_path w True p of
        Inl e \<Rightarrow> Inl e
      | Inr q \<Rightarrow>
          (case node_at w q of
             None \<Rightarrow> Inl ENOENT
           | Some (NDir m) \<Rightarrow> if permits w m 256 then Inr (sort (dir_names w q)) else Inl EACCES
           | Some n \<Rightarrow> Inl ENOTDIR))"

section \<open>Plain paths\<close>

lemma node_at_set_node [simp]: "node_at (set_node p n w) q = (if q = p then Some n else node_at w q)"
  by (simp add: node_at_def set_node_def update_conv')

lemma set_node_fields [simp]:
  "cwd (set_node p n w) = cwd w"
  "umask (set_node p n w) = umask w"
  "superuser (set_node p n w) = superuser w"
  "permits (set_node p n w) = permits w"
  by (simp_all add: set_node_def permits_def fun_eq_iff)

lemma set_node_same [simp]: "set_node p m (set_node p n w) = set_node p m w"
  by (simp add: set_node_def update_last)

text \<open>
  A path is plain when its names mean themselves and every directory above it is a real directory
  that can be searched. Plain paths resolve to themselves.
\<close>

definition plain :: "world \<Rightarrow> path \<Rightarrow> bool" where
  "plain w q \<longleftrightarrow> (\<forall>c \<in> set q. clean_name c) \<and>
     (\<forall>j < length q. \<exists>p. node_at w (take j q) = Some (NDir p) \<and> permits w p 64)"

definition is_link :: "node option \<Rightarrow> bool" where
  "is_link n \<longleftrightarrow> (\<exists>t. n = Some (NSymlink t))"

lemma resolve_plain_from:
  assumes "\<forall>c \<in> set cs. clean_name c"
    and "\<forall>j < length cs. \<exists>p. node_at w (acc @ take j cs) = Some (NDir p) \<and> permits w p 64"
    and "\<not> is_link (node_at w (acc @ cs)) \<or> \<not> follow"
  shows "resolve w k follow acc cs = Inr (acc @ cs)"
  using assms
proof (induction cs arbitrary: acc)
  case (Cons c cs)
  obtain p where p: "node_at w acc = Some (NDir p)" "permits w p 64"
    using Cons.prems(2) [rule_format, of 0] by auto
  have c: "c \<noteq> ''.''" "c \<noteq> ''..''" using Cons.prems(1) by (auto simp: clean_name_def)
  have next_dirs: "\<forall>j < length cs. \<exists>p. node_at w ((acc @ [c]) @ take j cs) = Some (NDir p) \<and> permits w p 64"
  proof (intro allI impI)
    fix j assume "j < length cs"
    then show "\<exists>p. node_at w ((acc @ [c]) @ take j cs) = Some (NDir p) \<and> permits w p 64"
      using Cons.prems(2) [rule_format, of "Suc j"] by simp
  qed
  have rest: "resolve w k follow (acc @ [c]) cs = Inr (acc @ c # cs)"
    using Cons.IH [of "acc @ [c]"] Cons.prems next_dirs by auto
  show ?case
  proof (cases "cs = []")
    case True
    then show ?thesis
      using p c rest Cons.prems(3) by (auto simp: is_link_def split: option.splits node.splits)
  next
    case False
    then obtain p' where "node_at w (acc @ [c]) = Some (NDir p')"
      using next_dirs [rule_format, of 0] by auto
    then show ?thesis using p c rest by simp
  qed
qed simp

lemma resolve_path_plain:
  assumes "plain w q" and "\<not> is_link (node_at w q) \<or> \<not> follow"
  shows "resolve_path w follow (abs_path q) = Inr q"
proof -
  have clean: "\<forall>c \<in> set q. clean_name c" using assms(1) by (simp add: plain_def)
  have "resolve w 40 follow [] q = Inr ([] @ q)"
    using assms by (intro resolve_plain_from) (auto simp: plain_def)
  then show ?thesis
    using clean by (simp add: resolve_path_def) (simp add: abs_path_def)
qed

text \<open>Changing a node that is no directory above a path, or a directory into a searchable one.\<close>

lemma plain_set_node:
  assumes "plain w q"
    and "\<And>j. j < length q \<Longrightarrow> p = take j q \<Longrightarrow> \<exists>m. n = NDir m \<and> permits w m 64"
  shows "plain (set_node p n w) q"
  using assms unfolding plain_def by auto

lemma plain_set_file:
  assumes "plain w q" and "node_at w p = Some (NFile m bs)"
  shows "plain (set_node p (NFile m' bs') w) q"
proof (rule plain_set_node [OF assms(1)])
  fix j assume "j < length q" "p = take j q"
  then show "\<exists>ma. NFile m' bs' = NDir ma \<and> permits w ma 64"
    using assms unfolding plain_def by auto
qed

lemma plain_parent: "plain w (q @ [c]) \<Longrightarrow> \<exists>p. node_at w q = Some (NDir p) \<and> permits w p 64"
  unfolding plain_def by (metis append_eq_conv_conj length_append_singleton lessI)

lemma plain_prefix: "plain w (q @ r) \<Longrightarrow> plain w q"
  unfolding plain_def by (auto simp: take_append) (metis less_add_eq_less trans_less_add1 zero_less_diff diff_is_0_eq' less_imp_le_nat append_Nil2 take_0)

lemma os_Stat_plain: "plain w q \<Longrightarrow> \<not> is_link (node_at w q) \<Longrightarrow>
    os_Stat w (abs_path q) = (case node_at w q of None \<Rightarrow> Inl ENOENT | Some n \<Rightarrow> Inr n)"
  by (simp add: os_Stat_def resolve_path_plain)

lemma os_Chmod_plain: "plain w q \<Longrightarrow> node_at w q = Some n \<Longrightarrow> \<not> is_link (Some n) \<Longrightarrow>
    os_Chmod (abs_path q) mode w = (None, set_node q (set_perm mode n) w)"
  by (simp add: os_Chmod_def resolve_path_plain)

lemma os_Chmod_missing: "plain w q \<Longrightarrow> node_at w q = None \<Longrightarrow>
    os_Chmod (abs_path q) mode w = (Some ENOENT, w)"
  by (simp add: os_Chmod_def resolve_path_plain is_link_def)

lemma os_OpenFile_plain_file:
  "plain w q \<Longrightarrow> node_at w q = Some (NFile m bs) \<Longrightarrow>
   (o_read fl \<longrightarrow> permits w m 256) \<Longrightarrow> (o_write fl \<or> o_trunc fl \<longrightarrow> permits w m 128) \<Longrightarrow>
   os_OpenFile (abs_path q) fl perm w = (Inr q, if o_trunc fl then set_node q (NFile m []) w else w)"
  by (auto simp: os_OpenFile_def resolve_path_plain is_link_def)

lemma os_OpenFile_plain_new:
  assumes "plain w (q @ [c])" and "node_at w (q @ [c]) = None" and "o_create fl"
    and "node_at w q = Some (NDir p)" "permits w p 128"
  shows "os_OpenFile (abs_path (q @ [c])) fl perm w =
     (Inr (q @ [c]), set_node (q @ [c]) (NFile (perm AND NOT (umask w)) []) w)"
  using assms by (simp add: os_OpenFile_def resolve_path_plain is_link_def create_at_def may_change_dir_def)

end
