(* ===== verification/Local_Storage.thy ===== *)
theory Local_Storage
  imports Storage_Interface File_System
begin

text \<open>
  Package \<open>storage\<close>: the storage types and options (\<open>option.go\<close>), the factory (\<open>storage.go\<close>) and the
  storage on a local directory (\<open>local_storage.go\<close>), over the file-system model. The lemmas give
  the behaviour of the operations on plain paths and interpret the interface \<open>file_storage\<close>.
\<close>

section \<open>option.go\<close>

datatype StorageType = StorageTypeNone | StorageTypeLocal | StorageTypeAppdepot | StorageTypeS3

definition StorageTypeFrom :: "string \<Rightarrow> StorageType result" where
  "StorageTypeFrom s =
     (let st = ToLower s in
      if st = ''local'' then Inr StorageTypeLocal
      else if st = ''appdepot'' then Inr StorageTypeAppdepot
      else if st = ''s3'' then Inr StorageTypeS3
      else Inl (Error ''invalid storage type''))"

record storage_Config =
  sc_path :: string
  sc_appdepotURL :: string
  sc_appdepotAppName :: string
  sc_appdepotEnvName :: string
  sc_s3URL :: string
  sc_s3Region :: string
  sc_s3AccessKey :: string
  sc_s3SecretKey :: string

definition WithPath :: "string \<Rightarrow> storage_Config \<Rightarrow> storage_Config" where
  "WithPath path c = c\<lparr>sc_path := path\<rparr>"

definition WithS3Config :: "string \<Rightarrow> string \<Rightarrow> string \<Rightarrow> string \<Rightarrow> storage_Config \<Rightarrow> storage_Config" where
  "WithS3Config url region accessKey secretKey c =
     c\<lparr>sc_s3URL := url, sc_s3Region := region, sc_s3AccessKey := accessKey, sc_s3SecretKey := secretKey\<rparr>"

definition WithAppdepotConfig :: "string \<Rightarrow> string \<Rightarrow> string \<Rightarrow> storage_Config \<Rightarrow> storage_Config" where
  "WithAppdepotConfig url appName envName c =
     c\<lparr>sc_appdepotURL := url, sc_appdepotAppName := appName, sc_appdepotEnvName := envName\<rparr>"

section \<open>local_storage.go\<close>

record LocalStorage =
  BaseDir :: string

definition newLocalStorage :: "string \<Rightarrow> LocalStorage result" where
  "newLocalStorage path =
     (if path = [] then Inl (Error ''path cannot be empty'') else Inr \<lparr>BaseDir = path\<rparr>)"

text \<open>
  \<open>scanLocalDirectory\<close>, with its callback \<open>fn\<close> acting on a state. The recursion descends into
  directories; the fuel bounds its depth (see \<open>scan_fuel_enough\<close>), \<open>None\<close> is running out of it.
\<close>

fun scanLocalDirectory :: "nat \<Rightarrow> world \<Rightarrow> string \<Rightarrow> string \<Rightarrow> (Entry \<Rightarrow> 's \<Rightarrow> go_error option \<times> 's) \<Rightarrow> 's \<Rightarrow>
      (go_error option \<times> 's) option"
  and scan_entries :: "nat \<Rightarrow> world \<Rightarrow> string \<Rightarrow> string \<Rightarrow> string list \<Rightarrow> (Entry \<Rightarrow> 's \<Rightarrow> go_error option \<times> 's) \<Rightarrow> 's \<Rightarrow>
      (go_error option \<times> 's) option"
where
  "scanLocalDirectory 0 w dirSrc subDir fn s = None"
| "scanLocalDirectory (Suc k) w dirSrc subDir fn s =
     (case os_ReadDir w (Join dirSrc subDir) of
        Inl e \<Rightarrow> Some (Some e, s)
      | Inr localFiles \<Rightarrow> scan_entries k w dirSrc subDir localFiles fn s)"
| "scan_entries k w dirSrc subDir [] fn s = Some (None, s)"
| "scan_entries k w dirSrc subDir (localFile # localFiles) fn s =
     (let name = Join subDir localFile in
      case os_Lstat w (Join (Join dirSrc subDir) localFile) of
        Inl e \<Rightarrow> Some (Some e, s)
      | Inr (NDir perm) \<Rightarrow>
          (case scanLocalDirectory k w dirSrc name fn s of
             None \<Rightarrow> None
           | Some (Some e, s') \<Rightarrow> Some (Some e, s')
           | Some (None, s') \<Rightarrow>
               (case fn (EDir \<lparr>de_Name = name, de_Perm = perm AND 511\<rparr>) s' of
                  (Some e, s'') \<Rightarrow> Some (Some e, s'')
                | (None, s'') \<Rightarrow> scan_entries k w dirSrc subDir localFiles fn s''))
      | Inr (NSymlink t) \<Rightarrow>
          (case os_Readlink w (Join dirSrc name) of
             Inl e \<Rightarrow> Some (Some e, s)
           | Inr symlinkTo \<Rightarrow>
               (case fn (ESymlink \<lparr>se_Name = name, se_SymlinkTo = symlinkTo\<rparr>) s of
                  (Some e, s') \<Rightarrow> Some (Some e, s')
                | (None, s') \<Rightarrow> scan_entries k w dirSrc subDir localFiles fn s'))
      | Inr (NFile perm bs) \<Rightarrow>
          (case fn (if length bs = 0
                    then EEmptyFile \<lparr>ee_Name = name, ee_Perm = perm AND 511\<rparr>
                    else EFile \<lparr>fe_Name = name, fe_Size = int (length bs), fe_Perm = perm AND 511,
                                fe_remainingChunkCount = 0\<rparr>) s of
             (Some e, s') \<Rightarrow> Some (Some e, s')
           | (None, s') \<Rightarrow> scan_entries k w dirSrc subDir localFiles fn s')
      | Inr (NOther perm) \<Rightarrow> scan_entries k w dirSrc subDir localFiles fn s)"

definition scan_fuel :: "world \<Rightarrow> nat" where
  "scan_fuel w = Suc (Suc (fold max (map (length \<circ> fst) (files w)) 0))"

definition collect_entry :: "Entry \<Rightarrow> Entry list \<Rightarrow> go_error option \<times> Entry list" where
  "collect_entry e es = (None, es @ [e])"

definition LocalStorage_Walk :: "LocalStorage \<Rightarrow> string \<Rightarrow> world \<Rightarrow> Entry list \<times> go_error option" where
  "LocalStorage_Walk storage path w =
     (case scanLocalDirectory (scan_fuel w) w (Join (BaseDir storage) path) [] collect_entry [] of
        Some (err, es) \<Rightarrow> (es, err)
      | None \<Rightarrow> ([], Some ELOOP))"

definition LocalStorage_Prepare :: "LocalStorage \<Rightarrow> world \<Rightarrow> go_error option \<times> world" where
  "LocalStorage_Prepare storage w =
     (case os_Stat w (BaseDir storage) of
        Inr (NDir m) \<Rightarrow>
          if m AND 448 \<noteq> 448 then (Some (Error ''destination path requires read, write and execute permissions''), w)
          else (None, w)
      | Inr n \<Rightarrow> (Some (Error ''destination path is not a directory''), w)
      | Inl e \<Rightarrow>
          if e \<noteq> ENOENT then (Some e, w)
          else os_MkdirAll (BaseDir storage) 511 w)"

definition PrepareEntry_dir :: "string \<Rightarrow> world \<Rightarrow> go_error option \<times> world" where
  "PrepareEntry_dir fullPath w = os_MkdirAll fullPath 511 (snd (os_Chmod fullPath 448 w))"

definition PrepareEntry_symlink :: "string \<Rightarrow> string \<Rightarrow> world \<Rightarrow> go_error option \<times> world" where
  "PrepareEntry_symlink fullPath target w = os_Symlink target fullPath (snd (os_Remove fullPath w))"

definition PrepareEntry_empty :: "string \<Rightarrow> world \<Rightarrow> go_error option \<times> world" where
  "PrepareEntry_empty fullPath w =
     (case os_OpenFile fullPath \<lparr>o_create = True, o_trunc = True, o_read = True, o_write = False\<rparr> 511
             (snd (os_Chmod fullPath 384 w)) of
        (Inl e, w') \<Rightarrow> (Some e, w')
      | (Inr q, w') \<Rightarrow> (None, w'))"

definition PrepareEntry_file :: "string \<Rightarrow> int \<Rightarrow> world \<Rightarrow> go_error option \<times> world" where
  "PrepareEntry_file fullPath sz w =
     (case os_OpenFile fullPath \<lparr>o_create = True, o_trunc = False, o_read = True, o_write = True\<rparr> 511
             (snd (os_Chmod fullPath 384 w)) of
        (Inl e, w') \<Rightarrow> (Some e, w')
      | (Inr q, w') \<Rightarrow> file_Ftruncate q sz w')"

definition LocalStorage_PrepareEntry :: "LocalStorage \<Rightarrow> Entry \<Rightarrow> world \<Rightarrow> go_error option \<times> world" where
  "LocalStorage_PrepareEntry storage entry w =
     (let fullPath = Join (BaseDir storage) (GetName entry) in
      case entry of
        EDir e \<Rightarrow> PrepareEntry_dir fullPath w
      | ESymlink e \<Rightarrow> PrepareEntry_symlink fullPath (se_SymlinkTo e) w
      | EEmptyFile e \<Rightarrow> PrepareEntry_empty fullPath w
      | EFile e \<Rightarrow> PrepareEntry_file fullPath (fe_Size e) w)"

definition LocalStorage_CommitEntry :: "LocalStorage \<Rightarrow> Entry \<Rightarrow> world \<Rightarrow> go_error option \<times> world" where
  "LocalStorage_CommitEntry storage entry w =
     (let fullPath = Join (BaseDir storage) (GetName entry) in
      case entry of
        EDir e \<Rightarrow> (case os_Chmod fullPath (de_Perm e) w of
            (Some err, w') \<Rightarrow> (Some (Error ''failed to change directory permissions''), w')
          | (None, w') \<Rightarrow> (None, w'))
      | EEmptyFile e \<Rightarrow> (case os_Chmod fullPath (ee_Perm e) w of
            (Some err, w') \<Rightarrow> (Some (Error ''failed to change empty file permissions''), w')
          | (None, w') \<Rightarrow> (None, w'))
      | EFile e \<Rightarrow> (case os_Chmod fullPath (fe_Perm e) w of
            (Some err, w') \<Rightarrow> (Some (Error ''failed to change file permissions''), w')
          | (None, w') \<Rightarrow> (None, w'))
      | ESymlink e \<Rightarrow> (None, w))"

definition LocalStorage_Write ::
  "LocalStorage \<Rightarrow> string \<Rightarrow> int \<Rightarrow> int \<Rightarrow> Reader \<Rightarrow> world \<Rightarrow> (int \<times> go_error option) \<times> Reader \<times> world" where
  "LocalStorage_Write storage name off sz reader w =
     (case os_OpenFile (Join (BaseDir storage) name)
             \<lparr>o_create = False, o_trunc = False, o_read = False, o_write = True\<rparr> 511 w of
        (Inl e, w') \<Rightarrow> ((0, Some e), reader, w')
      | (Inr q, w') \<Rightarrow>
          if off < 0 then ((0, Some EINVAL), reader, w')
          else (case CopyN sz reader of
                  ((bs, err), reader') \<Rightarrow> ((int (length bs), err), reader', file_pwrite q (nat off) bs w')))"

definition LocalStorage_GetReader :: "LocalStorage \<Rightarrow> string \<Rightarrow> int \<Rightarrow> int \<Rightarrow> world \<Rightarrow> Reader result" where
  "LocalStorage_GetReader storage name off sz w =
     (case os_OpenFile (Join (BaseDir storage) name)
             \<lparr>o_create = False, o_trunc = False, o_read = True, o_write = False\<rparr> 0 w of
        (Inl e, w') \<Rightarrow> Inl e
      | (Inr q, w') \<Rightarrow>
          if off < 0 then Inl EINVAL
          else Inr (LimitReader sz
                 \<lparr>rd_data = drop (nat off) (file_content w' q),
                  rd_fin = (case node_at w' q of Some (NDir m) \<Rightarrow> EISDIR | _ \<Rightarrow> EOF)\<rparr>))"

text \<open>A \<open>*LocalStorage\<close> as a value of the interface.\<close>

definition local_storage :: "LocalStorage \<Rightarrow> world Storage" where
  "local_storage storage =
     \<lparr>st_GetBaseDirectory = BaseDir storage, st_Walk = LocalStorage_Walk storage,
      st_Prepare = LocalStorage_Prepare storage, st_PrepareEntry = LocalStorage_PrepareEntry storage,
      st_CommitEntry = LocalStorage_CommitEntry storage, st_Write = LocalStorage_Write storage,
      st_GetReader = LocalStorage_GetReader storage\<rparr>"

section \<open>storage.go\<close>

record storage_Factory =
  sf_storageType :: StorageType
  sf_storagePath :: string
  sf_rawURL :: string

text \<open>\<open>filepath.Abs\<close> fails only when the working directory is unknown, which \<open>Abs\<close> never is.\<close>

definition NewStorageFactory :: "world \<Rightarrow> string \<Rightarrow> storage_Factory result" where
  "NewStorageFactory w rawURL =
     (if rawURL = [] then Inr \<lparr>sf_storageType = StorageTypeNone, sf_storagePath = [], sf_rawURL = []\<rparr>
      else
        let parts = SplitN2 CHR '':'' rawURL;
            ty = (if length parts = 2 then StorageTypeFrom (parts ! 0) else Inr StorageTypeLocal);
            path = (if length parts = 2 then parts ! 1 else rawURL)
        in case ty of
             Inl e \<Rightarrow> Inl (Error ''invalid storage type'')
           | Inr storageType \<Rightarrow>
               Inr \<lparr>sf_storageType = storageType,
                    sf_storagePath = (if path = [] then path else Abs w path),
                    sf_rawURL = rawURL\<rparr>)"

text \<open>The storage \<open>Create\<close> returns, \<open>Inr None\<close> being the nil storage of the seed-only mode.\<close>

definition StorageFactory_Create ::
  "storage_Factory \<Rightarrow> (storage_Config \<Rightarrow> storage_Config) list \<Rightarrow> LocalStorage option result" where
  "StorageFactory_Create f options =
     (let config = fold (\<lambda>opt c. opt c) options
            \<lparr>sc_path = sf_storagePath f, sc_appdepotURL = [], sc_appdepotAppName = [], sc_appdepotEnvName = [],
             sc_s3URL = [], sc_s3Region = [], sc_s3AccessKey = [], sc_s3SecretKey = []\<rparr>
      in case sf_storageType f of
           StorageTypeNone \<Rightarrow> Inr None
         | StorageTypeLocal \<Rightarrow>
             (case newLocalStorage (sc_path config) of Inl e \<Rightarrow> Inl e | Inr s \<Rightarrow> Inr (Some s))
         | StorageTypeAppdepot \<Rightarrow> Inl (Error ''appdepot storage is not supported'')
         | StorageTypeS3 \<Rightarrow> Inl (Error ''s3 storage is not supported''))"

section \<open>The local storage as a file storage\<close>

definition ls_content :: "path \<Rightarrow> world \<Rightarrow> string \<Rightarrow> byte list option" where
  "ls_content bs w name =
     (if (\<forall>c \<in> set (Split slash name). clean_name c) \<and> plain w (bs @ Split slash name) then
        (case node_at w (bs @ Split slash name) of
           Some (NFile m xs) \<Rightarrow> if permits w m 256 then Some xs else None
         | _ \<Rightarrow> None)
      else None)"

definition ls_writable :: "path \<Rightarrow> world \<Rightarrow> string \<Rightarrow> bool" where
  "ls_writable bs w name =
     (case node_at w (bs @ Split slash name) of Some (NFile m xs) \<Rightarrow> permits w m 128 | _ \<Rightarrow> False)"

lemma rel_path_Split: "rel_path (Split slash name) = name"
  by (simp add: rel_path_def join_Split)

lemma Split_slash_inject: "Split slash a = Split slash b \<longleftrightarrow> a = b"
  by (metis rel_path_Split)

lemma Join_name:
  assumes "plain w (bs @ Split slash name)"
  shows "Join (abs_path bs) name = abs_path (bs @ Split slash name)"
  using Join_abs_rel [of bs "Split slash name"] assms by (auto simp: plain_def rel_path_Split)

lemma ls_content_SomeD:
  assumes "ls_content bs w name = Some xs"
  obtains m where "plain w (bs @ Split slash name)" "node_at w (bs @ Split slash name) = Some (NFile m xs)"
    "permits w m 256" "Join (abs_path bs) name = abs_path (bs @ Split slash name)"
  using assms Join_name by (auto simp: ls_content_def split: if_splits option.splits node.splits)

lemma ls_content_set_file:
  assumes "ls_content bs w name = Some xs" and "node_at w (bs @ Split slash name) = Some (NFile m xs)"
  shows "ls_content bs (set_node (bs @ Split slash name) (NFile m ys) w) = (ls_content bs w)(name \<mapsto> ys)"
proof
  fix a
  let ?q = "bs @ Split slash name" and ?w = "set_node (bs @ Split slash name) (NFile m ys) w"
  have same: "plain ?w p \<longleftrightarrow> plain w p" for p
  proof
    show "plain w p \<Longrightarrow> plain ?w p" by (rule plain_set_file [OF _ assms(2)])
    assume p: "plain ?w p"
    have ne: "?q \<noteq> take j p" if "j < length p" for j
    proof
      assume "?q = take j p"
      then have "node_at ?w (take j p) = Some (NFile m ys)" by simp
      then show False using p that unfolding plain_def by auto
    qed
    show "plain w p"
      unfolding plain_def
    proof (intro conjI allI impI)
      show "\<forall>c \<in> set p. clean_name c" using p by (simp add: plain_def)
      fix j assume j: "j < length p"
      then show "\<exists>pa. node_at w (take j p) = Some (NDir pa) \<and> permits w pa 64"
        using p ne [OF j] unfolding plain_def by auto
    qed
  qed
  show "ls_content bs ?w a = ((ls_content bs w)(name \<mapsto> ys)) a"
    using assms by (auto simp: ls_content_def same Split_slash_inject split: if_splits option.splits node.splits)
qed

lemma local_write:
  assumes "ls_content bs w name = Some xs" and "ls_writable bs w name" and "0 \<le> off"
    and "CopyN n rd = ((ys, err), rd')"
  obtains m where "node_at w (bs @ Split slash name) = Some (NFile m xs)"
    "LocalStorage_Write \<lparr>BaseDir = abs_path bs\<rparr> name off n rd w =
       ((int (length ys), err), rd', set_node (bs @ Split slash name) (NFile m (overwrite (nat off) ys xs)) w)"
proof -
  obtain m where m: "plain w (bs @ Split slash name)" "node_at w (bs @ Split slash name) = Some (NFile m xs)"
    "Join (abs_path bs) name = abs_path (bs @ Split slash name)"
    using assms(1) by (rule ls_content_SomeD)
  have "permits w m 128" using assms(2) m(2) by (simp add: ls_writable_def)
  then have "LocalStorage_Write \<lparr>BaseDir = abs_path bs\<rparr> name off n rd w =
       ((int (length ys), err), rd', set_node (bs @ Split slash name) (NFile m (overwrite (nat off) ys xs)) w)"
    using m assms(3,4) by (simp add: LocalStorage_Write_def os_OpenFile_plain_file [OF m(1,2)] file_pwrite_def)
  with m(2) show ?thesis by (rule that)
qed

interpretation local: file_storage "local_storage \<lparr>BaseDir = abs_path bs\<rparr>" "ls_content bs" "ls_writable bs"
  for bs
proof unfold_locales
  fix w name xs and off n :: int
  assume c: "ls_content bs w name = Some xs" and off: "0 \<le> off" "0 \<le> n"
  obtain m where m: "plain w (bs @ Split slash name)" "node_at w (bs @ Split slash name) = Some (NFile m xs)"
    "permits w m 256" "Join (abs_path bs) name = abs_path (bs @ Split slash name)"
    using c by (rule ls_content_SomeD)
  show "st_GetReader (local_storage \<lparr>BaseDir = abs_path bs\<rparr>) name off n w =
      Inr \<lparr>rd_data = window (nat off) (nat n) xs, rd_fin = EOF\<rparr>"
    using m off
    by (simp add: local_storage_def LocalStorage_GetReader_def os_OpenFile_plain_file [OF m(1,2)]
        file_content_def LimitReader_def window_def)
next
  fix w name xs and off n :: int and rd ys err rd'
  assume a: "ls_content bs w name = Some xs" "ls_writable bs w name" "0 \<le> off"
    and cp: "CopyN n rd = ((ys, err), rd')"
  obtain m where m: "node_at w (bs @ Split slash name) = Some (NFile m xs)"
    "LocalStorage_Write \<lparr>BaseDir = abs_path bs\<rparr> name off n rd w =
       ((int (length ys), err), rd', set_node (bs @ Split slash name) (NFile m (overwrite (nat off) ys xs)) w)"
    using a cp by (rule local_write)
  let ?w = "set_node (bs @ Split slash name) (NFile m (overwrite (nat off) ys xs)) w"
  have "ls_writable bs ?w = ls_writable bs w"
    using m(1) by (auto simp: ls_writable_def fun_eq_iff split: option.splits node.splits)
  then show "\<exists>w'. st_Write (local_storage \<lparr>BaseDir = abs_path bs\<rparr>) name off n rd w =
        ((int (length ys), err), rd', w') \<and>
      ls_content bs w' = (ls_content bs w)(name \<mapsto> overwrite (nat off) ys xs) \<and>
      ls_writable bs w' = ls_writable bs w"
    using m(2) ls_content_set_file [OF a(1) m(1)] by (auto simp: local_storage_def)
qed

end
