(* ===== verification/Chunk_Manager.thy ===== *)
theory Chunk_Manager
  imports Manifest_Data Local_Storage
begin

text \<open>
  Package \<open>transfer\<close>, files \<open>chunk_reader.go\<close> and \<open>chunk_manager.go\<close>: the reader that delivers a
  chunk as one stream over its file ranges, and the operations of the chunk manager over any
  storage. The hash xxh3 is third-party code and a parameter \<open>hash\<close> of the operations that use it.
  An index out of range, which panics in Go, gives the error \<open>IndexPanic\<close>.
\<close>

section \<open>chunk_reader.go\<close>

record chunkReadCloser =
  cr_chunkIndex :: nat
  cr_fileRangeIndex :: nat
  cr_readCloser :: "Reader option"

definition newChunkReadCloser :: "nat \<Rightarrow> chunkReadCloser" where
  "newChunkReadCloser i = \<lparr>cr_chunkIndex = i, cr_fileRangeIndex = 0, cr_readCloser = None\<rparr>"

text \<open>The part of \<open>Read\<close> that opens the reader of the next range when none is open.\<close>

definition chunkReadCloser_open ::
  "ChunkManager \<Rightarrow> 'w Storage \<Rightarrow> 'w \<Rightarrow> chunkReadCloser \<Rightarrow> (Reader \<times> chunkReadCloser) result" where
  "chunkReadCloser_open cm st w reader =
     (case cr_readCloser reader of
        Some rd \<Rightarrow> Inr (rd, reader)
      | None \<Rightarrow>
          if length (cm_chunks cm) \<le> cr_chunkIndex reader then Inl IndexPanic
          else let fileRanges = FileRanges (cm_chunks cm ! cr_chunkIndex reader) in
            if length fileRanges \<le> cr_fileRangeIndex reader then Inl EOF
            else let fileRange = fileRanges ! cr_fileRangeIndex reader in
              if length (cm_Files cm) \<le> FileIndex fileRange then Inl IndexPanic
              else case st_GetReader st (fe_Name (cm_Files cm ! FileIndex fileRange)) (StartOffset fileRange)
                          (i64 (EndOffset fileRange - StartOffset fileRange)) w of
                     Inl err \<Rightarrow> Inl err
                   | Inr rd \<Rightarrow> Inr (rd, reader\<lparr>cr_readCloser := Some rd\<rparr>))"

definition chunkReadCloser_Read ::
  "nat \<Rightarrow> ChunkManager \<Rightarrow> 'w Storage \<Rightarrow> 'w \<Rightarrow> chunkReadCloser \<Rightarrow>
     (byte list \<times> go_error option) \<times> chunkReadCloser" where
  "chunkReadCloser_Read n cm st w reader =
     (case chunkReadCloser_open cm st w reader of
        Inl err \<Rightarrow> (([], Some err), reader)
      | Inr (rd, reader') \<Rightarrow>
          (case Reader_Read n rd of
             ((p, None), rd') \<Rightarrow> ((p, None), reader'\<lparr>cr_readCloser := Some rd'\<rparr>)
           | ((p, Some EOF), rd') \<Rightarrow>
               ((p, None), reader'\<lparr>cr_readCloser := None, cr_fileRangeIndex := cr_fileRangeIndex reader' + 1\<rparr>)
           | ((p, Some err), rd') \<Rightarrow> ((p, Some err), reader'\<lparr>cr_readCloser := Some rd'\<rparr>)))"

definition chunkReadCloser_Close :: "chunkReadCloser \<Rightarrow> go_error option \<times> chunkReadCloser" where
  "chunkReadCloser_Close reader = (None, reader\<lparr>cr_readCloser := None\<rparr>)"

text \<open>
  \<open>io.Copy\<close> from such a reader into a hash: read into a buffer of 32 KiB until the end or an error.
  The value is what was written to the hash and the error, which is none at the end of the stream.
\<close>

partial_function (option) io_Copy ::
  "ChunkManager \<Rightarrow> 'w Storage \<Rightarrow> 'w \<Rightarrow> chunkReadCloser \<Rightarrow> byte list \<Rightarrow> (byte list \<times> go_error option) option"
where
  "io_Copy cm st w reader written =
     (case chunkReadCloser_Read 32768 cm st w reader of
        ((p, None), reader') \<Rightarrow> io_Copy cm st w reader' (written @ p)
      | ((p, Some err), reader') \<Rightarrow> Some (written @ p, if err = EOF then None else Some err))"

section \<open>chunk_manager.go\<close>

definition GetManifestJson :: "ChunkManager \<Rightarrow> byte list" where
  "GetManifestJson cm = cm_manifestJson cm"

definition GetManifestChecksum :: "ChunkManager \<Rightarrow> uint64" where
  "GetManifestChecksum cm = mf_ChunkChecksum (cm_manifest cm)"

text \<open>
  The variables of \<open>WriteChunk\<close> that its loop changes: the chunk manager (the counters of its
  files), the storage, the reader, what the hash has seen through the \<open>TeeReader\<close>, the length, and
  the calls of \<open>onFileComplete\<close>.
\<close>

record 'w write_state =
  ws_cm :: ChunkManager
  ws_world :: 'w
  ws_reader :: Reader
  ws_hashed :: "byte list"
  ws_length :: int
  ws_complete :: "(string \<times> int) list"

text \<open>The bytes that were taken from a reader between two of its states.\<close>

definition bytes_read :: "Reader \<Rightarrow> Reader \<Rightarrow> byte list" where
  "bytes_read rd rd' = take (length (rd_data rd) - length (rd_data rd')) (rd_data rd)"

text \<open>One round of the loop of \<open>WriteChunk\<close>: one file range.\<close>

definition WriteChunk_range ::
  "'w Storage \<Rightarrow> FileRange \<Rightarrow> 'w write_state \<Rightarrow> go_error option \<times> 'w write_state" where
  "WriteChunk_range st fileChunk s =
     (if length (cm_Files (ws_cm s)) \<le> FileIndex fileChunk then (Some IndexPanic, s)
      else
        let fl = cm_Files (ws_cm s) ! FileIndex fileChunk;
            ((n, err), rd', w') = st_Write st (fe_Name fl) (StartOffset fileChunk)
                 (i64 (EndOffset fileChunk - StartOffset fileChunk)) (ws_reader s) (ws_world s);
            s' = s\<lparr>ws_world := w', ws_reader := rd', ws_hashed := ws_hashed s @ bytes_read (ws_reader s) rd'\<rparr>
        in case err of
             Some e \<Rightarrow> (Some e, s')
           | None \<Rightarrow>
               let (remaining, fl') = DecrementRemainingChunkCount fl;
                   s'' = s'\<lparr>ws_length := i64 (ws_length s + n),
                            ws_cm := set_Files ((cm_Files (ws_cm s))[FileIndex fileChunk := fl']) (ws_cm s)\<rparr>
               in (None, if remaining = 0
                         then s''\<lparr>ws_complete := ws_complete s @ [(Join (st_GetBaseDirectory st) (fe_Name fl), fe_Size fl)]\<rparr>
                         else s''))"

fun WriteChunk_loop ::
  "'w Storage \<Rightarrow> FileRange list \<Rightarrow> 'w write_state \<Rightarrow> go_error option \<times> 'w write_state" where
  "WriteChunk_loop st [] s = (None, s)"
| "WriteChunk_loop st (r # rs) s =
     (case WriteChunk_range st r s of
        (Some e, s') \<Rightarrow> (Some e, s')
      | (None, s') \<Rightarrow> WriteChunk_loop st rs s')"

text \<open>
  \<open>WriteChunk\<close>: the returned pair, and the state it leaves. With the expected checksum 0 there is
  no hash and nothing is compared.
\<close>

definition WriteChunk ::
  "(byte list \<Rightarrow> uint64) \<Rightarrow> 'w Storage \<Rightarrow> nat \<Rightarrow> uint64 \<Rightarrow> Reader \<Rightarrow> ChunkManager \<Rightarrow> 'w \<Rightarrow>
     (int \<times> go_error option) \<times> 'w write_state" where
  "WriteChunk hash st chunkIndex expectedChecksum reader cm w =
     (let s0 = \<lparr>ws_cm = cm, ws_world = w, ws_reader = reader, ws_hashed = [], ws_length = 0, ws_complete = []\<rparr>
      in if length (cm_chunks cm) \<le> chunkIndex then ((0, Some IndexPanic), s0)
         else
           case WriteChunk_loop st (FileRanges (cm_chunks cm ! chunkIndex)) s0 of
             (Some e, s) \<Rightarrow> ((0, Some e), s)
           | (None, s) \<Rightarrow>
               if expectedChecksum \<noteq> 0 \<and> hash (ws_hashed s) \<noteq> expectedChecksum
               then ((0, Some (Error ''checksum mismatch'')), s)
               else ((ws_length s, None), s))"

definition GetChunkReader :: "nat \<Rightarrow> chunkReadCloser" where
  "GetChunkReader chunkIndex = newChunkReadCloser chunkIndex"

text \<open>
  \<open>ComputeChunkChecksum\<close>; \<open>None\<close> if the copy never ends. The second look at the cache, inside the
  single flight, is the same as the first one when the operation runs alone.
\<close>

definition ComputeChunkChecksum ::
  "(byte list \<Rightarrow> uint64) \<Rightarrow> 'w Storage \<Rightarrow> nat \<Rightarrow> 'w \<Rightarrow> ChunkManager \<Rightarrow>
     ((uint64 \<times> go_error option) \<times> ChunkManager) option" where
  "ComputeChunkChecksum hash st chunkIndex w cm =
     (if length (cm_chunkChecksums cm) \<le> chunkIndex then Some ((0, Some IndexPanic), cm)
      else if cm_chunkChecksums cm ! chunkIndex \<noteq> 0
      then Some ((cm_chunkChecksums cm ! chunkIndex, None), cm)
      else
        case io_Copy cm st w (GetChunkReader chunkIndex) [] of
          None \<Rightarrow> None
        | Some (bs, Some err) \<Rightarrow> Some ((0, Some err), cm)
        | Some (bs, None) \<Rightarrow>
            Some ((hash bs, None),
                  cm\<lparr>cm_chunkChecksums := (cm_chunkChecksums cm)[chunkIndex := hash bs]\<rparr>))"

definition GetChunkChecksum :: "nat \<Rightarrow> ChunkManager \<Rightarrow> uint64 result" where
  "GetChunkChecksum chunkIndex cm =
     (if length (cm_chunkChecksums cm) \<le> chunkIndex then Inl IndexPanic
      else Inr (cm_chunkChecksums cm ! chunkIndex))"

definition SetChunkChecksum :: "nat \<Rightarrow> uint64 \<Rightarrow> ChunkManager \<Rightarrow> ChunkManager result" where
  "SetChunkChecksum chunkIndex checksum cm =
     (if length (cm_chunkChecksums cm) \<le> chunkIndex then Inl IndexPanic
      else Inr (cm\<lparr>cm_chunkChecksums := (cm_chunkChecksums cm)[chunkIndex := checksum]\<rparr>))"

definition GetFileCount :: "ChunkManager \<Rightarrow> nat" where
  "GetFileCount cm = length (cm_Files cm)"

definition GetChunkCount :: "ChunkManager \<Rightarrow> nat" where
  "GetChunkCount cm = length (cm_chunks cm)"

definition GetStatusDoneChunks :: "time \<Rightarrow> ChunkManager \<Rightarrow> nat list" where
  "GetStatusDoneChunks updatedSince cm =
     filter (\<lambda>index. Chunk_GetStatus (cm_chunks cm ! index) = ChunkStatusDone \<and>
                     updatedSince < Chunk_GetUpdatedAt (cm_chunks cm ! index))
       [0..<length (cm_chunks cm)]"

definition GetChunkSize :: "nat \<Rightarrow> ChunkManager \<Rightarrow> int result" where
  "GetChunkSize chunkIndex cm =
     (if length (cm_chunks cm) \<le> chunkIndex then Inl IndexPanic else Inr (Chunk_Size (cm_chunks cm ! chunkIndex)))"

definition GetChunkStatus :: "nat \<Rightarrow> ChunkManager \<Rightarrow> ChunkStatus result" where
  "GetChunkStatus chunkIndex cm =
     (if length (cm_chunks cm) \<le> chunkIndex then Inl IndexPanic else Inr (Chunk_GetStatus (cm_chunks cm ! chunkIndex)))"

definition SetChunkStatusDone :: "nat \<Rightarrow> time \<Rightarrow> ChunkManager \<Rightarrow> ChunkManager result" where
  "SetChunkStatusDone chunkIndex updatedAt cm =
     (if length (cm_chunks cm) \<le> chunkIndex then Inl IndexPanic
      else Inr (set_chunk chunkIndex
             (Chunk_SetUpdatedAt updatedAt (Chunk_SetStatus ChunkStatusDone (cm_chunks cm ! chunkIndex))) cm))"

definition SetChunkStatusPending :: "nat \<Rightarrow> ChunkManager \<Rightarrow> ChunkManager result" where
  "SetChunkStatusPending chunkIndex cm =
     (if length (cm_chunks cm) \<le> chunkIndex then Inl IndexPanic
      else Inr (set_chunk chunkIndex (Chunk_SetStatus ChunkStatusPending (cm_chunks cm ! chunkIndex)) cm))"

definition UpdateChunkStatus ::
  "nat \<Rightarrow> ChunkStatus \<Rightarrow> ChunkStatus \<Rightarrow> ChunkManager \<Rightarrow> (bool \<times> ChunkManager) result" where
  "UpdateChunkStatus chunkIndex oldStatus newStatus cm =
     (if length (cm_chunks cm) \<le> chunkIndex then Inl IndexPanic
      else let (ok, c) = Chunk_UpdateStatus oldStatus newStatus (cm_chunks cm ! chunkIndex)
           in Inr (ok, set_chunk chunkIndex c cm))"

end
