(* ===== verification/Chunk_Copy.thy ===== *)
theory Chunk_Copy
  imports Chunk_Manager
begin

text \<open>
  What \<open>WriteChunk\<close> and \<open>GetChunkReader\<close> do to the contents of files, proved over any storage that
  keeps the contract \<open>file_storage\<close>: draining a chunk reader yields the data of the chunk, and
  writing chunks, in any order, copies the bytes of their ranges and counts the ranges that are left
  of every file.
\<close>

section \<open>Ranges of files\<close>

definition range_ok :: "FileEntry list \<Rightarrow> FileRange \<Rightarrow> bool" where
  "range_ok fs r \<longleftrightarrow> FileIndex r < length fs \<and> 0 \<le> StartOffset r \<and> StartOffset r < EndOffset r \<and>
     EndOffset r \<le> fe_Size (fs ! FileIndex r) \<and> fe_Size (fs ! FileIndex r) < 2 ^ 63"

text \<open>The positions of file \<open>j\<close> that the ranges cover.\<close>

definition covered :: "FileRange list \<Rightarrow> nat \<Rightarrow> nat \<Rightarrow> bool" where
  "covered rs j k \<longleftrightarrow> (\<exists>r \<in> set rs. FileIndex r = j \<and> StartOffset r \<le> int k \<and> int k < EndOffset r)"

lemma covered_simps [simp]:
  "\<not> covered [] j k"
  "covered (rs @ ss) j k \<longleftrightarrow> covered rs j k \<or> covered ss j k"
  "covered [r] j k \<longleftrightarrow> FileIndex r = j \<and> StartOffset r \<le> int k \<and> int k < EndOffset r"
  by (auto simp: covered_def)

lemma contiguous_covers:
  "contiguous a rs b \<Longrightarrow> a \<le> k \<Longrightarrow> k < b \<Longrightarrow> \<exists>r \<in> set rs. StartOffset r \<le> k \<and> k < EndOffset r"
proof (induction rs arbitrary: a)
  case (Cons r rs)
  then show ?case by (cases "k < EndOffset r") auto
qed simp

lemma covered_index_ranges: "covered (index_ranges j rs) j k \<longleftrightarrow> covered rs j k"
  by (auto simp: covered_def index_ranges_def)

lemma contiguous_covered:
  "contiguous 0 (index_ranges j rs) (int n) \<Longrightarrow> k < n \<Longrightarrow> covered rs j k"
  using contiguous_covers [of 0 "index_ranges j rs" "int n" "int k"]
  by (auto simp: covered_def index_ranges_def)

section \<open>Counting the ranges that are left\<close>

text \<open>
  The files that become complete, in order, when the ranges \<open>rs\<close> are written after the ranges \<open>ps\<close>
  and file \<open>j\<close> has \<open>tot j\<close> ranges.
\<close>

fun completed :: "(nat \<Rightarrow> nat) \<Rightarrow> FileRange list \<Rightarrow> FileRange list \<Rightarrow> nat list" where
  "completed tot ps [] = []"
| "completed tot ps (r # rs) =
     (if length (index_ranges (FileIndex r) (ps @ [r])) = tot (FileIndex r) then [FileIndex r] else []) @
     completed tot (ps @ [r]) rs"

lemma completed_append: "completed tot ps (rs @ ss) = completed tot ps rs @ completed tot (ps @ rs) ss"
  by (induction rs arbitrary: ps) simp_all

lemma index_ranges_simps [simp]:
  "index_ranges j [] = []"
  "index_ranges j (r # rs) = (if FileIndex r = j then r # index_ranges j rs else index_ranges j rs)"
  by (simp_all add: index_ranges_def)

lemma count_completed:
  "count_list (completed tot ps rs) j =
     (if length (index_ranges j ps) < tot j \<and> tot j \<le> length (index_ranges j (ps @ rs)) then 1 else 0)"
  by (induction rs arbitrary: ps) auto

text \<open>The counter of a file of which the ranges \<open>ps\<close> are written.\<close>

definition left_count :: "(nat \<Rightarrow> nat) \<Rightarrow> FileRange list \<Rightarrow> nat \<Rightarrow> int" where
  "left_count tot ps j = i32 (int (tot j) - int (length (index_ranges j ps)))"

lemma left_count_step:
  "i32 (left_count tot ps (FileIndex r) - 1) = left_count tot (ps @ [r]) (FileIndex r)"
  "j \<noteq> FileIndex r \<Longrightarrow> left_count tot (ps @ [r]) j = left_count tot ps j"
  using i32_add_left [of "int (tot (FileIndex r)) - int (length (index_ranges (FileIndex r) ps))" "- 1"]
  by (simp_all add: left_count_def algebra_simps)

lemma left_count_0:
  assumes "length (index_ranges j ps) \<le> tot j" and "tot j < 2 ^ 31"
  shows "left_count tot ps j = 0 \<longleftrightarrow> length (index_ranges j ps) = tot j"
  using assms by (auto simp: left_count_def)

section \<open>Reading a chunk\<close>

lemma chunk_data_simps [simp]:
  "concat (map (range_data contents) []) = []"
  by simp

context file_storage
begin

text \<open>The files \<open>fs\<close> are in the storage, with the contents \<open>contents\<close>.\<close>

definition holds :: "'w \<Rightarrow> FileEntry list \<Rightarrow> byte list list \<Rightarrow> bool" where
  "holds w fs contents \<longleftrightarrow> length contents = length fs \<and>
     (\<forall>j < length fs. content w (fe_Name (fs ! j)) = Some (contents ! j))"

lemma io_Copy_open:
  "io_Copy cm st w \<lparr>cr_chunkIndex = i, cr_fileRangeIndex = k, cr_readCloser = Some \<lparr>rd_data = bs, rd_fin = EOF\<rparr>\<rparr> acc =
   io_Copy cm st w \<lparr>cr_chunkIndex = i, cr_fileRangeIndex = Suc k, cr_readCloser = None\<rparr> (acc @ bs)"
proof (induction "length bs" arbitrary: bs acc rule: less_induct)
  case less
  let ?r = "\<lparr>cr_chunkIndex = i, cr_fileRangeIndex = k, cr_readCloser = Some \<lparr>rd_data = bs, rd_fin = EOF\<rparr>\<rparr>"
  show ?case
  proof (cases "bs = []")
    case True
    then show ?thesis
      by (subst io_Copy.simps) (simp add: chunkReadCloser_Read_def chunkReadCloser_open_def Reader_Read_def)
  next
    case False
    then have "io_Copy cm st w \<lparr>cr_chunkIndex = i, cr_fileRangeIndex = k,
        cr_readCloser = Some \<lparr>rd_data = drop 32768 bs, rd_fin = EOF\<rparr>\<rparr> (acc @ take 32768 bs) =
      io_Copy cm st w \<lparr>cr_chunkIndex = i, cr_fileRangeIndex = Suc k, cr_readCloser = None\<rparr> (acc @ bs)"
      using less [of "drop 32768 bs" "acc @ take 32768 bs"] by simp
    then show ?thesis
      using False
      by (subst io_Copy.simps) (simp add: chunkReadCloser_Read_def chunkReadCloser_open_def Reader_Read_def)
  qed
qed

lemma io_Copy_closed:
  assumes i: "i < length (cm_chunks cm)" and fr: "FileRanges (cm_chunks cm ! i) = ps @ rs"
    and ok: "\<forall>r \<in> set rs. range_ok (cm_Files cm) r" and h: "holds w (cm_Files cm) contents"
  shows "io_Copy cm st w \<lparr>cr_chunkIndex = i, cr_fileRangeIndex = length ps, cr_readCloser = None\<rparr> acc =
    Some (acc @ concat (map (range_data contents) rs), None)"
  using fr ok
proof (induction rs arbitrary: ps acc)
  case Nil
  then show ?case
    using i by (subst io_Copy.simps) (simp add: chunkReadCloser_Read_def chunkReadCloser_open_def)
next
  case (Cons r rs)
  let ?fl = "cm_Files cm ! FileIndex r"
  have r: "range_ok (cm_Files cm) r" using Cons.prems by simp
  then have c: "content w (fe_Name ?fl) = Some (contents ! FileIndex r)"
    using h by (simp add: holds_def range_ok_def)
  have len: "i64 (EndOffset r - StartOffset r) = EndOffset r - StartOffset r"
    using r by (simp add: range_ok_def)
  have get: "st_GetReader st (fe_Name ?fl) (StartOffset r) (EndOffset r - StartOffset r) w =
      Inr \<lparr>rd_data = range_data contents r, rd_fin = EOF\<rparr>"
    using read_range [OF c] r by (simp add: range_ok_def range_data_def)
  let ?A = "\<lparr>cr_chunkIndex = i, cr_fileRangeIndex = length ps, cr_readCloser = None\<rparr>"
  let ?B = "\<lparr>cr_chunkIndex = i, cr_fileRangeIndex = length ps,
      cr_readCloser = Some \<lparr>rd_data = range_data contents r, rd_fin = EOF\<rparr>\<rparr>"
  have opn: "chunkReadCloser_open cm st w ?A = Inr (\<lparr>rd_data = range_data contents r, rd_fin = EOF\<rparr>, ?B)"
    using i r Cons.prems(1) get len by (simp add: chunkReadCloser_open_def Let_def range_ok_def)
  have "chunkReadCloser_open cm st w ?B = Inr (\<lparr>rd_data = range_data contents r, rd_fin = EOF\<rparr>, ?B)"
    by (simp add: chunkReadCloser_open_def)
  with opn have "chunkReadCloser_Read 32768 cm st w ?A = chunkReadCloser_Read 32768 cm st w ?B"
    by (simp add: chunkReadCloser_Read_def)
  then have "io_Copy cm st w ?A acc = io_Copy cm st w ?B acc"
    unfolding io_Copy.simps [of cm st w ?A acc] io_Copy.simps [of cm st w ?B acc] by simp
  also have "\<dots> = Some (acc @ concat (map (range_data contents) (r # rs)), None)"
    using Cons.IH [of "ps @ [r]" "acc @ range_data contents r"] Cons.prems by (simp add: io_Copy_open)
  finally show ?case .
qed

lemma io_Copy_chunk:
  assumes "i < length (cm_chunks cm)" and "\<forall>r \<in> set (FileRanges (cm_chunks cm ! i)). range_ok (cm_Files cm) r"
    and "holds w (cm_Files cm) contents"
  shows "io_Copy cm st w (GetChunkReader i) [] = Some (chunk_data contents (cm_chunks cm ! i), None)"
  using io_Copy_closed [of i cm "[]" "FileRanges (cm_chunks cm ! i)" w contents "[]"] assms
  by (simp add: GetChunkReader_def newChunkReadCloser_def chunk_data_def)

lemma ComputeChunkChecksum_cases:
  assumes "i < length (cm_chunks cm)" and "length (cm_chunkChecksums cm) = length (cm_chunks cm)"
    and "\<forall>r \<in> set (FileRanges (cm_chunks cm ! i)). range_ok (cm_Files cm) r"
    and "holds w (cm_Files cm) contents"
  shows "ComputeChunkChecksum hash st i w cm =
    (let c = (if cm_chunkChecksums cm ! i = 0 then hash (chunk_data contents (cm_chunks cm ! i)) else cm_chunkChecksums cm ! i)
     in Some ((c, None), cm\<lparr>cm_chunkChecksums := (cm_chunkChecksums cm)[i := c]\<rparr>))"
  using assms io_Copy_chunk [OF assms(1,3,4)] by (auto simp: ComputeChunkChecksum_def Let_def)

end

section \<open>Writing a chunk\<close>

definition files_left :: "(nat \<Rightarrow> nat) \<Rightarrow> FileEntry list \<Rightarrow> FileRange list \<Rightarrow> FileEntry list" where
  "files_left tot fs ps =
     map (\<lambda>j. (fs ! j)\<lparr>fe_remainingChunkCount := left_count tot ps j\<rparr>) [0..<length fs]"

lemma files_left_simps [simp]:
  "length (files_left tot fs ps) = length fs"
  "j < length fs \<Longrightarrow> files_left tot fs ps ! j = (fs ! j)\<lparr>fe_remainingChunkCount := left_count tot ps j\<rparr>"
  by (simp_all add: files_left_def)

lemma files_left_step:
  assumes "FileIndex r < length fs"
  shows "(files_left tot fs ps)[FileIndex r := snd (DecrementRemainingChunkCount (files_left tot fs ps ! FileIndex r))] =
    files_left tot fs (ps @ [r])"
  using assms left_count_step(1) [of tot ps r] left_count_step(2) [where tot = tot and ps = ps and r = r]
  by (intro nth_equalityI) (auto simp: nth_list_update DecrementRemainingChunkCount_def Let_def)

text \<open>What the call \<open>onFileComplete\<close> gets for file \<open>j\<close>.\<close>

definition completion :: "string \<Rightarrow> FileEntry list \<Rightarrow> nat \<Rightarrow> string \<times> int" where
  "completion base fs j = (Join base (fe_Name (fs ! j)), fe_Size (fs ! j))"

lemma length_range_data:
  assumes "range_ok fs r" and "fe_Size (fs ! FileIndex r) = int (length (src ! FileIndex r))"
  shows "length (range_data src r) = nat (EndOffset r - StartOffset r)"
proof -
  have "nat (EndOffset r - StartOffset r) \<le> length (src ! FileIndex r) - nat (StartOffset r)"
    using assms unfolding range_ok_def by linarith
  then show ?thesis by (simp add: range_data_def min_absorb1)
qed

context file_storage
begin

text \<open>
  The ranges \<open>ps\<close> of the files \<open>fs\<close> are written with the bytes of \<open>src\<close>: every covered position has
  its byte, and the lengths are those of the sources.
\<close>

definition copied :: "FileEntry list \<Rightarrow> byte list list \<Rightarrow> FileRange list \<Rightarrow> 'w \<Rightarrow> bool" where
  "copied fs src ps w \<longleftrightarrow>
     (\<forall>j < length fs. writable w (fe_Name (fs ! j)) \<and>
        (\<exists>xs. content w (fe_Name (fs ! j)) = Some xs \<and> length xs = length (src ! j) \<and>
           (\<forall>k < length xs. covered ps j k \<longrightarrow> xs ! k = src ! j ! k)))"

definition sources :: "FileEntry list \<Rightarrow> byte list list \<Rightarrow> bool" where
  "sources fs src \<longleftrightarrow> distinct (map fe_Name fs) \<and> map (\<lambda>bs. int (length bs)) src = map fe_Size fs"

lemma sourcesD:
  assumes "sources fs src"
  shows "length src = length fs" and "j < length fs \<Longrightarrow> fe_Size (fs ! j) = int (length (src ! j))"
    and "i < length fs \<Longrightarrow> j < length fs \<Longrightarrow> fe_Name (fs ! i) = fe_Name (fs ! j) \<longleftrightarrow> i = j"
proof -
  have m: "map (\<lambda>bs. int (length bs)) src = map fe_Size fs" and d: "distinct (map fe_Name fs)"
    using assms by (simp_all add: sources_def)
  show l: "length src = length fs" using m by (rule map_eq_imp_length_eq)
  show "fe_Size (fs ! j) = int (length (src ! j))" if "j < length fs"
    using arg_cong [OF m, of "\<lambda>xs. xs ! j"] that l by simp
  show "fe_Name (fs ! i) = fe_Name (fs ! j) \<longleftrightarrow> i = j" if "i < length fs" "j < length fs"
    using nth_eq_iff_index_eq [OF d, of i j] that by simp
qed

lemma copied_overwrite:
  assumes src: "sources fs src" and r: "range_ok fs r" and c: "copied fs src ps w"
    and xs: "content w (fe_Name (fs ! FileIndex r)) = Some xs"
    and w': "content w' = (content w)(fe_Name (fs ! FileIndex r) \<mapsto> overwrite (nat (StartOffset r)) (range_data src r) xs)"
      "writable w' = writable w"
  shows "copied fs src (ps @ [r]) w'"
  unfolding copied_def
proof (intro allI impI conjI)
  fix j assume j: "j < length fs"
  show "writable w' (fe_Name (fs ! j))" using c j w'(2) by (simp add: copied_def)
  let ?i = "FileIndex r" and ?o = "nat (StartOffset r)"
  have i: "?i < length fs" using r by (simp add: range_ok_def)
  obtain ys where ys: "content w (fe_Name (fs ! j)) = Some ys" "length ys = length (src ! j)"
    "\<forall>k < length ys. covered ps j k \<longrightarrow> ys ! k = src ! j ! k"
    using c j by (auto simp: copied_def)
  show "\<exists>zs. content w' (fe_Name (fs ! j)) = Some zs \<and> length zs = length (src ! j) \<and>
      (\<forall>k < length zs. covered (ps @ [r]) j k \<longrightarrow> zs ! k = src ! j ! k)"
  proof (cases "j = ?i")
    case False
    then show ?thesis using ys w'(1) sourcesD(3) [OF src j i] by simp
  next
    case True
    have size: "nat (EndOffset r) \<le> length (src ! j)" "?o < nat (EndOffset r)"
      using r sourcesD(2) [OF src j] True by (auto simp: range_ok_def)
    have len: "length (range_data src r) = nat (EndOffset r) - ?o"
      using length_range_data [OF r, of src] sourcesD(2) [OF src i] r by (simp add: range_ok_def nat_diff_distrib)
    have "ys = xs" using ys(1) xs True by simp
    then have fits: "?o + length (range_data src r) \<le> length xs" 
      using len size ys(2) unfolding \<open>ys = xs\<close> by linarith
    have "overwrite ?o (range_data src r) xs ! k = src ! j ! k"
      if k: "k < length xs" "covered (ps @ [r]) j k" for k
    proof (cases "?o \<le> k \<and> k < nat (EndOffset r)")
      case in_range: True
      then have "k - ?o < nat (EndOffset r - StartOffset r)" "?o + (k - ?o) = k" "k < length (src ! j)"
        using size r by (simp_all add: range_ok_def) linarith
      then have "range_data src r ! (k - ?o) = src ! j ! k"
        using True by (simp add: range_data_def)
      then show ?thesis using in_range len nth_overwrite_inside [OF fits k(1)] size by simp
    next
      case out_range: False
      then have "covered ps j k" using k(2) r by (auto simp: range_ok_def)
      then show ?thesis
        using out_range len nth_overwrite_inside [OF fits k(1)] size ys(3) k(1) \<open>ys = xs\<close> by auto
    qed
    then show ?thesis
      using w'(1) True fits ys(2) \<open>ys = xs\<close> by (intro exI [of _ "overwrite ?o (range_data src r) xs"]) simp
  qed
qed

lemma WriteChunk_range_copies:
  assumes src: "sources fs src" and r: "range_ok fs r" and c: "copied fs src ps (ws_world s)"
    and cm: "cm_Files (ws_cm s) = files_left tot fs ps"
    and rd: "rd_data (ws_reader s) = range_data src r @ rest"
  shows "\<exists>w'. WriteChunk_range st r s =
      (None, \<lparr>ws_cm = set_Files (files_left tot fs (ps @ [r])) (ws_cm s), ws_world = w',
         ws_reader = (ws_reader s)\<lparr>rd_data := rest\<rparr>, ws_hashed = ws_hashed s @ range_data src r,
         ws_length = i64 (ws_length s + range_len r),
         ws_complete = ws_complete s @
           (if left_count tot (ps @ [r]) (FileIndex r) = 0
            then [completion (st_GetBaseDirectory st) fs (FileIndex r)] else [])\<rparr>) \<and>
    copied fs src (ps @ [r]) w'"
proof -
  let ?i = "FileIndex r" and ?n = "EndOffset r - StartOffset r"
  have i: "?i < length fs" using r by (simp add: range_ok_def)
  obtain xs where xs: "content (ws_world s) (fe_Name (fs ! ?i)) = Some xs" "writable (ws_world s) (fe_Name (fs ! ?i))"
    using c i by (auto simp: copied_def)
  have len: "length (range_data src r) = nat ?n"
    using r sourcesD(2) [OF src i] by (rule length_range_data)
  have n: "i64 ?n = ?n" "0 \<le> ?n" "0 \<le> StartOffset r" using r by (simp_all add: range_ok_def)
  obtain w' where w: "st_Write st (fe_Name (fs ! ?i)) (StartOffset r) ?n (ws_reader s) (ws_world s) =
      ((?n, None), (ws_reader s)\<lparr>rd_data := rest\<rparr>, w')"
    "content w' = (content (ws_world s))(fe_Name (fs ! ?i) \<mapsto> overwrite (nat (StartOffset r)) (range_data src r) xs)"
    "writable w' = writable (ws_world s)"
    using write_enough [OF xs n(3,2), of "ws_reader s"] rd len by auto
  have "copied fs src (ps @ [r]) w'" using copied_overwrite [OF src r c xs(1) w(2,3)] .
  moreover obtain fl where
    fl: "DecrementRemainingChunkCount ((fs ! ?i)\<lparr>fe_remainingChunkCount := left_count tot ps ?i\<rparr>) =
      (left_count tot (ps @ [r]) ?i, fl)"
    using left_count_step(1) [of tot ps r] by (simp add: DecrementRemainingChunkCount_def Let_def)
  moreover have "(files_left tot fs ps)[?i := fl] = files_left tot fs (ps @ [r])"
    using files_left_step [OF i, of tot ps] fl i by simp
  ultimately show ?thesis
    using i w(1) n rd cm
    by (intro exI [of _ w'], cases s)
      (simp add: WriteChunk_range_def Let_def bytes_read_def completion_def range_len_def)
qed

lemma WriteChunk_loop_copies:
  assumes src: "sources fs src" and r: "\<forall>r \<in> set rs. range_ok fs r" and c: "copied fs src ps (ws_world s)"
    and cm: "cm_Files (ws_cm s) = files_left tot fs ps"
    and rd: "rd_data (ws_reader s) = concat (map (range_data src) rs) @ rest"
    and tot: "\<forall>j < length fs. length (index_ranges j (ps @ rs)) \<le> tot j \<and> tot j < 2 ^ 31"
    and size: "0 \<le> ws_length s" "ws_length s + sum_list (map range_len rs) < 2 ^ 63"
  shows "\<exists>w'. WriteChunk_loop st rs s =
      (None, \<lparr>ws_cm = set_Files (files_left tot fs (ps @ rs)) (ws_cm s), ws_world = w',
         ws_reader = (ws_reader s)\<lparr>rd_data := rest\<rparr>, ws_hashed = ws_hashed s @ concat (map (range_data src) rs),
         ws_length = ws_length s + sum_list (map range_len rs),
         ws_complete = ws_complete s @ map (completion (st_GetBaseDirectory st) fs) (completed tot ps rs)\<rparr>) \<and>
    copied fs src (ps @ rs) w'"
  using r c cm rd tot size
proof (induction rs arbitrary: ps s)
  case Nil
  then have "set_Files (files_left tot fs ps) (ws_cm s) = ws_cm s" by (metis set_Files_simps(4))
  then show ?case using Nil by (cases s) simp
next
  case (Cons r rs)
  let ?i = "FileIndex r"
  have r: "range_ok fs r" using Cons.prems(1) by simp
  have i: "?i < length fs" using r by (simp add: range_ok_def)
  have rest: "rd_data (ws_reader s) = range_data src r @ (concat (map (range_data src) rs) @ rest)"
    using Cons.prems(4) by simp
  obtain w1 where one: "WriteChunk_range st r s =
      (None, \<lparr>ws_cm = set_Files (files_left tot fs (ps @ [r])) (ws_cm s), ws_world = w1,
         ws_reader = (ws_reader s)\<lparr>rd_data := concat (map (range_data src) rs) @ rest\<rparr>, ws_hashed = ws_hashed s @ range_data src r,
         ws_length = i64 (ws_length s + range_len r),
         ws_complete = ws_complete s @ (if left_count tot (ps @ [r]) ?i = 0
            then [completion (st_GetBaseDirectory st) fs ?i] else [])\<rparr>)"
    "copied fs src (ps @ [r]) w1"
    using WriteChunk_range_copies [OF src r Cons.prems(2,3) rest] by blast
  have sum: "0 \<le> sum_list (map range_len rs)"
    using Cons.prems(1) by (intro sum_list_nonneg) (auto simp: range_len_def range_ok_def)
  have "0 < range_len r" using r by (simp add: range_len_def range_ok_def)
  then have l: "i64 (ws_length s + range_len r) = ws_length s + range_len r"
    using sum Cons.prems(6,7) by simp
  have cnt: "length (index_ranges ?i (ps @ [r])) \<le> tot ?i" "tot ?i < 2 ^ 31"
    using Cons.prems(5) i by fastforce+
  have z: "left_count tot (ps @ [r]) ?i = 0 \<longleftrightarrow> length (index_ranges ?i (ps @ [r])) = tot ?i"
    using cnt by (rule left_count_0)
  have tot': "\<forall>j < length fs. length (index_ranges j ((ps @ [r]) @ rs)) \<le> tot j \<and> tot j < 2 ^ 31"
    using Cons.prems(5) by simp
  let ?s = "snd (WriteChunk_range st r s)"
  have "\<exists>w'. WriteChunk_loop st rs ?s =
      (None, \<lparr>ws_cm = set_Files (files_left tot fs ((ps @ [r]) @ rs)) (ws_cm ?s), ws_world = w',
         ws_reader = (ws_reader ?s)\<lparr>rd_data := rest\<rparr>, ws_hashed = ws_hashed ?s @ concat (map (range_data src) rs),
         ws_length = ws_length ?s + sum_list (map range_len rs),
         ws_complete = ws_complete ?s @ map (completion (st_GetBaseDirectory st) fs) (completed tot (ps @ [r]) rs)\<rparr>) \<and>
    copied fs src ((ps @ [r]) @ rs) w'"
    using Cons.prems one l tot' \<open>0 < range_len r\<close> by (intro Cons.IH) simp_all
  then show ?case
    using one(1) l z by (cases "left_count tot (ps @ [r]) ?i = 0") (simp_all add: add.assoc)
qed

end

end
