(* ===== verification/Local_Storage_Props.thy ===== *)
theory Local_Storage_Props
  imports Local_Storage
begin

text \<open>
  What the operations of the local storage do to the files below the base directory: preparing,
  writing and reading a file, walking the tree with a visitor, and the choice of a storage by the
  factory. Paths are plain (no symbolic link on the way) unless said otherwise.
\<close>

section \<open>Preparing a file\<close>

lemma umask_owner:
  fixes u :: FileMode
  assumes "u AND 384 = 0"
  shows "(511 AND NOT u) AND 256 \<noteq> 0" and "(511 AND NOT u) AND 128 \<noteq> 0"
proof -
  have "\<not> bit (u AND 384) 8" "\<not> bit (u AND 384) 7" using assms by simp_all
  then have "\<not> bit u 8" "\<not> bit u 7" by (simp_all add: bit_simps)
  then have "bit ((511 AND NOT u) AND 256) 8" "bit ((511 AND NOT u) AND 128) 7"
    by (simp_all add: bit_simps)
  then show "(511 AND NOT u) AND 256 \<noteq> 0" "(511 AND NOT u) AND 128 \<noteq> 0" by auto
qed

text \<open>The place of a name below the base directory where a file is or can be made.\<close>

definition can_hold_file :: "path \<Rightarrow> world \<Rightarrow> string \<Rightarrow> bool" where
  "can_hold_file bs w name \<longleftrightarrow>
     (\<forall>c \<in> set (Split slash name). clean_name c) \<and> plain w (bs @ Split slash name) \<and>
     (case node_at w (bs @ Split slash name) of
        Some (NFile m xs) \<Rightarrow> True
      | None \<Rightarrow> may_change_dir w (bs @ Split slash name) \<and> umask w AND 384 = 0
      | _ \<Rightarrow> False)"

definition resize :: "nat \<Rightarrow> byte list \<Rightarrow> byte list" where
  "resize n xs = take n xs @ replicate (n - length xs) 0"

lemma length_resize [simp]: "length (resize n xs) = n"
  by (simp add: resize_def)

definition old_content :: "world \<Rightarrow> path \<Rightarrow> byte list" where
  "old_content w q = (case node_at w q of Some (NFile m xs) \<Rightarrow> xs | _ \<Rightarrow> [])"

lemma plain_new_file:
  assumes "plain w q" and "node_at w q = None"
  shows "plain (set_node q (NFile m xs) w) q"
proof (rule plain_set_node [OF assms(1)])
  fix j assume j: "j < length q" and eq: "q = take j q"
  from arg_cong [OF eq, of length] have "length q = min (length q) j" by (simp only: length_take)
  with j have False by simp
  then show "\<exists>ma. NFile m xs = NDir ma \<and> permits w ma 64" ..
qed

lemma PrepareEntry_file_effect:
  assumes hold: "can_hold_file bs w name" and n: "0 \<le> n"
  defines "q \<equiv> bs @ Split slash name"
  obtains m where "PrepareEntry_file (abs_path q) n w =
      (None, set_node q (NFile m (resize (nat n) (old_content w q))) w)"
    "permits w m 256" "permits w m 128"
proof (cases "node_at w q")
  case None
  let ?m = "511 AND NOT (umask w)"
  have p: "plain w q" and d: "may_change_dir w q" and u: "umask w AND 384 = 0"
    using hold None by (simp_all add: can_hold_file_def q_def)
  have "os_OpenFile (abs_path q) \<lparr>o_create = True, o_trunc = False, o_read = True, o_write = True\<rparr> 511 w =
      (Inr q, set_node q (NFile ?m []) w)"
    using p None d by (simp add: os_OpenFile_def resolve_path_plain is_link_def create_at_def)
  then have "PrepareEntry_file (abs_path q) n w = (None, set_node q (NFile ?m (resize (nat n) (old_content w q))) w)"
    using n None by (simp add: PrepareEntry_file_def os_Chmod_missing [OF p None] file_Ftruncate_def
        resize_def old_content_def)
  moreover have "permits w ?m 256" "permits w ?m 128" using umask_owner [OF u] by (simp_all add: permits_def)
  ultimately show ?thesis by (rule that)
next
  case (Some nd)
  obtain m xs where nd: "node_at w q = Some (NFile m xs)" and p: "plain w q"
    using hold Some by (auto simp: can_hold_file_def q_def split: node.splits)
  let ?w = "set_node q (NFile 384 xs) w"
  have ch: "os_Chmod (abs_path q) 384 w = (None, ?w)"
    using os_Chmod_plain [OF p nd] by (simp add: is_link_def)
  have "permits w 384 256" "permits w 384 128" by (simp_all add: permits_def)
  moreover have "os_OpenFile (abs_path q) \<lparr>o_create = True, o_trunc = False, o_read = True, o_write = True\<rparr> 511 ?w = (Inr q, ?w)"
    using os_OpenFile_plain_file [OF plain_set_file [OF p nd], of 384 xs 384 xs] calculation by simp
  then have "PrepareEntry_file (abs_path q) n w = (None, set_node q (NFile 384 (resize (nat n) (old_content w q))) w)"
    using n nd ch by (simp add: PrepareEntry_file_def file_Ftruncate_def resize_def old_content_def)
  ultimately show ?thesis using that by blast
qed


definition demo_world :: world where
  "demo_world = \<lparr>files = [([''d''], NDir 493), ([''d'', ''f''], NFile 256 [1, 2, 3, 4, 5])],
     cwd = [], umask = 18, superuser = False\<rparr>"

lemma demo_plain: "plain demo_world [''d'', ''f'']"
proof -
  have "\<exists>p. node_at demo_world (take j [''d'', ''f'']) = Some (NDir p) \<and> permits demo_world p 64"
    if "j < 2" for j
    using that by (cases j) (auto simp: demo_world_def node_at_def permits_def less_Suc_eq)
  then show ?thesis by (simp add: plain_def clean_name_def)
qed


section \<open>Writing and reading\<close>


definition demo_world_rw :: world where
  "demo_world_rw = set_node [''d'', ''f''] (NFile 384 [1, 2, 3, 4, 5]) demo_world"

lemma demo_rw_content:
  "ls_content [''d''] demo_world_rw ''f'' = Some [1, 2, 3, 4, 5]" "ls_writable [''d''] demo_world_rw ''f''"
proof -
  have "node_at demo_world [''d'', ''f''] = Some (NFile 256 [1, 2, 3, 4, 5])"
    by (simp add: demo_world_def node_at_def)
  then have "plain demo_world_rw [''d'', ''f'']"
    unfolding demo_world_rw_def by (rule plain_set_file [OF demo_plain])
  then show "ls_content [''d''] demo_world_rw ''f'' = Some [1, 2, 3, 4, 5]" "ls_writable [''d''] demo_world_rw ''f''"
    by (simp_all add: ls_content_def ls_writable_def clean_name_def demo_world_rw_def permits_def)
qed


section \<open>Names that leave the base directory\<close>

lemma clean_comps_prefix:
  "\<forall>c \<in> set cs. clean_name c \<Longrightarrow> clean_comps b acc (cs @ ds) = clean_comps b (rev cs @ acc) ds"
  by (induction cs arbitrary: acc) (auto simp: clean_name_def)

lemma Join_dotdot:
  assumes "\<forall>c \<in> set (bs @ [b]). clean_name c" and "\<forall>c \<in> set ns. clean_name c" and "ns \<noteq> []"
  shows "Join (abs_path (bs @ [b])) (''../'' @ rel_path ns) = abs_path (bs @ ns)"
proof -
  let ?p = "abs_path (bs @ [b]) @ slash # ''../'' @ rel_path ns"
  have "?p = slash # rel_path ((bs @ [b]) @ ''..'' # ns)"
    using join_with_append [of "bs @ [b]" "''..'' # ns" slash] join_with_append [of "[''..'']" ns slash] assms(3)
    by (simp add: abs_path_def rel_path_def)
  moreover have "Split slash (rel_path ((bs @ [b]) @ ''..'' # ns)) = (bs @ [b]) @ ''..'' # ns"
    unfolding rel_path_def using assms by (intro Split_join) (auto simp: clean_name_def)
  ultimately have "Split slash ?p = [] # (bs @ [b]) @ ''..'' # ns" by simp
  then have "clean_comps True [] (Split slash ?p) = bs @ ns"
    using clean_comps_prefix [OF assms(1), of True "[]" "''..'' # ns"]
      clean_comps_clean [OF assms(2), of True "rev bs"] assms(1) by (simp add: clean_name_def)
  moreover have "rooted_path ?p" by (simp add: rooted_path_def abs_path_def HasPrefix_def)
  ultimately show ?thesis
    by (simp add: Join_def Clean_def) (simp add: abs_path_def)
qed

text \<open>Claim C7.
  The storage does not confine names: a name of the form \<open>../...\<close>, which a peer can put into the
  manifest it serves, makes \<open>Write\<close> overwrite a file next to the base directory, with the data the
  peer sends, without any error.\<close>

theorem Write_outside_base:
  assumes "\<forall>c \<in> set (bs @ [b]). clean_name c" and "\<forall>c \<in> set ns. clean_name c" and "ns \<noteq> []"
    and "plain w (bs @ ns)" and "node_at w (bs @ ns) = Some (NFile m xs)" and "permits w m 128"
    and "0 \<le> off" and "n = int (length (rd_data rd))"
  shows "LocalStorage_Write \<lparr>BaseDir = abs_path (bs @ [b])\<rparr> (''../'' @ rel_path ns) off n rd w =
    ((n, None), rd\<lparr>rd_data := []\<rparr>, set_node (bs @ ns) (NFile m (overwrite (nat off) (rd_data rd) xs)) w)"
  using assms Join_dotdot [OF assms(1-3)]
  by (simp add: LocalStorage_Write_def os_OpenFile_plain_file CopyN_def file_pwrite_def)

theorem Write_outside_base_witness:
  "LocalStorage_Write \<lparr>BaseDir = abs_path [''d'', ''dst'']\<rparr> (''../'' @ rel_path [''f'']) 0 2
      \<lparr>rd_data = [9, 9], rd_fin = EOF\<rparr> demo_world_rw =
    ((2, None), \<lparr>rd_data = [], rd_fin = EOF\<rparr>, set_node [''d'', ''f''] (NFile 384 [9, 9, 3, 4, 5]) demo_world_rw)"
proof -
  have "plain demo_world_rw ([''d''] @ [''f''])"
    unfolding demo_world_rw_def
    using plain_set_file [OF demo_plain, of "[''d'', ''f'']" 256 "[1, 2, 3, 4, 5]"]
    by (simp add: demo_world_def node_at_def)
  moreover have "node_at demo_world_rw ([''d''] @ [''f'']) = Some (NFile 384 [1, 2, 3, 4, 5])"
    by (simp add: demo_world_rw_def)
  moreover have "permits demo_world_rw 384 128" by (simp add: permits_def)
  ultimately show ?thesis
    using Write_outside_base [of "[''d'']" "''dst''" "[''f'']" demo_world_rw 384 "[1, 2, 3, 4, 5]" 0 2 "\<lparr>rd_data = [9, 9], rd_fin = EOF\<rparr>"]
    by (simp add: clean_name_def overwrite_def)
qed

end
