(* ===== verification/Chunk_Transfer.thy ===== *)
theory Chunk_Transfer
  imports Chunk_Copy Local_Storage_Props
begin

text \<open>
  The transfer of whole chunks: a sequence of \<open>WriteChunk\<close> calls on one destination, the files it
  completes and the contents it leaves, on the local storage; checksums of chunks; and the counters
  after a failed write.
\<close>

section \<open>A sequence of writes\<close>

text \<open>
  The calls of \<open>WriteChunk\<close> that a downloader makes, one after the other: chunk index, expected
  checksum and the reader that delivers the chunk. The value is the results, the calls of
  \<open>onFileComplete\<close>, the chunk manager and the storage.
\<close>

type_synonym delivery = "nat \<times> uint64 \<times> Reader"

fun WriteChunks ::
  "(byte list \<Rightarrow> uint64) \<Rightarrow> 'w Storage \<Rightarrow> delivery list \<Rightarrow> ChunkManager \<Rightarrow> 'w \<Rightarrow>
     (int \<times> go_error option) list \<times> (string \<times> int) list \<times> ChunkManager \<times> 'w" where
  "WriteChunks hash st [] cm w = ([], [], cm, w)"
| "WriteChunks hash st ((i, ck, rd) # ds) cm w =
     (let (res, s) = WriteChunk hash st i ck rd cm w;
          (results, complete, cm', w') = WriteChunks hash st ds (ws_cm s) (ws_world s)
      in (res # results, ws_complete s @ complete, cm', w'))"

text \<open>A delivery that brings the data of its chunk, with no expected checksum or the right one.\<close>

definition delivers :: "(byte list \<Rightarrow> uint64) \<Rightarrow> byte list list \<Rightarrow> Chunk list \<Rightarrow> delivery \<Rightarrow> bool" where
  "delivers hash src cs d =
     (case d of (i, ck, rd) \<Rightarrow> i < length cs \<and>
        (let bs = chunk_data src (cs ! i) in
           take (length bs) (rd_data rd) = bs \<and> (ck = 0 \<or> ck = hash bs)))"

text \<open>All chunks that hold a range of file \<open>j\<close> are among the indices.\<close>

definition all_chunks_in :: "Chunk list \<Rightarrow> nat list \<Rightarrow> nat \<Rightarrow> bool" where
  "all_chunks_in cs is j \<longleftrightarrow> (\<forall>i < length cs. j \<in> FileIndex ` set (FileRanges (cs ! i)) \<longrightarrow> i \<in> set is)"

definition range_count :: "Chunk list \<Rightarrow> nat \<Rightarrow> nat" where
  "range_count cs j = length (index_ranges j (flat_ranges cs))"

section \<open>Counting over chunks\<close>

lemma flat_ranges_map: "flat_ranges (map ((!) cs) (i # is)) = FileRanges (cs ! i) @ flat_ranges (map ((!) cs) is)"
  by simp

lemma count_ranges_sum:
  "distinct is \<Longrightarrow> length (index_ranges j (flat_ranges (map ((!) cs) is))) =
     (\<Sum>i \<in> set is. length (index_ranges j (FileRanges (cs ! i))))"
  by (induction "is") simp_all

lemma range_count_sum: "range_count cs j = (\<Sum>i < length cs. length (index_ranges j (FileRanges (cs ! i))))"
proof -
  have "map ((!) cs) [0..<length cs] = cs" by (rule map_nth)
  then show ?thesis
    using count_ranges_sum [of "[0..<length cs]" j cs] by (simp add: range_count_def atLeast0LessThan)
qed

lemma count_ranges_le:
  assumes "distinct is" and "set is \<subseteq> {..<length cs}"
  shows "length (index_ranges j (flat_ranges (map ((!) cs) is))) \<le> range_count cs j"
  unfolding count_ranges_sum [OF assms(1)] range_count_sum
  using assms(2) by (intro sum_mono2) auto

lemma count_ranges_full:
  assumes "distinct is" and "set is \<subseteq> {..<length cs}"
  shows "range_count cs j \<le> length (index_ranges j (flat_ranges (map ((!) cs) is))) \<longleftrightarrow> all_chunks_in cs is j"
proof -
  let ?g = "\<lambda>i. length (index_ranges j (FileRanges (cs ! i)))"
  have pos: "?g i = 0 \<longleftrightarrow> j \<notin> FileIndex ` set (FileRanges (cs ! i))" for i
    by (auto simp: index_ranges_def filter_empty_conv)
  have split: "(\<Sum>i < length cs. ?g i) = (\<Sum>i \<in> set is. ?g i) + (\<Sum>i \<in> {..<length cs} - set is. ?g i)"
    using sum.subset_diff [OF assms(2), of ?g] by simp
  have "range_count cs j \<le> length (index_ranges j (flat_ranges (map ((!) cs) is))) \<longleftrightarrow>
      (\<Sum>i \<in> {..<length cs} - set is. ?g i) = 0"
    unfolding count_ranges_sum [OF assms(1)] range_count_sum split by simp
  also have "\<dots> \<longleftrightarrow> all_chunks_in cs is j"
    using pos by (auto simp: all_chunks_in_def)
  finally show ?thesis .
qed

lemma distinct_count: "(\<And>x. count_list xs x \<le> 1) \<Longrightarrow> distinct xs"
proof (induction xs)
  case (Cons y ys)
  have "count_list ys x \<le> 1" for x using Cons.prems [of x] by (auto split: if_splits)
  moreover have "y \<notin> set ys" using Cons.prems [of y] by (simp add: count_list_0_iff)
  ultimately show ?case using Cons.IH by simp
qed simp

lemma chunk_bytes_flat: "chunk_bytes c = sum_list (map range_len (FileRanges c))"
  by (simp add: chunk_bytes_def)

section \<open>The writes, over any file storage\<close>

text \<open>What the chunk list of a transfer is, for its files.\<close>

definition chunks_fit :: "FileEntry list \<Rightarrow> Chunk list \<Rightarrow> bool" where
  "chunks_fit fs cs \<longleftrightarrow> (\<forall>c \<in> set cs. (\<forall>r \<in> set (FileRanges c). range_ok fs r) \<and> chunk_bytes c < 2 ^ 63) \<and>
     (\<forall>j < length fs. range_count cs j < 2 ^ 31)"

context file_storage
begin

lemma WriteChunk_copies:
  assumes src: "sources fs src" and fit: "chunks_fit fs cs" and cs: "cm_chunks cm = cs" and i: "i < length cs"
    and cm: "cm_Files cm = files_left (range_count cs) fs ps" and c: "copied fs src ps w"
    and d: "delivers hash src cs (i, ck, rd)"
    and cnt: "\<forall>j < length fs. length (index_ranges j (ps @ FileRanges (cs ! i))) \<le> range_count cs j"
  shows "\<exists>s. WriteChunk hash st i ck rd cm w = ((chunk_bytes (cs ! i), None), s) \<and>
    ws_cm s = set_Files (files_left (range_count cs) fs (ps @ FileRanges (cs ! i))) cm \<and>
    copied fs src (ps @ FileRanges (cs ! i)) (ws_world s) \<and>
    ws_complete s = map (completion (st_GetBaseDirectory st) fs) (completed (range_count cs) ps (FileRanges (cs ! i)))"
proof -
  let ?rs = "FileRanges (cs ! i)"
  let ?s0 = "\<lparr>ws_cm = cm, ws_world = w, ws_reader = rd, ws_hashed = [], ws_length = 0, ws_complete = []\<rparr>"
  have ci: "cs ! i \<in> set cs" using i by simp
  have data: "rd_data rd = concat (map (range_data src) ?rs) @ drop (length (chunk_data src (cs ! i))) (rd_data rd)"
    using d append_take_drop_id [of "length (chunk_data src (cs ! i))" "rd_data rd"]
    by (simp add: delivers_def Let_def chunk_data_def)
  have ck: "ck = 0 \<or> hash (concat (map (range_data src) ?rs)) = ck"
    using d by (auto simp: delivers_def Let_def chunk_data_def)
  have ok: "\<forall>r \<in> set ?rs. range_ok fs r" "chunk_bytes (cs ! i) < 2 ^ 63" "\<forall>j < length fs. range_count cs j < 2 ^ 31"
    using fit ci by (auto simp: chunks_fit_def)
  obtain w' where loop: "WriteChunk_loop st ?rs ?s0 =
      (None, \<lparr>ws_cm = set_Files (files_left (range_count cs) fs (ps @ ?rs)) cm, ws_world = w',
         ws_reader = rd\<lparr>rd_data := drop (length (chunk_data src (cs ! i))) (rd_data rd)\<rparr>,
         ws_hashed = concat (map (range_data src) ?rs), ws_length = chunk_bytes (cs ! i),
         ws_complete = map (completion (st_GetBaseDirectory st) fs) (completed (range_count cs) ps ?rs)\<rparr>)"
    "copied fs src (ps @ ?rs) w'"
    using WriteChunk_loop_copies [OF src ok(1), of ps ?s0 "range_count cs" "drop (length (chunk_data src (cs ! i))) (rd_data rd)"]
      c cm data cnt ok(2,3) by (auto simp: chunk_bytes_def)
  then show ?thesis using i cs ck by (auto simp: WriteChunk_def Let_def)
qed

lemma WriteChunks_copies:
  assumes src: "sources fs src" and fit: "chunks_fit fs cs"
    and cs: "cm_chunks cm = cs" and cm: "cm_Files cm = files_left (range_count cs) fs (flat_ranges (map ((!) cs) ps))"
    and c: "copied fs src (flat_ranges (map ((!) cs) ps)) w" and d: "\<forall>d \<in> set ds. delivers hash src cs d"
    and dist: "distinct (ps @ map fst ds)" and range: "set ps \<subseteq> {..<length cs}"
  shows "\<exists>cm' w'. WriteChunks hash st ds cm w =
      (map (\<lambda>d. (chunk_bytes (cs ! fst d), None)) ds,
       map (completion (st_GetBaseDirectory st) fs)
         (completed (range_count cs) (flat_ranges (map ((!) cs) ps)) (flat_ranges (map ((!) cs) (map fst ds)))), cm', w') \<and>
    cm' = set_Files (files_left (range_count cs) fs (flat_ranges (map ((!) cs) (ps @ map fst ds)))) cm \<and>
    copied fs src (flat_ranges (map ((!) cs) (ps @ map fst ds))) w'"
  using cs cm c d dist range
proof (induction ds arbitrary: ps cm w)
  case Nil
  then show ?case by (metis WriteChunks.simps(1) append_Nil2 completed.simps(1) flat_ranges_simps(1) list.map(1) set_Files_simps(4))
next
  case (Cons d ds)
  obtain i ck rd where dd: "d = (i, ck, rd)" by (cases d)
  let ?ps = "flat_ranges (map ((!) cs) ps)"
  have i: "i < length cs" and del: "delivers hash src cs (i, ck, rd)"
    using Cons.prems(4) dd by (auto simp: delivers_def)
  have sub: "set (ps @ [i]) \<subseteq> {..<length cs}" "distinct (ps @ [i])" using Cons.prems(5,6) dd i by auto
  have flat: "flat_ranges (map ((!) cs) (ps @ [i])) = ?ps @ FileRanges (cs ! i)" by simp
  have cnt: "\<forall>j < length fs. length (index_ranges j (?ps @ FileRanges (cs ! i))) \<le> range_count cs j"
    using count_ranges_le [OF sub(2,1)] flat by simp
  obtain s where one: "WriteChunk hash st i ck rd cm w = ((chunk_bytes (cs ! i), None), s)"
    "ws_cm s = set_Files (files_left (range_count cs) fs (?ps @ FileRanges (cs ! i))) cm"
    "copied fs src (?ps @ FileRanges (cs ! i)) (ws_world s)"
    "ws_complete s = map (completion (st_GetBaseDirectory st) fs) (completed (range_count cs) ?ps (FileRanges (cs ! i)))"
    using WriteChunk_copies [OF src fit Cons.prems(1) i Cons.prems(2,3) del cnt] by blast
  have "\<exists>cm' w'. WriteChunks hash st ds (ws_cm s) (ws_world s) =
      (map (\<lambda>d. (chunk_bytes (cs ! fst d), None)) ds,
       map (completion (st_GetBaseDirectory st) fs)
         (completed (range_count cs) (flat_ranges (map ((!) cs) (ps @ [i]))) (flat_ranges (map ((!) cs) (map fst ds)))), cm', w') \<and>
    cm' = set_Files (files_left (range_count cs) fs (flat_ranges (map ((!) cs) ((ps @ [i]) @ map fst ds)))) (ws_cm s) \<and>
    copied fs src (flat_ranges (map ((!) cs) ((ps @ [i]) @ map fst ds))) w'"
    using one Cons.prems dd sub by (intro Cons.IH) auto
  then show ?case
    using one dd flat by (auto simp: completed_append)
qed

lemma copied_complete:
  assumes "sources fs src" and "copied fs src rs w" and "j < length fs"
    and "\<forall>k < length (src ! j). covered rs j k"
  shows "content w (fe_Name (fs ! j)) = Some (src ! j)"
proof -
  obtain xs where xs: "content w (fe_Name (fs ! j)) = Some xs" "length xs = length (src ! j)"
    "\<forall>k < length xs. covered rs j k \<longrightarrow> xs ! k = src ! j ! k"
    using assms(2,3) by (auto simp: copied_def)
  have "xs = src ! j" using xs(2,3) assms(4) by (intro nth_equalityI) auto
  with xs(1) show ?thesis by simp
qed

end

section \<open>A manager whose chunks were built from its files\<close>

definition built_manager :: "int \<Rightarrow> int \<Rightarrow> ChunkManager \<Rightarrow> bool" where
  "built_manager chunkSize maxFiles cm \<longleftrightarrow>
     (let fs = map FileEntry_Copy (cm_Files cm) in
        input_ok chunkSize fs \<and> chunkSize < 2 ^ 63 \<and> distinct (map fe_Name fs) \<and>
        BuildChunks fs chunkSize maxFiles = Some (cm_Files cm, cm_chunks cm) \<and>
        (\<forall>j < length fs. range_count (cm_chunks cm) j < 2 ^ 31))"

lemma left_count_Nil: "tot j < 2 ^ 31 \<Longrightarrow> left_count tot [] j = int (tot j)"
  by (simp add: left_count_def)

lemma built_managerD:
  assumes "built_manager C m cm"
  shows "chunks_fit (cm_Files cm) (cm_chunks cm)"
    and "cm_Files cm = files_left (range_count (cm_chunks cm)) (cm_Files cm) []"
    and "j < length (cm_Files cm) \<Longrightarrow> contiguous 0 (index_ranges j (flat_ranges (cm_chunks cm))) (fe_Size (cm_Files cm ! j))"
    and "c \<in> set (cm_chunks cm) \<Longrightarrow> Chunk_Size c = chunk_bytes c"
    and "distinct (map fe_Name (cm_Files cm))"
proof -
  let ?g = "map FileEntry_Copy (cm_Files cm)" and ?cs = "cm_chunks cm" and ?fs = "cm_Files cm"
  have inp: "input_ok C ?g" "C < 2 ^ 63" "BuildChunks ?g C m = Some (?fs, ?cs)"
    and tot: "\<forall>j < length ?fs. range_count ?cs j < 2 ^ 31" and dist: "distinct (map fe_Name ?g)"
    using assms by (simp_all add: built_manager_def Let_def)
  note ok = BuildChunks_bounds [OF inp(1,3)]
  let ?s = "sort_key fe_Name ?g"
  have at: "?fs ! j = (?s ! j)\<lparr>fe_remainingChunkCount := i32 (int (range_count ?cs j))\<rparr>"
    and sz: "fe_Size (?s ! j) = fe_Size (?fs ! j)" "fe_Size (?fs ! j) < 2 ^ 63"
    if j: "j < length ?fs" for j
  proof -
    have "?s ! j \<in> set ?g" using j by (metis length_map length_sort nth_mem set_sort)
    then have z: "fe_remainingChunkCount (?s ! j) = 0" "fe_Size (?s ! j) + C < 2 ^ 63" "0 < C"
      using inp(1) by (auto simp: input_ok_def)
    then show a: "?fs ! j = (?s ! j)\<lparr>fe_remainingChunkCount := i32 (int (range_count ?cs j))\<rparr>"
      using ok(2) j by (simp add: cut_into_def range_count_def)
    then show "fe_Size (?s ! j) = fe_Size (?fs ! j)" by simp
    with z show "fe_Size (?fs ! j) < 2 ^ 63" by simp
  qed
  have rng: "range_ok ?fs r" if "c \<in> set ?cs" "r \<in> set (FileRanges c)" for c r
    using flat_ranges_bounds [OF ok(2) that] sz by (auto simp: range_ok_def)
  have "chunk_bytes c < 2 ^ 63" if "c \<in> set ?cs" for c
    using ok(1) that inp(2) by (auto simp: chunks_ok_def chunk_limits_def)
  with rng tot show "chunks_fit ?fs ?cs" by (auto simp: chunks_fit_def)
  show "?fs = files_left (range_count ?cs) ?fs []"
    using at tot by (intro nth_equalityI) (simp_all add: left_count_Nil)
  show "contiguous 0 (index_ranges j (flat_ranges ?cs)) (fe_Size (?fs ! j))" if "j < length ?fs"
    using ok(2) that sz(1) [OF that] by (simp add: cut_into_def)
  show "Chunk_Size c = chunk_bytes c" if "c \<in> set ?cs"
    using Chunk_Size_chunk_bytes [OF inp(1,2,3) that] .
  show "distinct (map fe_Name ?fs)"
    using dist by (simp add: comp_def)
qed

text \<open>The files of the manager are in the destination, with their sizes.\<close>

definition prepared :: "path \<Rightarrow> world \<Rightarrow> FileEntry list \<Rightarrow> bool" where
  "prepared bs w fs \<longleftrightarrow>
     (\<forall>f \<in> set fs. ls_writable bs w (fe_Name f) \<and>
        (case ls_content bs w (fe_Name f) of Some xs \<Rightarrow> int (length xs) = fe_Size f | None \<Rightarrow> False))"

lemma prepared_copied:
  assumes "prepared bs w fs" and "local.sources fs src"
  shows "local.copied bs fs src [] w"
  unfolding local.copied_def
proof (intro allI impI conjI)
  fix j assume j: "j < length fs"
  then have "fs ! j \<in> set fs" by simp
  with assms(1) have "ls_writable bs w (fe_Name (fs ! j)) \<and>
      (case ls_content bs w (fe_Name (fs ! j)) of Some xs \<Rightarrow> int (length xs) = fe_Size (fs ! j) | None \<Rightarrow> False)"
    unfolding prepared_def by blast
  then show "ls_writable bs w (fe_Name (fs ! j))"
    "\<exists>xs. ls_content bs w (fe_Name (fs ! j)) = Some xs \<and> length xs = length (src ! j) \<and>
      (\<forall>k < length xs. covered [] j k \<longrightarrow> xs ! k = src ! j ! k)"
    using local.sourcesD(2) [OF assms(2) j] by (auto split: option.splits)
qed

lemma all_chunks_covered:
  assumes "all_chunks_in cs is j" and "covered (flat_ranges cs) j k"
  shows "covered (flat_ranges (map ((!) cs) is)) j k"
proof -
  obtain r where r: "r \<in> set (flat_ranges cs)" "FileIndex r = j" "StartOffset r \<le> int k" "int k < EndOffset r"
    using assms(2) by (auto simp: covered_def)
  then obtain c where "c \<in> set cs" "r \<in> set (FileRanges c)" by (auto simp: flat_ranges_def)
  then obtain i where i: "i < length cs" "r \<in> set (FileRanges (cs ! i))" by (metis in_set_conv_nth)
  then have "i \<in> set is" using assms(1) r(2) by (auto simp: all_chunks_in_def)
  then have "r \<in> set (flat_ranges (map ((!) cs) is))" using i by (auto simp: flat_ranges_def)
  with r show ?thesis by (auto simp: covered_def)
qed

text \<open>The main lemma: deliveries of distinct chunks, in any order.\<close>

lemma WriteChunks_built:
  assumes cm: "built_manager C m cm" and src: "map (\<lambda>bs. int (length bs)) src = map fe_Size (cm_Files cm)"
    and prep: "prepared bs w (cm_Files cm)"
    and dist: "distinct (map fst ds)" and d: "\<forall>d \<in> set ds. delivers hash src (cm_chunks cm) d"
  shows "\<exists>js cm' w'. WriteChunks hash (local_storage \<lparr>BaseDir = abs_path bs\<rparr>) ds cm w =
      (map (\<lambda>d. (Chunk_Size (cm_chunks cm ! fst d), None)) ds,
       map (\<lambda>j. (Join (abs_path bs) (fe_Name (cm_Files cm ! j)), fe_Size (cm_Files cm ! j))) js, cm', w') \<and>
    distinct js \<and>
    set js = {j. j < length (cm_Files cm) \<and> 0 < fe_Size (cm_Files cm ! j) \<and> all_chunks_in (cm_chunks cm) (map fst ds) j} \<and>
    (\<forall>j < length (cm_Files cm). all_chunks_in (cm_chunks cm) (map fst ds) j \<longrightarrow>
       ls_content bs w' (fe_Name (cm_Files cm ! j)) = Some (src ! j)) \<and>
    cm' = set_Files (files_left (range_count (cm_chunks cm)) (cm_Files cm) (flat_ranges (map ((!) (cm_chunks cm)) (map fst ds)))) cm"
proof -
  let ?fs = "cm_Files cm" and ?cs = "cm_chunks cm" and ?is = "map fst ds"
  let ?rs = "flat_ranges (map ((!) ?cs) ?is)" and ?st = "local_storage \<lparr>BaseDir = abs_path bs\<rparr>"
  let ?js = "completed (range_count ?cs) [] ?rs"
  note B = built_managerD [OF cm]
  have S: "local.sources ?fs src" using B(5) src by (simp add: local.sources_def)
  have range: "set ?is \<subseteq> {..<length ?cs}" using d by (auto simp: delivers_def)
  obtain cm' w' where run: "WriteChunks hash ?st ds cm w =
      (map (\<lambda>d. (chunk_bytes (?cs ! fst d), None)) ds, map (completion (st_GetBaseDirectory ?st) ?fs) ?js, cm', w')"
    "cm' = set_Files (files_left (range_count ?cs) ?fs ?rs) cm" "local.copied bs ?fs src ?rs w'"
    using local.WriteChunks_copies [OF S B(1) refl, of "[]" bs w ds hash] B(2) prepared_copied [OF prep S] d dist by auto
  have cnt: "count_list ?js j = (if 0 < range_count ?cs j \<and> all_chunks_in ?cs ?is j then 1 else 0)" for j
    using count_completed [of "range_count ?cs" "[]" ?rs j] count_ranges_full [OF dist range, of j] by simp
  have "distinct ?js"
  proof (rule distinct_count)
    show "count_list ?js j \<le> 1" for j unfolding cnt by simp
  qed
  moreover have "set ?js = {j. j < length ?fs \<and> 0 < fe_Size (?fs ! j) \<and> all_chunks_in ?cs ?is j}"
  proof -
    have "j \<in> set ?js \<longleftrightarrow> 0 < range_count ?cs j \<and> all_chunks_in ?cs ?is j" for j
      using cnt [of j] by (metis count_list_0_iff zero_neq_one)
    moreover have "0 < range_count ?cs j \<longleftrightarrow> j < length ?fs \<and> 0 < fe_Size (?fs ! j)" for j
    proof
      assume t: "0 < range_count ?cs j"
      then obtain r where r: "r \<in> set (flat_ranges ?cs)" "FileIndex r = j"
        by (auto simp: range_count_def index_ranges_def filter_empty_conv)
      then have "range_ok ?fs r" using B(1) by (auto simp: chunks_fit_def flat_ranges_def)
      then show "j < length ?fs \<and> 0 < fe_Size (?fs ! j)" using r(2) by (auto simp: range_ok_def)
    next
      assume j: "j < length ?fs \<and> 0 < fe_Size (?fs ! j)"
      then have "index_ranges j (flat_ranges ?cs) \<noteq> []" using B(3) [of j] by auto
      then show "0 < range_count ?cs j" by (simp add: range_count_def)
    qed
    ultimately show ?thesis by blast
  qed
  moreover have "ls_content bs w' (fe_Name (?fs ! j)) = Some (src ! j)"
    if j: "j < length ?fs" "all_chunks_in ?cs ?is j" for j
  proof (rule local.copied_complete [OF S run(3) j(1)], intro allI impI)
    fix k assume "k < length (src ! j)"
    then show "covered ?rs j k"
      using contiguous_covered [of j "flat_ranges ?cs" "length (src ! j)" k] B(3) [OF j(1)]
        local.sourcesD(2) [OF S j(1)] all_chunks_covered [OF j(2)] by simp
  qed
  moreover have "map (\<lambda>d. (chunk_bytes (?cs ! fst d), None)) ds = map (\<lambda>d. (Chunk_Size (?cs ! fst d), None)) ds"
    using d B(4) by (auto simp: delivers_def)
  moreover have "completion (st_GetBaseDirectory ?st) ?fs =
      (\<lambda>j. (Join (abs_path bs) (fe_Name (?fs ! j)), fe_Size (?fs ! j)))"
    by (simp add: completion_def fun_eq_iff local_storage_def)
  ultimately show ?thesis using run by (intro exI [of _ ?js] exI [of _ cm'] exI [of _ w']) simp
qed

end
