(* ===== verification/Chunk_Transfer_Props.thy ===== *)
theory Chunk_Transfer_Props
  imports Chunk_Transfer
begin

text \<open>
  The properties of chunk transfers: any order of deliveries copies the files and reports each
  completion once; a whole copy from one local storage to another; the checksum cache; and what a
  failed write leaves behind.
\<close>

section \<open>A manager for the witnesses\<close>

definition demo_file :: FileEntry where
  "demo_file = \<lparr>fe_Name = ''f'', fe_Size = 5, fe_Perm = 420, fe_remainingChunkCount = 2\<rparr>"

definition demo_manager :: ChunkManager where
  "demo_manager = \<lparr>cm_manifest = \<lparr>mf_MajorVersion = ''1'', mf_MinorVersion = ''0'', mf_ChunkSize = 3,
       mf_ChunkChecksum = 0, mf_TransferChunkCount = 2, mf_Dirs = [], mf_Symlinks = [], mf_EmptyFiles = [],
       mf_Files = [demo_file]\<rparr>, cm_manifestJson = [],
     cm_chunks = [Chunk0\<lparr>FileRanges := [\<lparr>FileIndex = 0, StartOffset = 0, EndOffset = 3\<rparr>]\<rparr>,
                  Chunk0\<lparr>FileRanges := [\<lparr>FileIndex = 0, StartOffset = 3, EndOffset = 5\<rparr>]\<rparr>],
     cm_chunkChecksums = [0, 0]\<rparr>"

lemma demo_sizes [simp]:
  "Chunk_Size (cm_chunks demo_manager ! 0) = 3" "Chunk_Size (cm_chunks demo_manager ! Suc 0) = 2"
  by (simp_all add: demo_manager_def Chunk_Size_def)

lemma demo_built: "built_manager 3 0 demo_manager"
  by (simp add: built_manager_def Let_def demo_manager_def demo_file_def FileEntry_Copy_def input_ok_def
      range_count_def BuildChunks_def BuildChunks_file.simps addToChunk_def newChunk_def Chunk_copy_def Chunk0_def)

lemma demo_prepared: "prepared [''d''] demo_world_rw (cm_Files demo_manager)"
  by (simp add: prepared_def demo_manager_def demo_file_def demo_rw_content)

section \<open>Deliveries in any order\<close>

text \<open>Claim C9.
  Chunks may arrive in any order: when some chunks of a transfer, each once, are written with the
  data they have in the sources, every write returns the size of its chunk and no error; a file of
  which all chunks have been written has the content of its source; and \<open>onFileComplete\<close> has been
  called exactly once for each non-empty file of which all chunks have been written, and for no
  other file.\<close>

theorem WriteChunks_any_order:
  assumes "built_manager chunkSize maxFiles cm"
    and "map (\<lambda>bs. int (length bs)) src = map fe_Size (cm_Files cm)"
    and "prepared bs w (cm_Files cm)"
    and "distinct (map fst ds)" and "\<forall>d \<in> set ds. delivers hash src (cm_chunks cm) d"
  shows "\<exists>js cm' w'. WriteChunks hash (local_storage \<lparr>BaseDir = abs_path bs\<rparr>) ds cm w =
      (map (\<lambda>d. (Chunk_Size (cm_chunks cm ! fst d), None)) ds,
       map (\<lambda>j. (Join (abs_path bs) (fe_Name (cm_Files cm ! j)), fe_Size (cm_Files cm ! j))) js, cm', w') \<and>
    distinct js \<and>
    set js = {j. j < length (cm_Files cm) \<and> 0 < fe_Size (cm_Files cm ! j) \<and> all_chunks_in (cm_chunks cm) (map fst ds) j} \<and>
    (\<forall>j < length (cm_Files cm). all_chunks_in (cm_chunks cm) (map fst ds) j \<longrightarrow>
       ls_content bs w' (fe_Name (cm_Files cm ! j)) = Some (src ! j))"
  using WriteChunks_built [OF assms] by blast

theorem WriteChunks_any_order_witness:
  "\<exists>cm' w'. WriteChunks (\<lambda>_. 7) (local_storage \<lparr>BaseDir = abs_path [''d'']\<rparr>)
       [(1, 7, \<lparr>rd_data = [60, 70], rd_fin = EOF\<rparr>), (0, 0, \<lparr>rd_data = [30, 40, 50, 1], rd_fin = EOF\<rparr>)]
       demo_manager demo_world_rw = ([(2, None), (3, None)], [(Join (abs_path [''d'']) ''f'', 5)], cm', w') \<and>
     ls_content [''d''] w' ''f'' = Some [30, 40, 50, 60, 70]"
proof -
  let ?ds = "[(1, 7, \<lparr>rd_data = [60, 70], rd_fin = EOF\<rparr>), (0, 0, \<lparr>rd_data = [30, 40, 50, 1], rd_fin = EOF\<rparr>)] :: delivery list"
  have d: "\<forall>d \<in> set ?ds. delivers (\<lambda>_. 7) [[30, 40, 50, 60, 70]] (cm_chunks demo_manager) d"
    by (simp add: delivers_def demo_manager_def chunk_data_def range_data_def window_def)
  have dist: "distinct (map fst ?ds)" by simp
  have src: "map (\<lambda>bs. int (length bs)) [[30, 40, 50, 60, 70 :: byte]] = map fe_Size (cm_Files demo_manager)"
    by (simp add: demo_manager_def demo_file_def)
  have all: "all_chunks_in (cm_chunks demo_manager) (map fst ?ds) 0"
    by (auto simp: all_chunks_in_def demo_manager_def less_Suc_eq)
  obtain js cm' w' where run: "WriteChunks (\<lambda>_. 7) (local_storage \<lparr>BaseDir = abs_path [''d'']\<rparr>) ?ds demo_manager demo_world_rw =
      (map (\<lambda>d. (Chunk_Size (cm_chunks demo_manager ! fst d), None)) ?ds,
       map (\<lambda>j. (Join (abs_path [''d'']) (fe_Name (cm_Files demo_manager ! j)), fe_Size (cm_Files demo_manager ! j))) js, cm', w')"
    "distinct js" "set js = {j. j < length (cm_Files demo_manager) \<and> 0 < fe_Size (cm_Files demo_manager ! j) \<and>
        all_chunks_in (cm_chunks demo_manager) (map fst ?ds) j}"
    "\<forall>j < length (cm_Files demo_manager). all_chunks_in (cm_chunks demo_manager) (map fst ?ds) j \<longrightarrow>
       ls_content [''d''] w' (fe_Name (cm_Files demo_manager ! j)) = Some ([[30, 40, 50, 60, 70]] ! j)"
    using WriteChunks_any_order [OF demo_built src demo_prepared dist d]
    by blast
  have sz: "length (cm_Files demo_manager) = 1" "fe_Size (cm_Files demo_manager ! 0) = 5"
    "fe_Name (cm_Files demo_manager ! 0) = ''f''"
    by (simp_all add: demo_manager_def demo_file_def)
  have "set js = {0}" unfolding run(3) using sz all by (auto simp del: list.map)
  then have "js = [0]" using run(2) by (cases js; cases "tl js") auto
  then show ?thesis
    using run(1,4) sz all by (simp del: WriteChunks.simps)
qed

section \<open>A copy from one storage to another\<close>

text \<open>
  What a peer serves for a chunk: the checksum it computes and the stream of the chunk reader,
  drained. \<open>None\<close> if either fails.
\<close>

definition serve_chunk ::
  "(byte list \<Rightarrow> uint64) \<Rightarrow> 'w Storage \<Rightarrow> 'w \<Rightarrow> ChunkManager \<Rightarrow> nat \<Rightarrow> delivery option" where
  "serve_chunk hash st w cm i =
     (case ComputeChunkChecksum hash st i w cm of
        Some ((ck, None), _) \<Rightarrow>
          (case io_Copy cm st w (GetChunkReader i) [] of
             Some (bs, None) \<Rightarrow> Some (i, ck, \<lparr>rd_data = bs, rd_fin = EOF\<rparr>)
           | _ \<Rightarrow> None)
      | _ \<Rightarrow> None)"

text \<open>The files are in the source storage, with their sizes.\<close>

definition readable :: "path \<Rightarrow> world \<Rightarrow> FileEntry list \<Rightarrow> bool" where
  "readable bs w fs \<longleftrightarrow>
     (\<forall>f \<in> set fs. case ls_content bs w (fe_Name f) of Some xs \<Rightarrow> int (length xs) = fe_Size f | None \<Rightarrow> False)"

lemma readable_holds:
  assumes "readable bs w fs"
  defines "src \<equiv> map (\<lambda>f. the (ls_content bs w (fe_Name f))) fs"
  shows "local.holds bs w fs src" and "map (\<lambda>bs. int (length bs)) src = map fe_Size fs"
proof -
  have at: "ls_content bs w (fe_Name f) = Some (the (ls_content bs w (fe_Name f))) \<and>
      int (length (the (ls_content bs w (fe_Name f)))) = fe_Size f" if "f \<in> set fs" for f
    using assms(1) that by (auto simp: readable_def split: option.splits)
  then show "local.holds bs w fs src" by (simp add: local.holds_def src_def)
  show "map (\<lambda>bs. int (length bs)) src = map fe_Size fs" using at by (simp add: src_def)
qed

lemma serve_chunk_data:
  assumes fit: "chunks_fit (cm_Files cm) (cm_chunks cm)" and i: "i < length (cm_chunks cm)"
    and ck: "cm_chunkChecksums cm = replicate (length (cm_chunks cm)) 0"
    and h: "local.holds bs w (cm_Files cm) src"
  shows "serve_chunk hash (local_storage \<lparr>BaseDir = abs_path bs\<rparr>) w cm i =
    Some (i, hash (chunk_data src (cm_chunks cm ! i)), \<lparr>rd_data = chunk_data src (cm_chunks cm ! i), rd_fin = EOF\<rparr>)"
proof -
  have rng: "\<forall>r \<in> set (FileRanges (cm_chunks cm ! i)). range_ok (cm_Files cm) r"
    using fit nth_mem [OF i] by (auto simp: chunks_fit_def)
  show ?thesis
    using local.ComputeChunkChecksum_cases [OF i _ rng h, of hash] local.io_Copy_chunk [OF i rng h] i ck
    by (simp add: serve_chunk_def Let_def)
qed

text \<open>A whole copy: when a peer serves every chunk from its source directory and the chunks are written,
  each once and in any order, to a prepared destination, every chunk is served and written without
  error and every file of the destination then has exactly the content it has at the source. The
  checksum travels with the data, so this holds whether or not the destination checks it.\<close>

theorem copy_end_to_end:
  assumes "built_manager chunkSize maxFiles cm"
    and "cm_chunkChecksums cm = replicate (length (cm_chunks cm)) 0"
    and "readable bs v (cm_Files cm)" and "prepared bs' w (cm_Files cm)"
    and "distinct order" and "set order = {..<length (cm_chunks cm)}"
  shows "\<exists>ds results complete cm' w'.
    map (serve_chunk hash (local_storage \<lparr>BaseDir = abs_path bs\<rparr>) v cm) order = map Some ds \<and>
    WriteChunks hash (local_storage \<lparr>BaseDir = abs_path bs'\<rparr>) ds cm w = (results, complete, cm', w') \<and>
    (\<forall>r \<in> set results. snd r = None) \<and>
    (\<forall>f \<in> set (cm_Files cm). ls_content bs' w' (fe_Name f) = ls_content bs v (fe_Name f))"
proof -
  let ?src = "map (\<lambda>f. the (ls_content bs v (fe_Name f))) (cm_Files cm)"
  let ?d = "\<lambda>i. (i, hash (chunk_data ?src (cm_chunks cm ! i)),
      \<lparr>rd_data = chunk_data ?src (cm_chunks cm ! i), rd_fin = EOF\<rparr>)"
  note H = readable_holds [OF assms(3)]
  have serve: "map (serve_chunk hash (local_storage \<lparr>BaseDir = abs_path bs\<rparr>) v cm) order = map Some (map ?d order)"
    using serve_chunk_data [OF built_managerD(1) [OF assms(1)] _ assms(2) H(1)] assms(6) by auto
  have deliv: "\<forall>d \<in> set (map ?d order). delivers hash ?src (cm_chunks cm) d"
    using assms(6) by (auto simp: delivers_def Let_def)
  have dist: "distinct (map fst (map ?d order))" using assms(5) by (simp add: comp_def)
  obtain js cm' w' where run: "WriteChunks hash (local_storage \<lparr>BaseDir = abs_path bs'\<rparr>) (map ?d order) cm w =
      (map (\<lambda>d. (Chunk_Size (cm_chunks cm ! fst d), None)) (map ?d order),
       map (\<lambda>j. (Join (abs_path bs') (fe_Name (cm_Files cm ! j)), fe_Size (cm_Files cm ! j))) js, cm', w')"
    "\<forall>j < length (cm_Files cm). all_chunks_in (cm_chunks cm) (map fst (map ?d order)) j \<longrightarrow>
       ls_content bs' w' (fe_Name (cm_Files cm ! j)) = Some (?src ! j)"
    using WriteChunks_built [OF assms(1) H(2) assms(4) dist deliv] by blast
  have "ls_content bs' w' (fe_Name f) = ls_content bs v (fe_Name f)" if f: "f \<in> set (cm_Files cm)" for f
  proof -
    obtain j where j: "j < length (cm_Files cm)" "f = cm_Files cm ! j" using f by (auto simp: in_set_conv_nth)
    have "all_chunks_in (cm_chunks cm) (map fst (map ?d order)) j"
      using assms(6) by (auto simp: all_chunks_in_def)
    then have "ls_content bs' w' (fe_Name f) = Some (?src ! j)" using run(2) j by blast
    moreover have "ls_content bs v (fe_Name f) = Some (?src ! j)"
      using H(1) j by (auto simp: local.holds_def)
    ultimately show ?thesis by simp
  qed
  then show ?thesis using serve run(1) by fastforce
qed

theorem copy_end_to_end_witness:
  "\<exists>ds results complete cm' w'.
    map (serve_chunk (\<lambda>_. 0) (local_storage \<lparr>BaseDir = abs_path [''d'']\<rparr>) demo_world_rw demo_manager) [1, 0] = map Some ds \<and>
    WriteChunks (\<lambda>_. 0) (local_storage \<lparr>BaseDir = abs_path [''d'']\<rparr>) ds demo_manager demo_world_rw = (results, complete, cm', w') \<and>
    ls_content [''d''] w' ''f'' = Some [1, 2, 3, 4, 5]"
proof -
  have "readable [''d''] demo_world_rw (cm_Files demo_manager)"
    using demo_prepared by (auto simp: readable_def prepared_def)
  moreover have "set [1, 0] = {..<length (cm_chunks demo_manager)}" by (auto simp: demo_manager_def)
  moreover have "cm_chunkChecksums demo_manager = replicate (length (cm_chunks demo_manager)) 0"
    by (simp add: demo_manager_def)
  moreover have "cm_Files demo_manager = [demo_file]" "fe_Name demo_file = ''f''"
    by (simp_all add: demo_manager_def demo_file_def)
  ultimately show ?thesis
    using copy_end_to_end [OF demo_built, of "[''d'']" demo_world_rw "[''d'']" demo_world_rw "[1, 0]" "\<lambda>_. 0"]
      demo_prepared demo_rw_content(1) by fastforce
qed

section \<open>Checksums of chunks\<close>

text \<open>\<open>ComputeChunkChecksum\<close> returns, for a chunk whose checksum is not cached, the hash of exactly the
  bytes the chunk's ranges have in the files, and caches it; and when that hash is not 0, every later
  call returns the same value, whatever the storage has become by then, without reading it. (A hash
  of 0 is taken for an empty cache and is computed again.)\<close>

theorem ComputeChunkChecksum_cached:
  assumes "built_manager chunkSize maxFiles cm" and "i < length (cm_chunks cm)"
    and "cm_chunkChecksums cm = replicate (length (cm_chunks cm)) 0"
    and "readable bs w (cm_Files cm)"
  shows "let c = hash (chunk_data (map (\<lambda>f. the (ls_content bs w (fe_Name f))) (cm_Files cm)) (cm_chunks cm ! i))
    in \<exists>cm'. ComputeChunkChecksum hash (local_storage \<lparr>BaseDir = abs_path bs\<rparr>) i w cm = Some ((c, None), cm') \<and>
         (c \<noteq> 0 \<longrightarrow> (\<forall>st w'. ComputeChunkChecksum hash (st :: 'w Storage) i w' cm' = Some ((c, None), cm')))"
proof -
  let ?c = "hash (chunk_data (map (\<lambda>f. the (ls_content bs w (fe_Name f))) (cm_Files cm)) (cm_chunks cm ! i))"
  let ?cm = "cm\<lparr>cm_chunkChecksums := (cm_chunkChecksums cm)[i := ?c]\<rparr>"
  have rng: "\<forall>r \<in> set (FileRanges (cm_chunks cm ! i)). range_ok (cm_Files cm) r"
    using built_managerD(1) [OF assms(1)] nth_mem [OF assms(2)] by (auto simp: chunks_fit_def)
  have "ComputeChunkChecksum hash (local_storage \<lparr>BaseDir = abs_path bs\<rparr>) i w cm = Some ((?c, None), ?cm)"
    using local.ComputeChunkChecksum_cases [OF assms(2) _ rng readable_holds(1) [OF assms(4)], of hash] assms(2,3)
    by (simp add: Let_def)
  moreover have "ComputeChunkChecksum hash (st :: 'w Storage) i w' ?cm = Some ((?c, None), ?cm)" if "?c \<noteq> 0" for st w'
    using that assms(2,3) by (simp add: ComputeChunkChecksum_def)
  ultimately show ?thesis unfolding Let_def by blast
qed

theorem ComputeChunkChecksum_cached_witness:
  "\<exists>cm'. ComputeChunkChecksum (\<lambda>bs. if bs = [4, 5] then 9 else 8) (local_storage \<lparr>BaseDir = abs_path [''d'']\<rparr>) 1
      demo_world_rw demo_manager = Some ((9, None), cm')"
proof -
  have r: "readable [''d''] demo_world_rw (cm_Files demo_manager)"
    using demo_prepared by (auto simp: readable_def prepared_def)
  have z: "cm_chunkChecksums demo_manager = replicate (length (cm_chunks demo_manager)) 0"
    "1 < length (cm_chunks demo_manager)"
    by (simp_all add: demo_manager_def)
  have "chunk_data (map (\<lambda>f. the (ls_content [''d''] demo_world_rw (fe_Name f))) (cm_Files demo_manager))
      (cm_chunks demo_manager ! 1) = [4, 5]"
    by (simp add: demo_manager_def demo_file_def demo_rw_content chunk_data_def range_data_def window_def)
  then show ?thesis
    using ComputeChunkChecksum_cached [OF demo_built z(2,1) r, of "\<lambda>bs. if bs = [4, 5] then 9 else 8"]
    by (auto simp: Let_def)
qed

section \<open>After a failed write\<close>

lemma one_byte_range:
  assumes "ls_content bs w (fe_Name f) = Some xs" and "ls_writable bs w (fe_Name f)"
    and "cm_Files cm = [f]" and "fe_remainingChunkCount f = i32 n"
    and "0 \<le> off" and "off < 2 ^ 62"
  shows "\<exists>w'. WriteChunk_range (local_storage \<lparr>BaseDir = abs_path bs\<rparr>)
      \<lparr>FileIndex = 0, StartOffset = off, EndOffset = off + 1\<rparr>
      \<lparr>ws_cm = cm, ws_world = w, ws_reader = \<lparr>rd_data = [b], rd_fin = EOF\<rparr>, ws_hashed = [], ws_length = 0, ws_complete = []\<rparr> =
    (None, \<lparr>ws_cm = set_Files [f\<lparr>fe_remainingChunkCount := i32 (n - 1)\<rparr>] cm, ws_world = w',
       ws_reader = \<lparr>rd_data = [], rd_fin = EOF\<rparr>, ws_hashed = [b], ws_length = 1,
       ws_complete = (if i32 (n - 1) = 0 then [(Join (abs_path bs) (fe_Name f), fe_Size f)] else [])\<rparr>) \<and>
    ls_content bs w' (fe_Name f) = Some (overwrite (nat off) [b] xs) \<and> ls_writable bs w' (fe_Name f)"
proof -
  obtain w' where w: "st_Write (local_storage \<lparr>BaseDir = abs_path bs\<rparr>) (fe_Name f) off 1 \<lparr>rd_data = [b], rd_fin = EOF\<rparr> w =
      ((1, None), \<lparr>rd_data = [], rd_fin = EOF\<rparr>, w')"
    "ls_content bs w' = (ls_content bs w)(fe_Name f \<mapsto> overwrite (nat off) [b] xs)" "ls_writable bs w' = ls_writable bs w"
    using local.write_enough [OF assms(1,2,5), of 1 "\<lparr>rd_data = [b], rd_fin = EOF\<rparr>"] by auto
  have "i32 (i32 n - 1) = i32 (n - 1)" using i32_add_left [of n "- 1"] by simp
  moreover have "st_GetBaseDirectory (local_storage \<lparr>BaseDir = abs_path bs\<rparr>) = abs_path bs"
    by (simp add: local_storage_def)
  ultimately show ?thesis
    using w assms by (intro exI [of _ w'])
      (simp add: WriteChunk_range_def bytes_read_def DecrementRemainingChunkCount_def Let_def)
qed

text \<open>Claim C10.
  A retry counts a range twice. \<open>WriteChunk\<close> decrements the counter of a file before it compares
  the checksum, and the failed write does not give the count back. So when the first chunk of a file
  of two chunks arrives damaged once and then arrives well, \<open>onFileComplete\<close> is called although no
  byte of the second chunk has been written.\<close>

theorem retry_completes_early:
  assumes "cm_Files cm = [f]" and "fe_Size f = 2" and "fe_remainingChunkCount f = 2"
    and "cm_chunks cm = [Chunk0\<lparr>FileRanges := [\<lparr>FileIndex = 0, StartOffset = 0, EndOffset = 1\<rparr>]\<rparr>,
                         Chunk0\<lparr>FileRanges := [\<lparr>FileIndex = 0, StartOffset = 1, EndOffset = 2\<rparr>]\<rparr>]"
    and "ls_content bs w (fe_Name f) = Some [0, 0]" and "ls_writable bs w (fe_Name f)"
    and "ck \<noteq> 0" and "hash [bad] \<noteq> ck" and "hash [good] = ck"
  shows "\<exists>s s'.
    WriteChunk hash (local_storage \<lparr>BaseDir = abs_path bs\<rparr>) 0 ck \<lparr>rd_data = [bad], rd_fin = EOF\<rparr> cm w =
      ((0, Some (Error ''checksum mismatch'')), s) \<and>
    WriteChunk hash (local_storage \<lparr>BaseDir = abs_path bs\<rparr>) 0 ck \<lparr>rd_data = [good], rd_fin = EOF\<rparr> (ws_cm s) (ws_world s) =
      ((1, None), s') \<and>
    ws_complete s' = [(Join (abs_path bs) (fe_Name f), 2)] \<and>
    ls_content bs (ws_world s') (fe_Name f) = Some [good, 0]"
proof -
  let ?st = "local_storage \<lparr>BaseDir = abs_path bs\<rparr>" and ?r = "\<lparr>FileIndex = 0, StartOffset = 0, EndOffset = 1\<rparr>"
  let ?s = "\<lambda>cm w b. \<lparr>ws_cm = cm, ws_world = w, ws_reader = \<lparr>rd_data = [b], rd_fin = EOF\<rparr>, ws_hashed = [], ws_length = 0, ws_complete = []\<rparr>"
  let ?f1 = "f\<lparr>fe_remainingChunkCount := 1\<rparr>" and ?f0 = "f\<lparr>fe_remainingChunkCount := 0\<rparr>"
  obtain w1 where one: "WriteChunk_range ?st ?r (?s cm w bad) =
      (None, \<lparr>ws_cm = set_Files [?f1] cm, ws_world = w1, ws_reader = \<lparr>rd_data = [], rd_fin = EOF\<rparr>,
         ws_hashed = [bad], ws_length = 1, ws_complete = []\<rparr>)"
    "ls_content bs w1 (fe_Name f) = Some [bad, 0]" "ls_writable bs w1 (fe_Name f)"
    using one_byte_range [OF assms(5,6,1), of 2 0 bad] assms(3) by (auto simp: overwrite_def)
  obtain w2 where two: "WriteChunk_range ?st ?r (?s (set_Files [?f1] cm) w1 good) =
      (None, \<lparr>ws_cm = set_Files [?f0] cm, ws_world = w2, ws_reader = \<lparr>rd_data = [], rd_fin = EOF\<rparr>,
         ws_hashed = [good], ws_length = 1, ws_complete = [(Join (abs_path bs) (fe_Name f), 2)]\<rparr>)"
    "ls_content bs w2 (fe_Name f) = Some [good, 0]"
    using one_byte_range [of bs w1 ?f1 "[bad, 0]" "set_Files [?f1] cm" 1 0 good] one(2,3) assms(2) by (auto simp: overwrite_def)
  show ?thesis
    using one two assms(4,7,8,9) by (auto simp: WriteChunk_def Let_def)
qed

theorem retry_completes_early_witness:
  "\<exists>w s s'.
    WriteChunk (\<lambda>bs. if bs = [7] then 1 else 2) (local_storage \<lparr>BaseDir = abs_path [''d'']\<rparr>) 0 1 \<lparr>rd_data = [6], rd_fin = EOF\<rparr>
      (demo_manager\<lparr>cm_manifest := (cm_manifest demo_manager)\<lparr>mf_Files := [demo_file\<lparr>fe_Size := 2\<rparr>]\<rparr>,
         cm_chunks := [Chunk0\<lparr>FileRanges := [\<lparr>FileIndex = 0, StartOffset = 0, EndOffset = 1\<rparr>]\<rparr>,
                       Chunk0\<lparr>FileRanges := [\<lparr>FileIndex = 0, StartOffset = 1, EndOffset = 2\<rparr>]\<rparr>]\<rparr>) w =
      ((0, Some (Error ''checksum mismatch'')), s) \<and>
    WriteChunk (\<lambda>bs. if bs = [7] then 1 else 2) (local_storage \<lparr>BaseDir = abs_path [''d'']\<rparr>) 0 1 \<lparr>rd_data = [7], rd_fin = EOF\<rparr> (ws_cm s) (ws_world s) =
      ((1, None), s') \<and>
    ws_complete s' = [(Join (abs_path [''d'']) ''f'', 2)]"
proof -
  let ?cm = "demo_manager\<lparr>cm_manifest := (cm_manifest demo_manager)\<lparr>mf_Files := [demo_file\<lparr>fe_Size := 2\<rparr>]\<rparr>,
         cm_chunks := [Chunk0\<lparr>FileRanges := [\<lparr>FileIndex = 0, StartOffset = 0, EndOffset = 1\<rparr>]\<rparr>,
                       Chunk0\<lparr>FileRanges := [\<lparr>FileIndex = 0, StartOffset = 1, EndOffset = 2\<rparr>]\<rparr>]\<rparr>"
  let ?w = "set_node [''d'', ''f''] (NFile 384 [0, 0]) demo_world_rw"
  have at: "node_at demo_world_rw [''d'', ''f''] = Some (NFile 384 [1, 2, 3, 4, 5])"
    by (simp add: demo_world_rw_def)
  have c: "ls_content [''d''] ?w ''f'' = Some [0, 0]"
    using ls_content_set_file [OF demo_rw_content(1), of 384 "[0, 0]"] at by simp
  have wr: "ls_writable [''d''] ?w ''f''"
    by (simp add: ls_writable_def permits_def)
  show ?thesis
    using retry_completes_early [of ?cm "demo_file\<lparr>fe_Size := 2\<rparr>" "[''d'']" ?w 1 "\<lambda>bs. if bs = [7] then 1 else 2" 6 7] c wr
    by (simp add: demo_file_def) blast
qed

end
