(* ===== verification/Local_Walk.thy ===== *)
theory Local_Walk
  imports Local_Storage
begin

text \<open>
  The directory walk of \<open>local_storage.go\<close>: \<open>scanLocalDirectory\<close> with any visitor is the visitor run
  over the list of entries that the collecting walk returns, and the recursion always ends on a
  file table of finite depth.
\<close>

section \<open>A visitor sees what the collecting walk collects\<close>

lemma visit_append:
  "visit fn (xs @ ys) err s =
     (case visit fn xs None s of (Some e, s') \<Rightarrow> (Some e, s') | (None, s') \<Rightarrow> visit fn ys err s')"
  by (induction xs arbitrary: s) (auto split: prod.splits option.splits)

lemma visit_error: "fst (visit fn xs (Some e) s) \<noteq> None"
  by (induction xs arbitrary: s) (auto split: prod.splits option.splits)

definition visits ::
  "(Entry list \<Rightarrow> (go_error option \<times> Entry list) option) \<Rightarrow>
   ((Entry \<Rightarrow> 's \<Rightarrow> go_error option \<times> 's) \<Rightarrow> 's \<Rightarrow> (go_error option \<times> 's) option) \<Rightarrow> bool" where
  "visits collect run \<longleftrightarrow>
     (\<forall>es0 err es. collect es0 = Some (err, es) \<longrightarrow>
        (\<exists>new. es = es0 @ new \<and> (\<forall>fn s. run fn s = Some (visit fn new err s))))"

lemma visitsI:
  assumes "\<And>es0 err es. collect es0 = Some (err, es) \<Longrightarrow>
      \<exists>new. es = es0 @ new \<and> (\<forall>fn s. run fn s = Some (visit fn new err s))"
  shows "visits collect run"
  using assms unfolding visits_def by blast

lemma visitsE:
  assumes "visits collect run" and "collect es0 = Some (err, es)"
  obtains new where "es = es0 @ new" and "\<And>fn s. run fn s = Some (visit fn new err s)"
  using assms unfolding visits_def by blast

text \<open>One entry in front of what the rest visits.\<close>

lemma visits_entry:
  assumes "visits collect run"
  shows "visits (\<lambda>es0. collect (es0 @ [e]))
           (\<lambda>fn s. case fn e s of (Some err, s') \<Rightarrow> Some (Some err, s') | (None, s') \<Rightarrow> run fn s')"
proof (rule visitsI)
  fix es0 err es assume "collect (es0 @ [e]) = Some (err, es)"
  with assms obtain new where "es = (es0 @ [e]) @ new" "\<And>fn s. run fn s = Some (visit fn new err s)"
    by (rule visitsE) blast
  then show "\<exists>new. es = es0 @ new \<and> (\<forall>fn s. (case fn e s of (Some err, s') \<Rightarrow> Some (Some err, s')
      | (None, s') \<Rightarrow> run fn s') = Some (visit fn new err s))"
    by (intro exI [of _ "e # new"]) (auto split: prod.splits option.splits)
qed

text \<open>A subdirectory: what it visits, its own entry, and the rest.\<close>

lemma visits_sub:
  assumes sub: "visits csub rsub" and rest: "visits crest rrest"
  shows "visits (\<lambda>es0. case csub es0 of None \<Rightarrow> None | Some (Some err, s') \<Rightarrow> Some (Some err, s') | Some (None, s') \<Rightarrow> crest s')
           (\<lambda>fn s. case rsub fn s of None \<Rightarrow> None | Some (Some err, s') \<Rightarrow> Some (Some err, s') | Some (None, s') \<Rightarrow> rrest fn s')"
proof (rule visitsI, goal_cases)
  case (1 es0 err es)
  then obtain err1 es1 where c1: "csub es0 = Some (err1, es1)" by (auto split: option.splits)
  with sub obtain n1 where n1: "es1 = es0 @ n1" "\<And>fn s. rsub fn s = Some (visit fn n1 err1 s)"
    by (rule visitsE) blast
  show ?case
  proof (cases err1)
    case (Some e)
    have "(case visit fn n1 (Some e) s of (Some err, s') \<Rightarrow> Some (Some err, s') | (None, s') \<Rightarrow> rrest fn s') =
        Some (visit fn n1 (Some e) s)" for fn s
      using visit_error [of fn n1 e s] by (auto split: prod.splits option.splits)
    then show ?thesis using 1 c1 n1 Some by (intro exI [of _ n1]) auto
  next
    case None
    then have "crest es1 = Some (err, es)" using 1 c1 by simp
    with rest obtain n2 where n2: "es = es1 @ n2" "\<And>fn s. rrest fn s = Some (visit fn n2 err s)"
      by (rule visitsE) blast
    then show ?thesis
      using n1 None by (intro exI [of _ "n1 @ n2"]) (auto simp: visit_append split: prod.splits option.splits)
  qed
qed

lemma collect_app: "(case collect_entry e es of (Some err, s') \<Rightarrow> f err s' | (None, s') \<Rightarrow> g s') = g (es @ [e])"
  by (simp add: collect_entry_def)

lemma visits_error: "visits (\<lambda>es0. Some (err, es0)) (\<lambda>fn s. Some (err, s))"
  by (rule visitsI) auto

lemma visits_cong: "visits c r \<Longrightarrow> c' = c \<Longrightarrow> r' = r \<Longrightarrow> visits c' r'"
  by simp

lemma scan_entries_visits:
  assumes sub: "\<And>name. visits (scanLocalDirectory k w dirSrc name collect_entry) (scanLocalDirectory k w dirSrc name ::
          (Entry \<Rightarrow> 's \<Rightarrow> go_error option \<times> 's) \<Rightarrow> 's \<Rightarrow> (go_error option \<times> 's) option)"
  shows "visits (scan_entries k w dirSrc subDir names collect_entry) (scan_entries k w dirSrc subDir names ::
          (Entry \<Rightarrow> 's \<Rightarrow> go_error option \<times> 's) \<Rightarrow> 's \<Rightarrow> (go_error option \<times> 's) option)"
proof (induction names)
  case Nil
  show ?case by (rule visits_cong [OF visits_error [of None]]) (simp_all add: fun_eq_iff)
next
  case (Cons n ns)
  let ?lstat = "os_Lstat w (Join (Join dirSrc subDir) n)" and ?name = "Join subDir n"
  note entry = visits_entry [OF Cons.IH]
  show ?case
  proof (cases ?lstat)
    case (Inl e)
    then show ?thesis by (intro visits_cong [OF visits_error [of "Some e"]]) (simp_all add: fun_eq_iff Let_def)
  next
    case (Inr nd)
    show ?thesis
    proof (cases nd)
      case (NDir p)
      show ?thesis
        by (rule visits_cong [OF visits_sub [OF sub [of ?name] entry [of "EDir \<lparr>de_Name = ?name, de_Perm = p AND 511\<rparr>"]]])
          (simp_all add: Inr NDir fun_eq_iff Let_def collect_app split: option.split prod.split)
    next
      case (NFile p bs)
      show ?thesis
        by (rule visits_cong [OF entry [of "if length bs = 0
                    then EEmptyFile \<lparr>ee_Name = ?name, ee_Perm = p AND 511\<rparr>
                    else EFile \<lparr>fe_Name = ?name, fe_Size = int (length bs), fe_Perm = p AND 511,
                                fe_remainingChunkCount = 0\<rparr>"]])
          (simp_all add: Inr NFile fun_eq_iff Let_def collect_app split: option.split prod.split)
    next
      case (NSymlink t)
      show ?thesis
      proof (cases "os_Readlink w (Join dirSrc ?name)")
        case (Inl e)
        then show ?thesis
          by (intro visits_cong [OF visits_error [of "Some e"]]) (simp_all add: Inr NSymlink fun_eq_iff Let_def)
      next
        case (Inr l)
        show ?thesis
          by (rule visits_cong [OF entry [of "ESymlink \<lparr>se_Name = ?name, se_SymlinkTo = l\<rparr>"]])
            (simp_all add: \<open>?lstat = Inr nd\<close> Inr NSymlink fun_eq_iff Let_def collect_app split: option.split prod.split)
      qed
    next
      case (NOther p)
      show ?thesis by (rule visits_cong [OF Cons.IH]) (simp_all add: Inr NOther fun_eq_iff Let_def)
    qed
  qed
qed

lemma scan_visits:
  "visits (scanLocalDirectory k w dirSrc subDir collect_entry) (scanLocalDirectory k w dirSrc subDir)"
proof (induction k arbitrary: subDir)
  case 0
  show ?case by (rule visitsI) simp
next
  case (Suc k)
  show ?case
  proof (cases "os_ReadDir w (Join dirSrc subDir)")
    case (Inl e)
    then show ?thesis by (intro visits_cong [OF visits_error [of "Some e"]]) (simp_all add: fun_eq_iff)
  next
    case (Inr names)
    then show ?thesis
      by (intro visits_cong [OF scan_entries_visits [OF Suc.IH, of subDir names]]) (simp_all add: fun_eq_iff)
  qed
qed

section \<open>The walk ends\<close>

text \<open>A file table whose names are names.\<close>

definition named_files :: "world \<Rightarrow> bool" where
  "named_files w \<longleftrightarrow> (\<forall>k \<in> fst ` set (files w). \<forall>c \<in> set k. clean_name c)"

definition depth_within :: "world \<Rightarrow> nat \<Rightarrow> bool" where
  "depth_within w d \<longleftrightarrow> (\<forall>k \<in> fst ` set (files w). length k \<le> d)"

lemma resolve_prefix:
  assumes "\<forall>c \<in> set cs. clean_name c"
    and "\<forall>j < length cs. \<exists>p. node_at w (acc @ take j cs) = Some (NDir p) \<and> permits w p 64"
    and "node_at w (acc @ cs) = Some (NDir m)"
  shows "resolve w k follow acc (cs @ ds) = resolve w k follow (acc @ cs) ds"
  using assms
proof (induction cs arbitrary: acc)
  case (Cons c cs)
  obtain p where p: "node_at w acc = Some (NDir p)" "permits w p 64"
    using Cons.prems(2) [rule_format, of 0] by auto
  have next_dirs: "\<forall>j < length cs. \<exists>p. node_at w ((acc @ [c]) @ take j cs) = Some (NDir p) \<and> permits w p 64"
  proof (intro allI impI)
    fix j assume "j < length cs"
    then show "\<exists>p. node_at w ((acc @ [c]) @ take j cs) = Some (NDir p) \<and> permits w p 64"
      using Cons.prems(2) [rule_format, of "Suc j"] by simp
  qed
  have "\<exists>p'. node_at w (acc @ [c]) = Some (NDir p')"
    using next_dirs [rule_format, of 0] Cons.prems(3) by (cases cs) auto
  then show ?case
    using p Cons.IH [of "acc @ [c]"] Cons.prems next_dirs by (auto simp: clean_name_def)
qed simp

text \<open>A directory entry that can be examined sits in a directory that can be searched.\<close>

lemma Lstat_child:
  assumes q: "plain w q" "node_at w q = Some (NDir m)" and n: "clean_name n"
    and st: "os_Lstat w (abs_path (q @ [n])) = Inr nd"
  shows "plain w (q @ [n])" and "node_at w (q @ [n]) = Some nd"
proof -
  have clean: "\<forall>c \<in> set (q @ [n]). clean_name c" using q(1) n by (simp add: plain_def)
  have ne: "abs_path (q @ [n]) \<noteq> []" by (simp add: abs_path_def)
  have r: "resolve_path w False (abs_path (q @ [n])) = resolve w 40 False q [n]"
    using resolve_prefix [of q w "[]" m 40 False "[n]"] q ne path_comps_abs_path [OF clean]
    by (simp add: resolve_path_def plain_def del: resolve.simps path_comps_abs_path)
  have x: "permits w m 64"
  proof (rule ccontr)
    assume "\<not> permits w m 64"
    then show False using st r q(2) n by (simp add: os_Lstat_def clean_name_def)
  qed
  show pl: "plain w (q @ [n])"
    using q n x by (auto simp: plain_def less_Suc_eq)
  show "node_at w (q @ [n]) = Some nd"
    using st resolve_path_plain [OF pl, of False] by (auto simp: os_Lstat_def split: option.splits)
qed

lemma Join_abs_empty: "\<forall>c \<in> set bs. clean_name c \<Longrightarrow> Join (abs_path bs) [] = abs_path bs"
proof -
  assume a: "\<forall>c \<in> set bs. clean_name c"
  have ne: "abs_path bs \<noteq> []" by (simp add: abs_path_def)
  then have "Join (abs_path bs) [] = Clean (abs_path bs)" by (simp add: Join_def)
  then show ?thesis using a by simp
qed

lemma Join_abs_rel_any:
  "\<forall>c \<in> set bs. clean_name c \<Longrightarrow> \<forall>c \<in> set ns. clean_name c \<Longrightarrow> Join (abs_path bs) (rel_path ns) = abs_path (bs @ ns)"
  by (cases "ns = []") (simp_all add: Join_abs_empty, simp add: rel_path_def Join_abs_empty)

lemma Clean_rel_path:
  assumes "ns \<noteq> []" and "\<forall>c \<in> set ns. clean_name c"
  shows "Clean (rel_path ns) = rel_path ns"
proof -
  have ne: "rel_path ns \<noteq> []" using assms by (rule rel_path_not_Nil)
  obtain c cs where c: "ns = c # cs" "c \<noteq> []" "slash \<notin> set c"
    using assms by (cases ns) (auto simp: clean_name_def)
  have "hd (rel_path ns) \<noteq> slash" using c by (cases c; cases cs) (auto simp: rel_path_def)
  then have "\<not> rooted_path (rel_path ns)"
    using ne by (cases "rel_path ns") (auto simp: rooted_path_def HasPrefix_def)
  then show ?thesis
    using assms ne clean_comps_clean [OF assms(2), of False "[]"]
    by (simp add: Clean_def Split_rel_path) (simp add: rel_path_def)
qed

lemma Join_rel_name:
  assumes "\<forall>c \<in> set ns. clean_name c" and "clean_name n"
  shows "Join (rel_path ns) n = rel_path (ns @ [n])"
proof -
  have n: "n \<noteq> []" using assms(2) by (simp add: clean_name_def)
  have cl: "Clean (rel_path (ns @ [n])) = rel_path (ns @ [n])"
    using assms by (intro Clean_rel_path) auto
  show ?thesis
  proof (cases "ns = []")
    case True
    then show ?thesis using n cl by (simp add: Join_def rel_path_def)
  next
    case False
    then have "rel_path (ns @ [n]) = rel_path ns @ slash # n"
      using join_with_append [of ns "[n]" slash] by (simp add: rel_path_def)
    moreover have "rel_path ns \<noteq> []" using False assms(1) by (intro rel_path_not_Nil)
    ultimately show ?thesis using n cl by (simp add: Join_def)
  qed
qed

lemma dir_namesD: "n \<in> set (dir_names w q) \<Longrightarrow> q @ [n] \<in> fst ` set (files w)"
proof -
  assume "n \<in> set (dir_names w q)"
  then obtain k where k: "k \<in> set (map fst (files w))" "k \<noteq> []" "butlast k = q" "last k = n"
    by (auto simp: dir_names_def)
  then have "k = q @ [n]" by (metis append_butlast_last_id)
  with k(1) show ?thesis by simp
qed

lemma scan_entries_ends:
  assumes w: "named_files w" "depth_within w d" and q: "plain w (bs @ ns)" "node_at w (bs @ ns) = Some (NDir m)"
    and deep: "d < length (bs @ ns) + Suc k"
    and names: "\<forall>n \<in> set names. bs @ ns @ [n] \<in> fst ` set (files w)"
    and sub: "\<And>n s. plain w (bs @ ns @ [n]) \<Longrightarrow> \<not> is_link (node_at w (bs @ ns @ [n])) \<Longrightarrow> d < length (bs @ ns @ [n]) + k \<Longrightarrow> 0 < k \<Longrightarrow>
       scanLocalDirectory k w (abs_path bs) (rel_path (ns @ [n])) fn s \<noteq> None"
  shows "scan_entries k w (abs_path bs) (rel_path ns) names fn s \<noteq> None"
  using names
proof (induction names arbitrary: s)
  case (Cons n names)
  have key: "bs @ ns @ [n] \<in> fst ` set (files w)" using Cons.prems by simp
  then have n: "clean_name n" using w(1) by (auto simp: named_files_def)
  have len: "length (bs @ ns @ [n]) \<le> d" using key w(2) unfolding depth_within_def by blast
  have cl: "\<forall>c \<in> set bs. clean_name c" "\<forall>c \<in> set ns. clean_name c" using q(1) by (auto simp: plain_def)
  have name: "Join (rel_path ns) n = rel_path (ns @ [n])" using cl n by (intro Join_rel_name)
  have target: "Join (Join (abs_path bs) (rel_path ns)) n = abs_path ((bs @ ns) @ [n])"
    unfolding Join_abs_rel_any [OF cl] using cl n Join_abs_rel [of "bs @ ns" "[n]"] by (auto simp: rel_path_def)
  have rest: "scan_entries k w (abs_path bs) (rel_path ns) names fn s \<noteq> None" for s
    using Cons by simp
  show ?case
  proof (cases "os_Lstat w (abs_path ((bs @ ns) @ [n]))")
    case (Inl e)
    then show ?thesis using target by (simp add: Let_def)
  next
    case (Inr nd)
    note here = Inr target name
    show ?thesis
    proof (cases nd)
      case (NDir p)
      have "\<exists>r. scanLocalDirectory k w (abs_path bs) (rel_path (ns @ [n])) fn s = Some r" for s
        using sub [of n s] Lstat_child [OF q n Inr] deep len NDir by (simp add: is_link_def)
      then obtain err s' where "scanLocalDirectory k w (abs_path bs) (rel_path (ns @ [n])) fn s = Some (err, s')"
        by fast
      then show ?thesis
        using here NDir rest by (simp add: Let_def split: option.split prod.split)
    qed (use here rest in \<open>simp_all add: Let_def split: option.split sum.split prod.split\<close>)
  qed
qed simp

lemma scan_ends:
  assumes w: "named_files w" "depth_within w d"
    and q: "plain w (bs @ ns)" and deep: "d < length (bs @ ns) + k" and k: "0 < k"
    and base: "\<not> is_link (node_at w (bs @ ns))"
  shows "scanLocalDirectory k w (abs_path bs) (rel_path ns) fn s \<noteq> None"
  using q deep k base
proof (induction k arbitrary: ns s)
  case (Suc k)
  have cl: "\<forall>c \<in> set bs. clean_name c" "\<forall>c \<in> set ns. clean_name c" using Suc.prems(1) by (auto simp: plain_def)
  show ?case
  proof (cases "os_ReadDir w (abs_path (bs @ ns))")
    case (Inl e)
    then show ?thesis using cl by (simp add: Join_abs_rel_any)
  next
    case (Inr names)
    then obtain m where m: "node_at w (bs @ ns) = Some (NDir m)" "names = sort (dir_names w (bs @ ns))"
      using resolve_path_plain [OF Suc.prems(1), of True] Suc.prems(4)
      by (auto simp: os_ReadDir_def split: option.splits node.splits if_splits)
    have "scan_entries k w (abs_path bs) (rel_path ns) names fn s \<noteq> None"
    proof (rule scan_entries_ends [OF w Suc.prems(1) m(1) Suc.prems(2)])
      show "\<forall>n \<in> set names. bs @ ns @ [n] \<in> fst ` set (files w)"
        using m(2) dir_namesD [of _ w "bs @ ns"] by auto
      show "scanLocalDirectory k w (abs_path bs) (rel_path (ns @ [n])) fn s \<noteq> None"
        if "plain w (bs @ ns @ [n])" "\<not> is_link (node_at w (bs @ ns @ [n]))"
          "d < length (bs @ ns @ [n]) + k" "0 < k" for n s
        using Suc.IH [of "ns @ [n]"] that by simp
    qed
    then show ?thesis using Inr cl by (simp add: Join_abs_rel_any)
  qed
qed simp

lemma fold_max_ge: "(a::nat) \<le> fold max xs a \<and> (\<forall>x \<in> set xs. x \<le> fold max xs a)"
proof (induction xs arbitrary: a)
  case (Cons x xs)
  show ?case using Cons.IH [of "max x a"] by auto
qed simp

lemma scan_fuel_enough: "depth_within w (scan_fuel w - 2)"
  using fold_max_ge [of 0 "map (length \<circ> fst) (files w)"]
  by (auto simp: depth_within_def scan_fuel_def)

section \<open>Properties\<close>

text \<open>Claim C8.
  The walk of a local directory always ends, and \<open>Walk\<close> reports what a visitor sees: for every
  file table whose names are names and every base directory that is reached without symbolic
  links, the recursion returns within the fuel that the depth of the table gives, and the walk with
  any visitor is that visitor applied to the entries \<open>Walk\<close> lists, in that order, stopping at the
  visitor's first error or with the error of the walk.\<close>

theorem Walk_ends_and_reports:
  fixes fn :: "Entry \<Rightarrow> 's \<Rightarrow> go_error option \<times> 's"
  assumes "named_files w" and "plain w bs" and "\<not> is_link (node_at w bs)"
  shows "\<exists>es err. LocalStorage_Walk \<lparr>BaseDir = abs_path bs\<rparr> [] w = (es, err) \<and>
    scanLocalDirectory (scan_fuel w) w (abs_path bs) [] fn s = Some (visit fn es err s)"
proof -
  have cl: "\<forall>c \<in> set bs. clean_name c" using assms(2) by (simp add: plain_def)
  have deep: "scan_fuel w - 2 < length (bs @ []) + scan_fuel w" "0 < scan_fuel w" by (simp_all add: scan_fuel_def)
  have "scanLocalDirectory (scan_fuel w) w (abs_path bs) (rel_path []) collect_entry [] \<noteq> None"
    using scan_ends [OF assms(1) scan_fuel_enough _ deep] assms(2,3) by simp
  then obtain err es where run: "scanLocalDirectory (scan_fuel w) w (abs_path bs) [] collect_entry [] = Some (err, es)"
    by (auto simp: rel_path_def)
  have "visits (scanLocalDirectory (scan_fuel w) w (abs_path bs) [] collect_entry)
      (scanLocalDirectory (scan_fuel w) w (abs_path bs) [] :: (Entry \<Rightarrow> 's \<Rightarrow> go_error option \<times> 's) \<Rightarrow> 's \<Rightarrow> _)"
    by (rule scan_visits)
  from this run obtain new where "es = [] @ new"
    "scanLocalDirectory (scan_fuel w) w (abs_path bs) [] fn s = Some (visit fn new err s)"
    by (rule visitsE) blast
  then show ?thesis
    using run cl by (simp add: LocalStorage_Walk_def Join_abs_empty)
qed

theorem Walk_ends_and_reports_witness:
  "\<exists>es err. LocalStorage_Walk \<lparr>BaseDir = abs_path [''d'']\<rparr> []
       \<lparr>files = [([''d''], NDir 493), ([''d'', ''s''], NDir 493), ([''d'', ''s'', ''f''], NFile 420 [7])],
        cwd = [], umask = 18, superuser = False\<rparr> = (es, err) \<and>
     scanLocalDirectory 5
       \<lparr>files = [([''d''], NDir 493), ([''d'', ''s''], NDir 493), ([''d'', ''s'', ''f''], NFile 420 [7])],
        cwd = [], umask = 18, superuser = False\<rparr> (abs_path [''d'']) [] (\<lambda>e n. (None, n + 1)) (0::nat) =
       Some (visit (\<lambda>e n. (None, n + 1)) es err 0)"
proof -
  let ?w = "\<lparr>files = [([''d''], NDir 493), ([''d'', ''s''], NDir 493), ([''d'', ''s'', ''f''], NFile 420 [7])],
        cwd = [], umask = 18, superuser = False\<rparr>"
  have "scan_fuel ?w = 5" by (simp add: scan_fuel_def)
  moreover have "named_files ?w" by (simp add: named_files_def clean_name_def)
  moreover have "plain ?w [''d'']" "\<not> is_link (node_at ?w [''d''])"
    by (simp_all add: plain_def clean_name_def node_at_def permits_def is_link_def)
  ultimately show ?thesis
    using Walk_ends_and_reports [of ?w "[''d'']" "\<lambda>e n. (None, n + 1)" "0::nat"] by simp
qed

end
