(* ===== verification/Transfer_Steps.thy ===== *)
theory Transfer_Steps
  imports Chunk_Transfer_Props Local_Walk
begin

text \<open>
  Package \<open>transfer\<close>, file \<open>transfer.go\<close>: preparing the entries of a manifest in a destination,
  committing their permissions at the end, and the verification of a finished transfer.
\<close>

section \<open>transfer.go\<close>

text \<open>A loop of \<open>SetupTransfer\<close> or \<open>CompleteTransfer\<close>: stop at the first error.\<close>

fun each_entry :: "(Entry \<Rightarrow> 'w \<Rightarrow> go_error option \<times> 'w) \<Rightarrow> Entry list \<Rightarrow> 'w \<Rightarrow> go_error option \<times> 'w" where
  "each_entry f [] w = (None, w)"
| "each_entry f (e # es) w =
     (case f e w of (Some err, w') \<Rightarrow> (Some err, w') | (None, w') \<Rightarrow> each_entry f es w')"

definition SetupTransfer :: "ChunkManager \<Rightarrow> 'w Storage \<Rightarrow> 'w \<Rightarrow> go_error option \<times> 'w" where
  "SetupTransfer cm st w =
     (let mf = cm_manifest cm in
      case st_Prepare st w of
        (Some err, w1) \<Rightarrow> (Some err, w1)
      | (None, w1) \<Rightarrow>
      (case each_entry (st_PrepareEntry st) (map EDir (mf_Dirs mf)) w1 of
        (Some err, w2) \<Rightarrow> (Some err, w2)
      | (None, w2) \<Rightarrow>
      (case each_entry (st_PrepareEntry st) (map ESymlink (mf_Symlinks mf)) w2 of
        (Some err, w3) \<Rightarrow> (Some err, w3)
      | (None, w3) \<Rightarrow>
      (case each_entry (st_PrepareEntry st) (map EEmptyFile (mf_EmptyFiles mf)) w3 of
        (Some err, w4) \<Rightarrow> (Some err, w4)
      | (None, w4) \<Rightarrow> each_entry (st_PrepareEntry st) (map EFile (mf_Files mf)) w4))))"

definition CompleteTransfer :: "ChunkManager \<Rightarrow> 'w Storage \<Rightarrow> 'w \<Rightarrow> go_error option \<times> 'w" where
  "CompleteTransfer cm st w =
     (let mf = cm_manifest cm in
      case each_entry (st_CommitEntry st) (map EFile (mf_Files mf)) w of
        (Some err, w1) \<Rightarrow> (Some err, w1)
      | (None, w1) \<Rightarrow>
      (case each_entry (st_CommitEntry st) (map EEmptyFile (mf_EmptyFiles mf)) w1 of
        (Some err, w2) \<Rightarrow> (Some err, w2)
      | (None, w2) \<Rightarrow>
      (case each_entry (st_CommitEntry st) (map ESymlink (mf_Symlinks mf)) w2 of
        (Some err, w3) \<Rightarrow> (Some err, w3)
      | (None, w3) \<Rightarrow> each_entry (st_CommitEntry st) (map EDir (mf_Dirs mf)) w3)))"

text \<open>The four maps that the visitor of \<open>VerifyTransfer\<close> fills.\<close>

record verify_maps =
  vm_dirs :: "string \<rightharpoonup> DirEntry"
  vm_symlinks :: "string \<rightharpoonup> SymlinkEntry"
  vm_emptyFiles :: "string \<rightharpoonup> EmptyFileEntry"
  vm_files :: "string \<rightharpoonup> FileEntry"

definition verify_visit :: "Entry \<Rightarrow> verify_maps \<Rightarrow> go_error option \<times> verify_maps" where
  "verify_visit entry m =
     (None, case entry of
        EDir e \<Rightarrow> m\<lparr>vm_dirs := (vm_dirs m)(de_Name e \<mapsto> e)\<rparr>
      | ESymlink e \<Rightarrow> m\<lparr>vm_symlinks := (vm_symlinks m)(se_Name e \<mapsto> e)\<rparr>
      | EEmptyFile e \<Rightarrow> m\<lparr>vm_emptyFiles := (vm_emptyFiles m)(ee_Name e \<mapsto> e)\<rparr>
      | EFile e \<Rightarrow> m\<lparr>vm_files := (vm_files m)(fe_Name e \<mapsto> e)\<rparr>)"

text \<open>A checking loop of \<open>VerifyTransfer\<close>: a bad entry clears \<open>isValid\<close> and the loop goes on.\<close>

fun verify_loop :: "('e \<Rightarrow> bool) \<Rightarrow> 'e list \<Rightarrow> bool \<Rightarrow> bool" where
  "verify_loop good [] isValid = isValid"
| "verify_loop good (e # es) isValid = verify_loop good es (if good e then isValid else False)"

definition VerifyTransfer :: "ChunkManager \<Rightarrow> 'w Storage \<Rightarrow> 'w \<Rightarrow> bool" where
  "VerifyTransfer cm st w =
     (let mf = cm_manifest cm; (es, walk_err) = st_Walk st [] w;
          (err, m) = visit verify_visit es walk_err
             \<lparr>vm_dirs = Map.empty, vm_symlinks = Map.empty, vm_emptyFiles = Map.empty, vm_files = Map.empty\<rparr>
      in if err \<noteq> None then False
         else
           verify_loop (\<lambda>f. case vm_files m (fe_Name f) of None \<Rightarrow> False
                            | Some t \<Rightarrow> \<not> (fe_Size f \<noteq> fe_Size t \<or> fe_Perm f \<noteq> fe_Perm t)) (mf_Files mf)
          (verify_loop (\<lambda>i. case vm_emptyFiles m (ee_Name i) of None \<Rightarrow> False | Some t \<Rightarrow> ee_Perm i = ee_Perm t) (mf_EmptyFiles mf)
          (verify_loop (\<lambda>i. case vm_symlinks m (se_Name i) of None \<Rightarrow> False | Some t \<Rightarrow> se_SymlinkTo i = se_SymlinkTo t) (mf_Symlinks mf)
          (verify_loop (\<lambda>i. case vm_dirs m (de_Name i) of None \<Rightarrow> False | Some t \<Rightarrow> de_Perm i = de_Perm t) (mf_Dirs mf)
             True))))"

section \<open>Verification\<close>

lemma verify_loop_all: "verify_loop good es v \<longleftrightarrow> v \<and> (\<forall>e \<in> set es. good e)"
  by (induction es arbitrary: v) auto

text \<open>The entries of one kind that a walk lists.\<close>

definition dirs_of :: "Entry list \<Rightarrow> DirEntry list" where
  "dirs_of es = concat (map (\<lambda>e. case e of EDir d \<Rightarrow> [d] | _ \<Rightarrow> []) es)"
definition symlinks_of :: "Entry list \<Rightarrow> SymlinkEntry list" where
  "symlinks_of es = concat (map (\<lambda>e. case e of ESymlink d \<Rightarrow> [d] | _ \<Rightarrow> []) es)"
definition emptyFiles_of :: "Entry list \<Rightarrow> EmptyFileEntry list" where
  "emptyFiles_of es = concat (map (\<lambda>e. case e of EEmptyFile d \<Rightarrow> [d] | _ \<Rightarrow> []) es)"
definition files_of :: "Entry list \<Rightarrow> FileEntry list" where
  "files_of es = concat (map (\<lambda>e. case e of EFile d \<Rightarrow> [d] | _ \<Rightarrow> []) es)"

lemmas kind_of_defs = dirs_of_def symlinks_of_def emptyFiles_of_def files_of_def

definition by_name :: "('e \<Rightarrow> string) \<Rightarrow> 'e list \<Rightarrow> string \<rightharpoonup> 'e" where
  "by_name name es = fold (\<lambda>e m. m(name e \<mapsto> e)) es Map.empty"

lemma fold_by_name: "fold (\<lambda>e m. m(name e \<mapsto> e)) es m0 = m0 ++ by_name name es"
proof -
  have "fold (\<lambda>e m. m(name e \<mapsto> e)) es (m0 ++ m1) = m0 ++ fold (\<lambda>e m. m(name e \<mapsto> e)) es m1" for m1
  proof (induction es arbitrary: m1)
    case (Cons e es)
    show ?case by (simp only: fold_simps map_add_upd [symmetric] Cons.IH)
  qed simp
  from this [of Map.empty] show ?thesis by (simp add: by_name_def)
qed

lemma by_name_distinct:
  assumes "distinct (map name es)"
  shows "by_name name es n = Some e \<longleftrightarrow> e \<in> set es \<and> name e = n"
  using assms
proof (induction es arbitrary: n e rule: rev_induct)
  case (snoc x es)
  have "by_name name (es @ [x]) = (by_name name es)(name x \<mapsto> x)" by (simp add: by_name_def)
  moreover have "name y \<noteq> name x" if "y \<in> set es" for y 
    using snoc.prems imageI [OF that, of name] by auto
  ultimately show ?case using snoc by auto
qed (simp add: by_name_def)

lemma verify_visit_maps:
  "visit verify_visit es err m =
     (err, \<lparr>vm_dirs = vm_dirs m ++ by_name de_Name (dirs_of es), vm_symlinks = vm_symlinks m ++ by_name se_Name (symlinks_of es),
            vm_emptyFiles = vm_emptyFiles m ++ by_name ee_Name (emptyFiles_of es), vm_files = vm_files m ++ by_name fe_Name (files_of es)\<rparr>)"
proof (induction es arbitrary: m)
  case Nil
  then show ?case by (simp add: kind_of_defs by_name_def)
next
  case (Cons e es)
  have step: "by_name f (x # xs) = [f x \<mapsto> x] ++ by_name f xs" for f :: "'x \<Rightarrow> string" and x xs
    using fold_by_name [of f xs "[f x \<mapsto> x]"] by (simp add: by_name_def)
  show ?case
    using Cons.IH by (cases e) (simp_all add: verify_visit_def kind_of_defs step)
qed

lemma matches_iff:
  assumes "distinct (map name ts)"
  shows "(\<forall>e \<in> set es. case by_name name ts (name e) of None \<Rightarrow> False | Some t \<Rightarrow> good e t) \<longleftrightarrow>
    (\<forall>e \<in> set es. \<exists>t \<in> set ts. name t = name e \<and> good e t)"
proof (rule ball_cong [OF refl])
  fix e
  show "(case by_name name ts (name e) of None \<Rightarrow> False | Some t \<Rightarrow> good e t) \<longleftrightarrow>
      (\<exists>t \<in> set ts. name t = name e \<and> good e t)"
  proof (cases "by_name name ts (name e)")
    case None
    then have "t \<notin> set ts \<or> name t \<noteq> name e" for t
      using by_name_distinct [OF assms, of "name e" t] by auto
    then show ?thesis using None by auto
  next
    case (Some t)
    then have "t \<in> set ts \<and> name t = name e" using by_name_distinct [OF assms] by blast
    moreover have "t' = t" if "t' \<in> set ts" "name t' = name e" for t'
      using by_name_distinct [OF assms, of "name e" t'] that Some by simp
    ultimately show ?thesis using Some by auto
  qed
qed

text \<open>
  \<open>VerifyTransfer\<close> in a sentence: the walk ends without an error and every entry of the manifest is
  in it under its name and kind, with the permissions, the link target and the size of the manifest.
\<close>

lemma VerifyTransfer_walk:
  assumes walk: "st_Walk st [] w = (es, err)"
    and dist: "distinct (map de_Name (dirs_of es))" "distinct (map se_Name (symlinks_of es))"
      "distinct (map ee_Name (emptyFiles_of es))" "distinct (map fe_Name (files_of es))"
  shows "VerifyTransfer cm st w \<longleftrightarrow> err = None \<and>
    (\<forall>d \<in> set (mf_Dirs (cm_manifest cm)). \<exists>t \<in> set (dirs_of es). de_Name t = de_Name d \<and> de_Perm d = de_Perm t) \<and>
    (\<forall>l \<in> set (mf_Symlinks (cm_manifest cm)). \<exists>t \<in> set (symlinks_of es). se_Name t = se_Name l \<and> se_SymlinkTo l = se_SymlinkTo t) \<and>
    (\<forall>f \<in> set (mf_EmptyFiles (cm_manifest cm)). \<exists>t \<in> set (emptyFiles_of es). ee_Name t = ee_Name f \<and> ee_Perm f = ee_Perm t) \<and>
    (\<forall>f \<in> set (mf_Files (cm_manifest cm)). \<exists>t \<in> set (files_of es). fe_Name t = fe_Name f \<and> fe_Size f = fe_Size t \<and> fe_Perm f = fe_Perm t)"
  using matches_iff [OF dist(1), of "mf_Dirs (cm_manifest cm)" "\<lambda>d t. de_Perm d = de_Perm t"]
    matches_iff [OF dist(2), of "mf_Symlinks (cm_manifest cm)" "\<lambda>l t. se_SymlinkTo l = se_SymlinkTo t"]
    matches_iff [OF dist(3), of "mf_EmptyFiles (cm_manifest cm)" "\<lambda>f t. ee_Perm f = ee_Perm t"]
    matches_iff [OF dist(4), of "mf_Files (cm_manifest cm)" "\<lambda>f t. \<not> (fe_Size f \<noteq> fe_Size t \<or> fe_Perm f \<noteq> fe_Perm t)"]
  by (simp add: VerifyTransfer_def walk verify_visit_maps verify_loop_all Let_def)

section \<open>What a walk cannot see\<close>

text \<open>Two file systems that differ in the bytes of files of equal length only.\<close>

fun node_shape :: "node \<Rightarrow> node" where
  "node_shape (NFile m bs) = NFile m (replicate (length bs) 0)"
| "node_shape n = n"

definition same_shape :: "world \<Rightarrow> world \<Rightarrow> bool" where
  "same_shape w w' \<longleftrightarrow> map fst (files w) = map fst (files w') \<and> cwd w = cwd w' \<and> superuser w = superuser w' \<and>
     (\<forall>p. map_option node_shape (node_at w p) = map_option node_shape (node_at w' p))"

lemma same_shapeD:
  assumes "same_shape w w'"
  shows "node_at w p = None \<longleftrightarrow> node_at w' p = None"
    and "node_at w p = Some (NDir m) \<longleftrightarrow> node_at w' p = Some (NDir m)"
    and "node_at w p = Some (NSymlink t) \<longleftrightarrow> node_at w' p = Some (NSymlink t)"
    and "node_at w p = Some (NOther m) \<longleftrightarrow> node_at w' p = Some (NOther m)"
    and "node_at w p = Some (NFile m bs) \<Longrightarrow> \<exists>bs'. node_at w' p = Some (NFile m bs') \<and> length bs' = length bs"
    and "permits w = permits w'" and "dir_names w = dir_names w'" and "scan_fuel w = scan_fuel w'"
    and "cwd w = cwd w'"
proof -
  have n: "map_option node_shape (node_at w p) = map_option node_shape (node_at w' p)"
    and f: "map fst (files w) = map fst (files w')" and c: "cwd w = cwd w'" and s: "superuser w = superuser w'"
    using assms by (simp_all add: same_shape_def)
  show "node_at w p = None \<longleftrightarrow> node_at w' p = None"
    "node_at w p = Some (NDir m) \<longleftrightarrow> node_at w' p = Some (NDir m)"
    "node_at w p = Some (NSymlink t) \<longleftrightarrow> node_at w' p = Some (NSymlink t)"
    "node_at w p = Some (NOther m) \<longleftrightarrow> node_at w' p = Some (NOther m)"
    using n by (cases "node_at w p"; cases "node_at w' p"; cases "the (node_at w p)"; cases "the (node_at w' p)"; auto)+
  show "\<exists>bs'. node_at w' p = Some (NFile m bs') \<and> length bs' = length bs" if "node_at w p = Some (NFile m bs)"
    using n that by (cases "node_at w' p"; cases "the (node_at w' p)") (auto dest: arg_cong [where f = length])
  show "permits w = permits w'" using s by (simp add: permits_def fun_eq_iff)
  show "dir_names w = dir_names w'" using f by (simp add: dir_names_def fun_eq_iff)
  have "map (length \<circ> fst) (files w) = map (length \<circ> fst) (files w')"
    using arg_cong [OF f, of "map length"] by simp
  then show "scan_fuel w = scan_fuel w'" by (simp add: scan_fuel_def)
  show "cwd w = cwd w'" by (rule c)
qed

lemma resolve_same_shape: "same_shape w w' \<Longrightarrow> resolve w k follow acc cs = resolve w' k follow acc cs"
proof (induction w k follow acc cs rule: resolve.induct)
  case (2 w k follow acc c cs)
  note D = same_shapeD [OF "2.prems"]
  show ?case
  proof (cases "node_at w acc")
    case None
    then show ?thesis using D(1) [of acc] by simp
  next
    case (Some n)
    show ?thesis
    proof (cases n)
      case (NDir p)
      have a: "node_at w acc = Some (NDir p)" "node_at w' acc = Some (NDir p)" using Some NDir D(2) [of acc p] by simp_all
      have P: "permits w' = permits w" using D(6) by simp
      show ?thesis
      proof (cases "permits w p 64 \<and> c \<noteq> ''.'' \<and> c \<noteq> ''..''")
        case False
        then show ?thesis using a P 2 by auto
      next
        case True
        show ?thesis
        proof (cases "node_at w (acc @ [c])")
          case None
          then show ?thesis using True a P D(1) [of "acc @ [c]"] by simp
        next
          case sub: (Some n')
          show ?thesis
          proof (cases n')
            case (NSymlink t)
            then have "node_at w' (acc @ [c]) = Some (NSymlink t)" using sub D(3) [of "acc @ [c]" t] by simp
            then show ?thesis using True a P sub NSymlink 2 by (cases k) auto
          next
            case (NFile m bs)
            then obtain bs' where "node_at w' (acc @ [c]) = Some (NFile m bs')" using sub D(5) [of "acc @ [c]" m bs] by auto
            then show ?thesis using True a P sub NFile 2 by auto
          next
            case (NDir m)
            then have "node_at w' (acc @ [c]) = Some (NDir m)" using sub D(2) [of "acc @ [c]" m] by simp
            then show ?thesis using True a P sub NDir 2 by auto
          next
            case (NOther m)
            then have "node_at w' (acc @ [c]) = Some (NOther m)" using sub D(4) [of "acc @ [c]" m] by simp
            then show ?thesis using True a P sub NOther 2 by auto
          qed
        qed
      qed
    next
      case (NFile m bs)
      then show ?thesis using Some D(5) [of acc m bs] by auto
    next
      case (NSymlink t)
      then show ?thesis using Some D(3) [of acc t] by auto
    next
      case (NOther m)
      then show ?thesis using Some D(4) [of acc m] by auto
    qed
  qed
qed simp

lemma resolve_path_same_shape: "same_shape w w' \<Longrightarrow> resolve_path w follow p = resolve_path w' follow p"
  using resolve_same_shape [of w w'] same_shapeD(9) [of w w'] by (simp add: resolve_path_def)

lemma os_Lstat_same_shape:
  assumes "same_shape w w'"
  shows "map_sum id node_shape (os_Lstat w p) = map_sum id node_shape (os_Lstat w' p)"
proof -
  have n: "map_sum id node_shape (case node_at w q of None \<Rightarrow> Inl ENOENT | Some n \<Rightarrow> Inr n) =
      map_sum id node_shape (case node_at w' q of None \<Rightarrow> Inl ENOENT | Some n \<Rightarrow> Inr n)" for q
  proof -
    have "map_option node_shape (node_at w q) = map_option node_shape (node_at w' q)"
      using assms by (simp add: same_shape_def)
    then show ?thesis by (cases "node_at w q"; cases "node_at w' q") auto
  qed
  show ?thesis
    unfolding os_Lstat_def resolve_path_same_shape [OF assms, of False p]
    using n by (cases "resolve_path w' False p") simp_all
qed

lemma os_Readlink_same_shape: "same_shape w w' \<Longrightarrow> os_Readlink w p = os_Readlink w' p"
  using os_Lstat_same_shape [of w w' p]
  by (cases "os_Lstat w p"; cases "os_Lstat w' p"; cases "projr (os_Lstat w p)"; cases "projr (os_Lstat w' p)")
    (auto simp: os_Readlink_def)

lemma os_ReadDir_same_shape:
  assumes s: "same_shape w w'"
  shows "os_ReadDir w p = os_ReadDir w' p"
proof -
  have "(case node_at w q of None \<Rightarrow> Inl ENOENT
       | Some (NDir m) \<Rightarrow> if permits w m 256 then Inr (sort (dir_names w q)) else Inl EACCES
       | Some n \<Rightarrow> Inl ENOTDIR) =
     (case node_at w' q of None \<Rightarrow> Inl ENOENT
       | Some (NDir m) \<Rightarrow> if permits w' m 256 then Inr (sort (dir_names w' q)) else Inl EACCES
       | Some n \<Rightarrow> Inl ENOTDIR)" for q
  proof (cases "node_at w q")
    case None
    then show ?thesis using same_shapeD(1) [OF s, of q] by simp
  next
    case (Some n)
    show ?thesis
    proof (cases n)
      case (NFile m bs)
      then show ?thesis using same_shapeD(5) [OF s, of q m bs] Some by auto
    next
      case (NDir m)
      then show ?thesis using same_shapeD(2) [OF s, of q m] same_shapeD(6,7) [OF s] Some by simp
    next
      case (NSymlink t)
      then show ?thesis using same_shapeD(3) [OF s, of q t] Some by simp
    next
      case (NOther m)
      then show ?thesis using same_shapeD(4) [OF s, of q m] Some by simp
    qed
  qed
  then show ?thesis
    using resolve_path_same_shape [OF s, of True p]
    by (cases "resolve_path w' True p") (simp_all add: os_ReadDir_def)
qed

lemma scan_entries_same_shape:
  assumes s: "same_shape w w'"
    and sub: "\<And>subDir st. scanLocalDirectory k w dirSrc subDir fn st = scanLocalDirectory k w' dirSrc subDir fn st"
  shows "scan_entries k w dirSrc subDir names fn st = scan_entries k w' dirSrc subDir names fn st"
proof (induction names arbitrary: st)
  case (Cons n ns)
  let ?p = "Join (Join dirSrc subDir) n"
  note L = os_Lstat_same_shape [OF s, of ?p] and R = os_Readlink_same_shape [OF s]
  show ?case
  proof (cases "os_Lstat w ?p")
    case (Inl e)
    then have "os_Lstat w' ?p = Inl e" using L by (cases "os_Lstat w' ?p") auto
    then show ?thesis using Inl by (simp add: Let_def)
  next
    case (Inr nd)
    then obtain nd' where nd': "os_Lstat w' ?p = Inr nd'" "node_shape nd = node_shape nd'"
      using L by (cases "os_Lstat w' ?p") auto
    show ?thesis
    proof (cases nd)
      case (NFile m bs)
      then obtain bs' where "nd' = NFile m bs'" "length bs = length bs'"
        using nd'(2) by (cases nd') (auto dest: arg_cong [where f = length])
      moreover from this(2) have "bs = [] \<longleftrightarrow> bs' = []" by auto
      ultimately show ?thesis using Inr nd' NFile Cons.IH by (simp add: Let_def split: option.split prod.split sum.split)
    next
      case (NDir m)
      then have "nd' = NDir m" using nd'(2) by (cases nd') auto
      then show ?thesis using Inr nd' NDir Cons.IH sub by (simp add: Let_def split: option.split prod.split sum.split)
    next
      case (NSymlink t)
      then have "nd' = NSymlink t" using nd'(2) by (cases nd') auto
      then show ?thesis using Inr nd' NSymlink Cons.IH R by (simp add: Let_def split: option.split prod.split sum.split)
    next
      case (NOther m)
      then have "nd' = NOther m" using nd'(2) by (cases nd') auto
      then show ?thesis using Inr nd' NOther Cons.IH by (simp add: Let_def split: option.split prod.split sum.split)
    qed
  qed
qed simp

lemma Walk_same_shape:
  assumes s: "same_shape w w'"
  shows "LocalStorage_Walk ls p w = LocalStorage_Walk ls p w'"
proof -
  have "scanLocalDirectory k w dirSrc subDir fn st = scanLocalDirectory k w' dirSrc subDir fn st"
    for k dirSrc subDir st and fn :: "Entry \<Rightarrow> Entry list \<Rightarrow> go_error option \<times> Entry list"
  proof (induction k arbitrary: subDir st)
    case (Suc k)
    show ?case
      using os_ReadDir_same_shape [OF s] scan_entries_same_shape [OF s Suc.IH] by (simp split: sum.split)
  qed simp
  then show ?thesis by (simp add: LocalStorage_Walk_def same_shapeD(8) [OF s])
qed

lemma same_shape_set_file:
  assumes "node_at w q = Some (NFile m xs)" and "length ys = length xs"
  shows "same_shape w (set_node q (NFile m ys) w)"
proof -
  have "map_of (files w) q \<noteq> None"
    using assms(1) by (auto simp: node_at_def split: option.splits if_splits)
  then have "q \<in> fst ` set (files w)" by (simp add: map_of_eq_None_iff)
  then have "map fst (files (set_node q (NFile m ys) w)) = map fst (files w)"
    by (simp add: set_node_def update_keys)
  then show ?thesis using assms by (simp add: same_shape_def)
qed

section \<open>Properties\<close>

text \<open>Claim C11.
  What \<open>VerifyTransfer\<close> checks: for a storage whose walk lists every name of a kind once, it answers
  yes exactly when the walk ends without an error and every entry of the manifest is in the walk
  under its name and kind, with equal permissions, link target, or size and permissions. (Entries
  that the manifest does not name are accepted.)\<close>

theorem VerifyTransfer_iff:
  assumes "st_Walk st [] w = (es, err)"
    and "distinct (map de_Name (dirs_of es))" and "distinct (map se_Name (symlinks_of es))"
    and "distinct (map ee_Name (emptyFiles_of es))" and "distinct (map fe_Name (files_of es))"
  shows "VerifyTransfer cm st w \<longleftrightarrow> err = None \<and>
    (\<forall>d \<in> set (mf_Dirs (cm_manifest cm)). \<exists>t \<in> set (dirs_of es). de_Name t = de_Name d \<and> de_Perm d = de_Perm t) \<and>
    (\<forall>l \<in> set (mf_Symlinks (cm_manifest cm)). \<exists>t \<in> set (symlinks_of es). se_Name t = se_Name l \<and> se_SymlinkTo l = se_SymlinkTo t) \<and>
    (\<forall>f \<in> set (mf_EmptyFiles (cm_manifest cm)). \<exists>t \<in> set (emptyFiles_of es). ee_Name t = ee_Name f \<and> ee_Perm f = ee_Perm t) \<and>
    (\<forall>f \<in> set (mf_Files (cm_manifest cm)). \<exists>t \<in> set (files_of es). fe_Name t = fe_Name f \<and> fe_Size f = fe_Size t \<and> fe_Perm f = fe_Perm t)"
  using VerifyTransfer_walk [OF assms] .

theorem VerifyTransfer_iff_witness:
  "VerifyTransfer demo_manager
     ((local_storage \<lparr>BaseDir = abs_path [''d'']\<rparr>)\<lparr>st_Walk := \<lambda>p w. ([EFile (demo_file\<lparr>fe_Perm := 420\<rparr>)], None)\<rparr>) demo_world"
proof -
  let ?st = "(local_storage \<lparr>BaseDir = abs_path [''d'']\<rparr>)\<lparr>st_Walk := \<lambda>p w. ([EFile (demo_file\<lparr>fe_Perm := 420\<rparr>)], None)\<rparr>"
  have walk: "st_Walk ?st [] demo_world = ([EFile (demo_file\<lparr>fe_Perm := 420\<rparr>)], None)" by simp
  show ?thesis
    using VerifyTransfer_iff [OF walk, of demo_manager]
    by (simp add: kind_of_defs demo_manager_def demo_file_def)
qed



end
