(* ===== verification/Transfer_Flow.thy ===== *)
theory Transfer_Flow
  imports Transfer_Steps
begin

text \<open>
  A whole transfer on the local storage: preparing the destination, writing every chunk and
  committing the permissions, for a manifest of files directly below the base directory.
\<close>

section \<open>Files directly below the base directory\<close>

lemma Split_clean_name: "clean_name n \<Longrightarrow> Split slash n = [n]"
  using Split_join [of "[n]" slash] by (simp add: clean_name_def)

text \<open>The base directory can be searched and changed, and each name below it is free or a file.\<close>

definition base_ready :: "path \<Rightarrow> world \<Rightarrow> bool" where
  "base_ready bs w \<longleftrightarrow> plain w bs \<and>
     (case node_at w bs of Some (NDir m) \<Rightarrow> m AND 448 = 448 | _ \<Rightarrow> False) \<and> umask w AND 384 = 0"

definition free_or_file :: "path \<Rightarrow> world \<Rightarrow> FileEntry \<Rightarrow> bool" where
  "free_or_file bs w f \<longleftrightarrow> clean_name (fe_Name f) \<and> 0 \<le> fe_Size f \<and>
     (case node_at w (bs @ [fe_Name f]) of None \<Rightarrow> True | Some (NFile m xs) \<Rightarrow> True | _ \<Rightarrow> False)"

lemma owner_bits:
  fixes m :: FileMode
  assumes "m AND 448 = 448"
  shows "m AND 64 \<noteq> 0" and "m AND 128 \<noteq> 0"
proof -
  have "bit (m AND 448) 6" "bit (m AND 448) 7" using assms by simp_all
  then have "bit m 6" "bit m 7" by (simp_all add: bit_simps)
  then have "bit (m AND 64) 6" "bit (m AND 128) 7" by (simp_all add: bit_simps)
  then show "m AND 64 \<noteq> 0" "m AND 128 \<noteq> 0" by auto
qed

lemma base_readyE:
  assumes "base_ready bs w"
  obtains m where "plain w bs" "node_at w bs = Some (NDir m)" "m AND 448 = 448" "permits w m 64" "permits w m 128"
  using assms owner_bits by (auto simp: base_ready_def permits_def split: option.splits node.splits)

lemma plain_child:
  assumes "plain w bs" and "node_at w bs = Some (NDir m)" and "permits w m 64" and "clean_name n"
  shows "plain w (bs @ [n])"
  using assms by (auto simp: plain_def less_Suc_eq)

lemma base_ready_hold:
  assumes "base_ready bs w" and "free_or_file bs w f"
  shows "can_hold_file bs w (fe_Name f)"
proof -
  obtain m where m: "plain w bs" "node_at w bs = Some (NDir m)" "permits w m 64" "permits w m 128"
    using assms(1) by (rule base_readyE)
  have n: "clean_name (fe_Name f)" using assms(2) by (simp add: free_or_file_def)
  show ?thesis
    using assms m plain_child [OF m(1-3) n] n
    by (auto simp: can_hold_file_def Split_clean_name free_or_file_def base_ready_def may_change_dir_def
        split: option.splits node.splits)
qed

lemma base_ready_set_file: "base_ready bs w \<Longrightarrow> base_ready bs (set_node (bs @ [n]) (NFile m xs) w)"
  by (auto simp: base_ready_def split: option.splits node.splits intro!: plain_set_node dest!: arg_cong [where f = length])

section \<open>The three phases\<close>

lemma each_entry_append:
  "each_entry f (xs @ ys) w = (case each_entry f xs w of (Some e, w') \<Rightarrow> (Some e, w') | (None, w') \<Rightarrow> each_entry f ys w')"
  by (induction xs arbitrary: w) (auto split: prod.split option.split)

lemma prepare_files:
  assumes "base_ready bs w" and "\<forall>f \<in> set fs. free_or_file bs w f" and "distinct (map fe_Name fs)"
  shows "\<exists>w'. each_entry (LocalStorage_PrepareEntry \<lparr>BaseDir = abs_path bs\<rparr>) (map EFile fs) w = (None, w') \<and>
    base_ready bs w' \<and> prepared bs w' fs \<and>
    (\<forall>p. p \<notin> (\<lambda>f. bs @ [fe_Name f]) ` set fs \<longrightarrow> node_at w' p = node_at w p)"
  using assms
proof (induction fs rule: rev_induct)
  case Nil
  then show ?case by (simp add: prepared_def)
next
  case (snoc f fs)
  obtain w1 where w1: "each_entry (LocalStorage_PrepareEntry \<lparr>BaseDir = abs_path bs\<rparr>) (map EFile fs) w = (None, w1)"
    "base_ready bs w1" "prepared bs w1 fs" "\<forall>p. p \<notin> (\<lambda>f. bs @ [fe_Name f]) ` set fs \<longrightarrow> node_at w1 p = node_at w p"
    using snoc by auto
  let ?q = "bs @ [fe_Name f]"
  have f: "clean_name (fe_Name f)" "0 \<le> fe_Size f" using snoc.prems(2) by (simp_all add: free_or_file_def)
  have new: "fe_Name f \<notin> fe_Name ` set fs" using snoc.prems(3) by auto
  then have new': "fe_Name g \<noteq> fe_Name f" if "g \<in> set fs" for g using imageI [OF that, of fe_Name] by auto
  from new have "?q \<notin> (\<lambda>f. bs @ [fe_Name f]) ` set fs" by auto
  then have "node_at w1 ?q = node_at w ?q" using w1(4) by blast
  then have "free_or_file bs w1 f" using snoc.prems(2) by (simp add: free_or_file_def)
  then have hold: "can_hold_file bs w1 (fe_Name f)" using w1(2) base_ready_hold by blast
  obtain m where eff: "PrepareEntry_file (abs_path ?q) (fe_Size f) w1 =
      (None, set_node ?q (NFile m (resize (nat (fe_Size f)) (old_content w1 ?q))) w1)"
    and m: "permits w1 m 256" "permits w1 m 128"
    using PrepareEntry_file_effect [OF hold f(2)] f(1) by (auto simp: Split_clean_name)
  let ?w = "set_node ?q (NFile m (resize (nat (fe_Size f)) (old_content w1 ?q))) w1"
  obtain d where d: "plain w1 bs" "node_at w1 bs = Some (NDir d)" "permits w1 d 64"
    using w1(2) by (rule base_readyE)
  have plain: "plain ?w (bs @ [n])" if "clean_name n" for n
    using d that base_ready_set_file [OF w1(2)] by (intro plain_child) (auto simp: base_ready_def)
  have join: "Join (abs_path bs) (fe_Name f) = abs_path ?q"
    using Join_name [of w1 bs "fe_Name f"] hold f(1) by (simp add: can_hold_file_def Split_clean_name)
  have "prepared bs ?w [f]"
    using plain [OF f(1)] f m by (simp add: prepared_def ls_content_def ls_writable_def Split_clean_name)
  moreover have "ls_content bs ?w (fe_Name g) = ls_content bs w1 (fe_Name g) \<and>
      ls_writable bs ?w (fe_Name g) = ls_writable bs w1 (fe_Name g)" if g: "g \<in> set fs" for g
  proof -
    have "clean_name (fe_Name g)" "fe_Name g \<noteq> fe_Name f"
      using snoc.prems(2) g new' by (simp_all add: free_or_file_def)
    then show ?thesis
      using plain plain_child [OF d]
      by (simp add: ls_content_def ls_writable_def Split_clean_name split: option.split node.split)
  qed
  ultimately have "prepared bs ?w (fs @ [f])"
    using w1(3) by (auto simp: prepared_def)
  moreover have "LocalStorage_PrepareEntry \<lparr>BaseDir = abs_path bs\<rparr> (EFile f) w1 = (None, ?w)"
    using eff join by (simp add: LocalStorage_PrepareEntry_def)
  ultimately show ?case
    using w1 base_ready_set_file [OF w1(2)]
    by (intro exI [of _ ?w]) (auto simp: each_entry_append)
qed

lemma commit_files:
  assumes "distinct (map fe_Name fs)"
    and "\<forall>f \<in> set fs. clean_name (fe_Name f) \<and> plain w (bs @ [fe_Name f]) \<and>
           (\<exists>m. node_at w (bs @ [fe_Name f]) = Some (NFile m (content f)))"
  shows "\<exists>w'. each_entry (LocalStorage_CommitEntry \<lparr>BaseDir = abs_path bs\<rparr>) (map EFile fs) w = (None, w') \<and>
    (\<forall>p. plain w p \<longrightarrow> plain w' p) \<and>
    (\<forall>f \<in> set fs. node_at w' (bs @ [fe_Name f]) = Some (NFile (fe_Perm f) (content f))) \<and>
    (\<forall>p. p \<notin> (\<lambda>f. bs @ [fe_Name f]) ` set fs \<longrightarrow> node_at w' p = node_at w p)"
  using assms
proof (induction fs rule: rev_induct)
  case (snoc f fs)
  obtain w1 where w1: "each_entry (LocalStorage_CommitEntry \<lparr>BaseDir = abs_path bs\<rparr>) (map EFile fs) w = (None, w1)"
    "\<forall>p. plain w p \<longrightarrow> plain w1 p" "\<forall>f \<in> set fs. node_at w1 (bs @ [fe_Name f]) = Some (NFile (fe_Perm f) (content f))"
    "\<forall>p. p \<notin> (\<lambda>f. bs @ [fe_Name f]) ` set fs \<longrightarrow> node_at w1 p = node_at w p"
    using snoc by auto
  let ?q = "bs @ [fe_Name f]"
  have new: "fe_Name f \<notin> fe_Name ` set fs" using snoc.prems(1) by auto
  then have new': "fe_Name g \<noteq> fe_Name f" if "g \<in> set fs" for g using imageI [OF that, of fe_Name] by auto
  from new have "?q \<notin> (\<lambda>f. bs @ [fe_Name f]) ` set fs" by auto
  then have same: "node_at w1 ?q = node_at w ?q" using w1(4) by blast
  obtain m where m: "node_at w1 ?q = Some (NFile m (content f))" and f: "clean_name (fe_Name f)" and p: "plain w1 ?q"
    using snoc.prems(2) same w1(2) by auto
  have join: "Join (abs_path bs) (fe_Name f) = abs_path ?q"
    using Join_name [of w1 bs "fe_Name f"] p f by (simp add: Split_clean_name)
  let ?w = "set_node ?q (NFile (fe_Perm f) (content f)) w1"
  have "LocalStorage_CommitEntry \<lparr>BaseDir = abs_path bs\<rparr> (EFile f) w1 = (None, ?w)"
    using os_Chmod_plain [OF p m] join by (simp add: LocalStorage_CommitEntry_def is_link_def)
  moreover have "\<forall>p. plain w p \<longrightarrow> plain ?w p" using w1(2) plain_set_file [OF _ m] by blast
  ultimately show ?case
    using w1(1,3,4) new' by (intro exI [of _ ?w]) (auto simp: each_entry_append)
qed simp

section \<open>Properties\<close>

lemma ls_content_node:
  assumes "ls_content bs w n = Some xs" and "clean_name n"
  shows "plain w (bs @ [n]) \<and> (\<exists>m. node_at w (bs @ [n]) = Some (NFile m xs))"
  using assms by (auto elim: ls_content_SomeD simp: Split_clean_name)

lemma map_EFile_left:
  "each_entry (LocalStorage_CommitEntry ls) (map EFile (files_left tot fs ps)) w =
   each_entry (LocalStorage_CommitEntry ls) (map EFile fs) w"
proof -
  have commit: "LocalStorage_CommitEntry ls (EFile (f\<lparr>fe_remainingChunkCount := n\<rparr>)) = LocalStorage_CommitEntry ls (EFile f)" for f n
    by (simp add: LocalStorage_CommitEntry_def fun_eq_iff)
  have "each_entry (LocalStorage_CommitEntry ls) (map (\<lambda>j. EFile ((fs ! j)\<lparr>fe_remainingChunkCount := n j\<rparr>)) js) w =
      each_entry (LocalStorage_CommitEntry ls) (map (\<lambda>j. EFile (fs ! j)) js) w" for js n
    by (induction js arbitrary: w) (auto simp: commit split: prod.split option.split)
  moreover have "map EFile fs = map (\<lambda>j. EFile (fs ! j)) [0..<length fs]"
    by (intro nth_equalityI) simp_all
  ultimately show ?thesis by (simp add: files_left_def comp_def)
qed

text \<open>Writes of chunks keep the lengths of the files.\<close>

lemma WriteChunks_keeps_sizes:
  assumes cm: "built_manager C m cm" and src: "map (\<lambda>bs. int (length bs)) src = map fe_Size (cm_Files cm)"
    and prep: "prepared bs w (cm_Files cm)"
    and dist: "distinct (map fst ds)" and d: "\<forall>d \<in> set ds. delivers hash src (cm_chunks cm) d"
    and run: "WriteChunks hash (local_storage \<lparr>BaseDir = abs_path bs\<rparr>) ds cm w = (results, complete, cm', w')"
    and j: "j < length (cm_Files cm)"
  shows "\<exists>xs. ls_content bs w' (fe_Name (cm_Files cm ! j)) = Some xs \<and> int (length xs) = fe_Size (cm_Files cm ! j)"
proof -
  note B = built_managerD [OF cm]
  have S: "local.sources (cm_Files cm) src" using B(5) src by (simp add: local.sources_def)
  have "local.copied bs (cm_Files cm) src (flat_ranges (map ((!) (cm_chunks cm)) (map fst ds))) w'"
    using local.WriteChunks_copies [OF S B(1) refl, of "[]" bs w ds hash] B(2) prepared_copied [OF prep S] d dist run by auto
  then show ?thesis using j local.sourcesD(2) [OF S j] by (fastforce simp: local.copied_def)
qed

text \<open>
  Preparing, writing any of the chunks in any order, and committing: nothing fails, the files have their
  final lengths and permissions, and those whose chunks were all written have their contents.
\<close>

lemma partial_transfer:
  assumes cm: "built_manager chunkSize maxFiles cm"
    and flat: "mf_Dirs (cm_manifest cm) = []" "mf_Symlinks (cm_manifest cm) = []" "mf_EmptyFiles (cm_manifest cm) = []"
    and target: "base_ready bs' w" "\<forall>f \<in> set (cm_Files cm). free_or_file bs' w f"
    and src: "map (\<lambda>bs. int (length bs)) src = map fe_Size (cm_Files cm)"
    and dist: "distinct (map fst ds)" and d: "\<forall>d \<in> set ds. delivers hash src (cm_chunks cm) d"
  shows "\<exists>w1 results complete cm' w2 w3.
    SetupTransfer cm (local_storage \<lparr>BaseDir = abs_path bs'\<rparr>) w = (None, w1) \<and>
    WriteChunks hash (local_storage \<lparr>BaseDir = abs_path bs'\<rparr>) ds cm w1 = (results, complete, cm', w2) \<and>
    (\<forall>r \<in> set results. snd r = None) \<and> GetFileCount cm' = GetFileCount cm \<and>
    CompleteTransfer cm' (local_storage \<lparr>BaseDir = abs_path bs'\<rparr>) w2 = (None, w3) \<and>
    (\<forall>j < length (cm_Files cm). let f = cm_Files cm ! j in
       \<exists>xs. node_at w3 (bs' @ [fe_Name f]) = Some (NFile (fe_Perm f) xs) \<and> int (length xs) = fe_Size f \<and>
         (all_chunks_in (cm_chunks cm) (map fst ds) j \<longrightarrow> xs = src ! j))"
proof -
  let ?fs = "cm_Files cm" and ?st = "local_storage \<lparr>BaseDir = abs_path bs'\<rparr>"
  note B = built_managerD [OF cm]
  obtain m where m: "plain w bs'" "node_at w bs' = Some (NDir m)" "m AND 448 = 448"
    using target(1) by (rule base_readyE)
  have prep: "LocalStorage_Prepare \<lparr>BaseDir = abs_path bs'\<rparr> w = (None, w)"
    using m by (simp add: LocalStorage_Prepare_def os_Stat_plain is_link_def)
  obtain w1 where w1: "each_entry (LocalStorage_PrepareEntry \<lparr>BaseDir = abs_path bs'\<rparr>) (map EFile ?fs) w = (None, w1)"
    "base_ready bs' w1" "prepared bs' w1 ?fs"
    using prepare_files [OF target B(5)] by blast
  have setup_ok: "SetupTransfer cm ?st w = (None, w1)"
    using prep w1(1) flat by (simp add: SetupTransfer_def local_storage_def Let_def)
  obtain js cm' w2 where run: "WriteChunks hash ?st ds cm w1 =
      (map (\<lambda>d. (Chunk_Size (cm_chunks cm ! fst d), None)) ds,
       map (\<lambda>j. (Join (abs_path bs') (fe_Name (?fs ! j)), fe_Size (?fs ! j))) js, cm', w2)"
    "\<forall>j < length ?fs. all_chunks_in (cm_chunks cm) (map fst ds) j \<longrightarrow> ls_content bs' w2 (fe_Name (?fs ! j)) = Some (src ! j)"
    "cm' = set_Files (files_left (range_count (cm_chunks cm)) ?fs (flat_ranges (map ((!) (cm_chunks cm)) (map fst ds)))) cm"
    using WriteChunks_built [OF cm src w1(3) dist d] by blast
  note sizes = WriteChunks_keeps_sizes [OF cm src w1(3) dist d run(1)]
  define content where "content = (\<lambda>f :: FileEntry. the (ls_content bs' w2 (fe_Name f)))"
  have at: "ls_content bs' w2 (fe_Name (?fs ! j)) = Some (content (?fs ! j))" if "j < length ?fs" for j
    using sizes [OF that] by (auto simp: content_def)
  have "clean_name (fe_Name f) \<and> plain w2 (bs' @ [fe_Name f]) \<and> (\<exists>m. node_at w2 (bs' @ [fe_Name f]) = Some (NFile m (content f)))"
    if f: "f \<in> set ?fs" for f
  proof -
    have "clean_name (fe_Name f)" using f target(2) by (simp add: free_or_file_def)
    moreover have "ls_content bs' w2 (fe_Name f) = Some (content f)" using f at by (auto simp: in_set_conv_nth)
    ultimately show ?thesis using ls_content_node by blast
  qed
  then obtain w3 where w3: "each_entry (LocalStorage_CommitEntry \<lparr>BaseDir = abs_path bs'\<rparr>) (map EFile ?fs) w2 = (None, w3)"
    "\<forall>f \<in> set ?fs. node_at w3 (bs' @ [fe_Name f]) = Some (NFile (fe_Perm f) (content f))"
    using commit_files [OF B(5)] by blast
  have "CompleteTransfer cm' ?st w2 = (None, w3)"
    using w3(1) flat by (simp add: run(3) CompleteTransfer_def local_storage_def Let_def set_Files_def map_EFile_left)
  moreover have "GetFileCount cm' = GetFileCount cm" by (simp add: run(3) GetFileCount_def set_Files_def files_left_def)
  moreover have "let f = ?fs ! j in \<exists>xs. node_at w3 (bs' @ [fe_Name f]) = Some (NFile (fe_Perm f) xs) \<and>
      int (length xs) = fe_Size f \<and> (all_chunks_in (cm_chunks cm) (map fst ds) j \<longrightarrow> xs = src ! j)" if j: "j < length ?fs" for j
    using w3(2) at [OF j] sizes [OF j] run(2) j by (auto simp: Let_def)
  moreover have "\<forall>r \<in> set (map (\<lambda>d. (Chunk_Size (cm_chunks cm ! fst d), None :: go_error option)) ds). snd r = None"
    by simp
  ultimately show ?thesis using setup_ok run(1) by blast
qed

text \<open>Claim C13.
  A whole transfer of a directory of files. The manifest names files directly below the base
  directory and nothing else; at the destination the base directory exists, may be entered and
  changed by its owner, and under each name there is nothing or a file, of any length, content and
  permissions. Then \<open>SetupTransfer\<close> succeeds; when the chunks that the source serves are written to
  it in any order, each once, every write succeeds; \<open>CompleteTransfer\<close> then succeeds too; and every
  file of the manifest is at the destination with the permissions of the manifest and the content
  it has at the source.\<close>

theorem directory_transfer:
  assumes cm: "built_manager chunkSize maxFiles cm"
    and flat: "mf_Dirs (cm_manifest cm) = []" "mf_Symlinks (cm_manifest cm) = []" "mf_EmptyFiles (cm_manifest cm) = []"
    and empty: "cm_chunkChecksums cm = replicate (length (cm_chunks cm)) 0"
    and source: "readable bs v (cm_Files cm)"
    and target: "base_ready bs' w" "\<forall>f \<in> set (cm_Files cm). free_or_file bs' w f"
    and order: "distinct order" "set order = {..<length (cm_chunks cm)}"
  shows "\<exists>w1 ds results complete cm' w2 w3.
    SetupTransfer cm (local_storage \<lparr>BaseDir = abs_path bs'\<rparr>) w = (None, w1) \<and>
    map (serve_chunk hash (local_storage \<lparr>BaseDir = abs_path bs\<rparr>) v cm) order = map Some ds \<and>
    WriteChunks hash (local_storage \<lparr>BaseDir = abs_path bs'\<rparr>) ds cm w1 = (results, complete, cm', w2) \<and>
    (\<forall>r \<in> set results. snd r = None) \<and>
    CompleteTransfer cm' (local_storage \<lparr>BaseDir = abs_path bs'\<rparr>) w2 = (None, w3) \<and>
    (\<forall>f \<in> set (cm_Files cm). \<exists>xs. ls_content bs v (fe_Name f) = Some xs \<and>
       node_at w3 (bs' @ [fe_Name f]) = Some (NFile (fe_Perm f) xs))"
proof -
  let ?fs = "cm_Files cm" and ?cs = "cm_chunks cm"
  let ?src = "map (\<lambda>f. the (ls_content bs v (fe_Name f))) ?fs"
  let ?d = "\<lambda>i. (i, hash (chunk_data ?src (?cs ! i)), \<lparr>rd_data = chunk_data ?src (?cs ! i), rd_fin = EOF\<rparr>)"
  note B = built_managerD [OF cm] and H = readable_holds [OF source]
  have serve: "map (serve_chunk hash (local_storage \<lparr>BaseDir = abs_path bs\<rparr>) v cm) order = map Some (map ?d order)"
    using serve_chunk_data [OF B(1) _ empty H(1)] order(2) by auto
  have deliv: "\<forall>d \<in> set (map ?d order). delivers hash ?src ?cs d"
    using order(2) by (auto simp: delivers_def Let_def)
  have dist: "distinct (map fst (map ?d order))" using order(1) by (simp add: comp_def)
  obtain w1 results complete cm' w2 w3 where run:
    "SetupTransfer cm (local_storage \<lparr>BaseDir = abs_path bs'\<rparr>) w = (None, w1)"
    "WriteChunks hash (local_storage \<lparr>BaseDir = abs_path bs'\<rparr>) (map ?d order) cm w1 = (results, complete, cm', w2)"
    "\<forall>r \<in> set results. snd r = None"
    "CompleteTransfer cm' (local_storage \<lparr>BaseDir = abs_path bs'\<rparr>) w2 = (None, w3)"
    and all: "\<forall>j < length ?fs. let f = ?fs ! j in
       \<exists>xs. node_at w3 (bs' @ [fe_Name f]) = Some (NFile (fe_Perm f) xs) \<and> int (length xs) = fe_Size f \<and>
         (all_chunks_in ?cs (map fst (map ?d order)) j \<longrightarrow> xs = ?src ! j)"
    using partial_transfer [OF cm flat target H(2) dist deliv] by blast
  have "\<exists>xs. ls_content bs v (fe_Name f) = Some xs \<and> node_at w3 (bs' @ [fe_Name f]) = Some (NFile (fe_Perm f) xs)"
    if f: "f \<in> set ?fs" for f
  proof -
    obtain j where j: "j < length ?fs" "f = ?fs ! j" using f by (auto simp: in_set_conv_nth)
    have "all_chunks_in ?cs (map fst (map ?d order)) j" using order(2) by (auto simp: all_chunks_in_def)
    then have "node_at w3 (bs' @ [fe_Name f]) = Some (NFile (fe_Perm f) (?src ! j))" using all j by (auto simp: Let_def)
    then show ?thesis using H(1) j by (auto simp: local.holds_def)
  qed
  with run serve show ?thesis by blast
qed

definition demo_world_other :: world where
  "demo_world_other = \<lparr>files = [([''d''], NDir 493)], cwd = [], umask = 18, superuser = False\<rparr>"

theorem directory_transfer_witness:
  "\<exists>w1 ds results complete cm' w2 w3.
    SetupTransfer demo_manager (local_storage \<lparr>BaseDir = abs_path [''d'']\<rparr>) demo_world_other = (None, w1) \<and>
    map (serve_chunk (\<lambda>_. 0) (local_storage \<lparr>BaseDir = abs_path [''d'']\<rparr>) demo_world_rw demo_manager) [1, 0] = map Some ds \<and>
    WriteChunks (\<lambda>_. 0) (local_storage \<lparr>BaseDir = abs_path [''d'']\<rparr>) ds demo_manager w1 = (results, complete, cm', w2) \<and>
    CompleteTransfer cm' (local_storage \<lparr>BaseDir = abs_path [''d'']\<rparr>) w2 = (None, w3) \<and>
    node_at w3 [''d'', ''f''] = Some (NFile 420 [1, 2, 3, 4, 5])"
proof -
  have files: "cm_Files demo_manager = [demo_file]" "fe_Name demo_file = ''f''" "fe_Perm demo_file = 420" "fe_Size demo_file = 5"
    by (simp_all add: demo_manager_def demo_file_def)
  have flat: "mf_Dirs (cm_manifest demo_manager) = []" "mf_Symlinks (cm_manifest demo_manager) = []"
    "mf_EmptyFiles (cm_manifest demo_manager) = []"
    by (simp_all add: demo_manager_def)
  have sums: "cm_chunkChecksums demo_manager = replicate (length (cm_chunks demo_manager)) 0"
    by (simp add: demo_manager_def)
  have src: "readable [''d''] demo_world_rw (cm_Files demo_manager)"
    using demo_prepared by (auto simp: readable_def prepared_def)
  have base: "base_ready [''d''] demo_world_other"
    by (simp add: base_ready_def plain_def demo_world_other_def node_at_def permits_def clean_name_def)
  have free: "\<forall>f \<in> set (cm_Files demo_manager). free_or_file [''d''] demo_world_other f"
    by (simp add: files free_or_file_def demo_world_other_def node_at_def clean_name_def)
  have order: "distinct [1, 0 :: nat]" "set [1, 0] = {..<length (cm_chunks demo_manager)}"
    by (auto simp: demo_manager_def)
  show ?thesis
    using directory_transfer [OF demo_built flat sums src base free order, of "\<lambda>_. 0"]
    by (simp add: files demo_rw_content del: WriteChunks.simps list.map) blast
qed

end
