(* ===== verification/Downloader.thy ===== *)
theory Downloader
  imports Chunk_Queue Chunk_Manager
begin

text \<open>
  File \<open>downloader.go\<close>: \<open>execDownloader\<close>, which runs one dispatcher and several workers for every
  source of chunks (the local source directory, or a peer), and \<open>PeerDownloaders\<close>, which starts and
  stops the downloaders of peers. All downloaders of the program share the chunk list, whose status
  cells decide which of them transfers a chunk.

  The model is a step relation in which every operation on shared or atomic data (a load, a store, a
  compare-and-swap, a locked queue operation, a channel operation) is a step of its own, so that the
  operations of all goroutines interleave in every possible way.
\<close>

section \<open>The state\<close>

text \<open>What is shared: the chunk list, the download context, \<open>Completed\<close> and the clock.\<close>

record shared =
  sh_chunks :: "Chunk list"
  sh_cancelled :: bool
  sh_completed :: bool
  sh_now :: time

text \<open>
  Where the dispatcher of \<open>execDownloader\<close> is: before the check for an empty chunk list, at the top of
  its loop, past each of the three checks, holding a popped index, holding it with the status it has
  read, sending it to a worker, in the three operations of \<open>CompleteOne\<close>, or out of the loop with the
  channel closed.
\<close>

datatype dispatcher =
    Starting
  | AtTop
  | CheckCtx
  | CheckReady
  | PopQueue
  | Popped nat
  | Loaded nat ChunkStatus
  | Sending nat
  | Counting nat
  | Comparing
  | Cancelling
  | Completing
  | Finished

text \<open>
  Where a worker is: before it says that it is ready, waiting for the channel, with a received index,
  transferring (request and \<open>WriteChunk\<close>), after a transfer at time \<open>t1\<close>, between the two stores of
  \<open>SetChunkStatusDone\<close>, in \<open>CompleteOne\<close>, after a failed transfer, before it puts the index back,
  after the channel was closed, and gone.
\<close>

datatype worker =
    WStart
  | WWaiting
  | WReceived nat
  | WRunning nat
  | WWritten nat time
  | WStamp nat time
  | WCounting nat
  | WComparing
  | WCancelling
  | WCompleting
  | WFailed nat
  | WRequeue nat
  | WClosed
  | WExited

text \<open>
  One call of \<open>execDownloader\<close> with its downloader: the queue, the chunks that were ever pushed to it
  as available, the dispatcher, the workers, the number of ready workers, and the chunks that
  \<open>CompleteOne\<close> counted, of which the code keeps the number only (\<open>numCompleted\<close>). \<open>d_valid\<close> is the
  answer of \<open>IsValid\<close>.
\<close>

record dl =
  d_queue :: ChunkQueue
  d_available :: "nat list"
  d_dispatcher :: dispatcher
  d_workers :: "worker list"
  d_ready :: int
  d_counted :: "nat list"
  d_valid :: bool

abbreviation numCompleted :: "dl \<Rightarrow> nat" where
  "numCompleted d \<equiv> length (d_counted d)"

section \<open>The steps of execDownloader\<close>

definition set_status :: "nat \<Rightarrow> ChunkStatus \<Rightarrow> shared \<Rightarrow> shared" where
  "set_status i s sh = sh\<lparr>sh_chunks := (sh_chunks sh)[i := Chunk_SetStatus s (sh_chunks sh ! i)]\<rparr>"

definition goto :: "dispatcher \<Rightarrow> dl \<Rightarrow> dl" where
  "goto pc d = d\<lparr>d_dispatcher := pc\<rparr>"

definition put_back :: "nat \<Rightarrow> dl \<Rightarrow> dl" where
  "put_back i d = d\<lparr>d_queue := PushBack i (d_queue d)\<rparr>"

text \<open>
  The dispatcher. \<open>None\<close> is a dispatcher that cannot move on its own: it is sending, it has left the
  loop, or it was given an index that is not in the chunk list, which panics.
\<close>

fun dispatch :: "shared \<Rightarrow> dl \<Rightarrow> (shared \<times> dl) option" where
  "dispatch sh d =
     (case d_dispatcher d of
        Starting \<Rightarrow> Some (sh, goto (if length (sh_chunks sh) = 0 then Cancelling else AtTop) d)
      | AtTop \<Rightarrow> Some (sh, goto (if d_valid d then CheckCtx else Finished) d)
      | CheckCtx \<Rightarrow> Some (sh, goto (if sh_cancelled sh then Finished else CheckReady) d)
      | CheckReady \<Rightarrow> Some (sh, goto (if d_ready d = 0 then AtTop else PopQueue) d)
      | PopQueue \<Rightarrow>
          (case Pop (d_queue d) of
             ((i, True), q) \<Rightarrow> Some (sh, goto (Popped i) (d\<lparr>d_queue := q\<rparr>))
           | ((i, False), q) \<Rightarrow> Some (sh, goto AtTop d))
      | Popped i \<Rightarrow>
          if i < length (sh_chunks sh)
          then Some (sh, goto (Loaded i (Chunk_GetStatus (sh_chunks sh ! i))) d) else None
      | Loaded i ChunkStatusPending \<Rightarrow>
          (case Chunk_UpdateStatus ChunkStatusPending ChunkStatusDownloading (sh_chunks sh ! i) of
             (True, c) \<Rightarrow> Some (sh\<lparr>sh_chunks := (sh_chunks sh)[i := c]\<rparr>, goto (Sending i) d)
           | (False, c) \<Rightarrow> Some (sh, goto AtTop (put_back i d)))
      | Loaded i ChunkStatusDownloading \<Rightarrow> Some (sh, goto AtTop (put_back i d))
      | Loaded i ChunkStatusDone \<Rightarrow> Some (sh, goto (Counting i) d)
      | Counting i \<Rightarrow> Some (sh, goto Comparing (d\<lparr>d_counted := d_counted d @ [i]\<rparr>))
      | Comparing \<Rightarrow> Some (sh, goto (if numCompleted d = length (sh_chunks sh) then Cancelling else AtTop) d)
      | Cancelling \<Rightarrow> Some (sh\<lparr>sh_cancelled := True\<rparr>, goto Completing d)
      | Completing \<Rightarrow> Some (sh\<lparr>sh_completed := True\<rparr>, goto AtTop d)
      | Sending i \<Rightarrow> None
      | Finished \<Rightarrow> None)"

definition set_worker :: "nat \<Rightarrow> worker \<Rightarrow> dl \<Rightarrow> dl" where
  "set_worker k w d = d\<lparr>d_workers := (d_workers d)[k := w]\<rparr>"

text \<open>
  Worker \<open>k\<close>. The result \<open>ok\<close> of a transfer comes from the network and the storage. A waiting worker
  moves on its own only when the channel has been closed.
\<close>

fun work :: "bool \<Rightarrow> nat \<Rightarrow> shared \<Rightarrow> dl \<Rightarrow> (shared \<times> dl) option" where
  "work ok k sh d =
     (case d_workers d ! k of
        WStart \<Rightarrow> Some (sh, set_worker k WWaiting (d\<lparr>d_ready := d_ready d + 1\<rparr>))
      | WWaiting \<Rightarrow> if d_dispatcher d = Finished then Some (sh, set_worker k WClosed d) else None
      | WReceived i \<Rightarrow> Some (sh, set_worker k (WRunning i) (d\<lparr>d_ready := d_ready d - 1\<rparr>))
      | WRunning i \<Rightarrow> Some (sh, set_worker k (if ok then WWritten i (sh_now sh) else WFailed i) d)
      | WWritten i t1 \<Rightarrow> Some (set_status i ChunkStatusDone sh, set_worker k (WStamp i t1) d)
      | WStamp i t1 \<Rightarrow>
          Some (sh\<lparr>sh_chunks := (sh_chunks sh)[i := Chunk_SetUpdatedAt t1 (sh_chunks sh ! i)]\<rparr>,
                set_worker k (WCounting i) d)
      | WCounting i \<Rightarrow> Some (sh, set_worker k WComparing (d\<lparr>d_counted := d_counted d @ [i]\<rparr>))
      | WComparing \<Rightarrow>
          Some (sh, set_worker k (if numCompleted d = length (sh_chunks sh) then WCancelling else WStart) d)
      | WCancelling \<Rightarrow> Some (sh\<lparr>sh_cancelled := True\<rparr>, set_worker k WCompleting d)
      | WCompleting \<Rightarrow> Some (sh\<lparr>sh_completed := True\<rparr>, set_worker k WStart d)
      | WFailed i \<Rightarrow> Some (set_status i ChunkStatusPending sh, set_worker k (WRequeue i) d)
      | WRequeue i \<Rightarrow> Some (sh, set_worker k WStart (put_back i d))
      | WClosed \<Rightarrow> Some (sh, set_worker k WExited (d\<lparr>d_ready := d_ready d - 1\<rparr>))
      | WExited \<Rightarrow> None)"

text \<open>The channel: a sending dispatcher meets a waiting worker.\<close>

definition handoff :: "nat \<Rightarrow> dl \<Rightarrow> dl option" where
  "handoff k d =
     (case (d_dispatcher d, d_workers d ! k) of
        (Sending i, WWaiting) \<Rightarrow> Some (goto AtTop (set_worker k (WReceived i) d))
      | _ \<Rightarrow> None)"

section \<open>Downloaders that start, learn of chunks and stop\<close>

definition new_dl :: "nat \<Rightarrow> dl" where
  "new_dl numConcurrent =
     \<lparr>d_queue = NewChunkQueue, d_available = [], d_dispatcher = Starting, d_workers = replicate numConcurrent WStart,
      d_ready = 0, d_counted = [], d_valid = True\<rparr>"

text \<open>
  Chunks that become available at a source: those that were not available before, each once, are
  pushed to the queue in a random order. A local downloader learns of all chunks when it is made, a
  peer downloader when it has read the list of the peer (\<open>UpdatePeerAvailableList\<close>).
\<close>

fun mark_ready :: "nat list \<Rightarrow> nat list \<Rightarrow> nat list" where
  "mark_ready av [] = []"
| "mark_ready av (i # is) = (if i \<in> set av then mark_ready av is else i # mark_ready (av @ [i]) is)"

definition announce :: "(nat \<Rightarrow> nat) \<Rightarrow> nat list \<Rightarrow> dl \<Rightarrow> dl" where
  "announce draw is d =
     (let indexList = mark_ready (d_available d) is in
      d\<lparr>d_available := d_available d @ indexList, d_queue := PushShuffledList draw indexList (d_queue d)\<rparr>)"

section \<open>The program\<close>

record system =
  sy_shared :: shared
  sy_dls :: "dl list"

text \<open>
  The steps. \<open>cancel\<close> is the cancellation of the download context from outside (the idle timeout, a
  peer with another manifest, the end of the program); \<open>stop\<close> is \<open>Fin\<close> of a peer downloader or its
  discovery that the peer is itself, after which \<open>IsValid\<close> is false.
\<close>

inductive step :: "system \<Rightarrow> system \<Rightarrow> bool" where
  dispatcher: "j < length dls \<Longrightarrow> dispatch sh (dls ! j) = Some (sh', d) \<Longrightarrow>
     step \<lparr>sy_shared = sh, sy_dls = dls\<rparr> \<lparr>sy_shared = sh', sy_dls = dls[j := d]\<rparr>"
| worker: "j < length dls \<Longrightarrow> k < length (d_workers (dls ! j)) \<Longrightarrow> work ok k sh (dls ! j) = Some (sh', d) \<Longrightarrow>
     step \<lparr>sy_shared = sh, sy_dls = dls\<rparr> \<lparr>sy_shared = sh', sy_dls = dls[j := d]\<rparr>"
| channel: "j < length dls \<Longrightarrow> k < length (d_workers (dls ! j)) \<Longrightarrow> handoff k (dls ! j) = Some d \<Longrightarrow>
     step \<lparr>sy_shared = sh, sy_dls = dls\<rparr> \<lparr>sy_shared = sh, sy_dls = dls[j := d]\<rparr>"
| announce: "j < length dls \<Longrightarrow> \<forall>i \<in> set is. i < length (sh_chunks sh) \<Longrightarrow>
     step \<lparr>sy_shared = sh, sy_dls = dls\<rparr> \<lparr>sy_shared = sh, sy_dls = dls[j := announce draw is (dls ! j)]\<rparr>"
| start: "step \<lparr>sy_shared = sh, sy_dls = dls\<rparr> \<lparr>sy_shared = sh, sy_dls = dls @ [new_dl n]\<rparr>"
| stop: "j < length dls \<Longrightarrow>
     step \<lparr>sy_shared = sh, sy_dls = dls\<rparr> \<lparr>sy_shared = sh, sy_dls = dls[j := (dls ! j)\<lparr>d_valid := False\<rparr>]\<rparr>"
| cancel: "step \<lparr>sy_shared = sh, sy_dls = dls\<rparr> \<lparr>sy_shared = sh\<lparr>sh_cancelled := True\<rparr>, sy_dls = dls\<rparr>"
| tick: "sh_now sh \<le> t \<Longrightarrow>
     step \<lparr>sy_shared = sh, sy_dls = dls\<rparr> \<lparr>sy_shared = sh\<lparr>sh_now := t\<rparr>, sy_dls = dls\<rparr>"

text \<open>The program starts with fresh chunks and no downloader.\<close>

definition initial :: "Chunk list \<Rightarrow> time \<Rightarrow> system" where
  "initial cs t =
     \<lparr>sy_shared = \<lparr>sh_chunks = cs, sh_cancelled = False, sh_completed = False, sh_now = t\<rparr>, sy_dls = []\<rparr>"

inductive reachable :: "Chunk list \<Rightarrow> system \<Rightarrow> bool" for cs where
  init: "\<forall>c \<in> set cs. fresh_chunk c \<Longrightarrow> reachable cs (initial cs t)"
| step: "reachable cs s \<Longrightarrow> step s s' \<Longrightarrow> reachable cs s'"

end
