(* ===== verification/Downloader_Invariants.thy ===== *)
theory Downloader_Invariants
  imports Downloader
begin

text \<open>
  The invariant of the downloaders: every chunk index is in one place per downloader, a chunk that
  is being downloaded has exactly one owner in the whole program, a chunk that is done stays done,
  and \<open>Completed\<close> is set only when all chunks are done.
\<close>

section \<open>Where the indices are\<close>

fun dispatcher_holds :: "dispatcher \<Rightarrow> nat multiset" where
  "dispatcher_holds (Popped i) = {#i#}"
| "dispatcher_holds (Loaded i s) = {#i#}"
| "dispatcher_holds (Sending i) = {#i#}"
| "dispatcher_holds (Counting i) = {#i#}"
| "dispatcher_holds _ = {#}"

fun worker_holds :: "worker \<Rightarrow> nat multiset" where
  "worker_holds (WReceived i) = {#i#}"
| "worker_holds (WRunning i) = {#i#}"
| "worker_holds (WWritten i t) = {#i#}"
| "worker_holds (WStamp i t) = {#i#}"
| "worker_holds (WCounting i) = {#i#}"
| "worker_holds (WFailed i) = {#i#}"
| "worker_holds (WRequeue i) = {#i#}"
| "worker_holds _ = {#}"

text \<open>The indices of a downloader that are not counted: queued, or in the hands of a goroutine.\<close>

definition pending :: "dl \<Rightarrow> nat multiset" where
  "pending d = mset (d_queue d) + dispatcher_holds (d_dispatcher d) + sum_list (map worker_holds (d_workers d))"

text \<open>The owners of chunks: those who have set the status to downloading and not yet given it up.\<close>

fun dispatcher_owns :: "dispatcher \<Rightarrow> nat multiset" where
  "dispatcher_owns (Sending i) = {#i#}"
| "dispatcher_owns _ = {#}"

fun worker_owns :: "worker \<Rightarrow> nat multiset" where
  "worker_owns (WReceived i) = {#i#}"
| "worker_owns (WRunning i) = {#i#}"
| "worker_owns (WWritten i t) = {#i#}"
| "worker_owns (WFailed i) = {#i#}"
| "worker_owns _ = {#}"

definition owns :: "dl \<Rightarrow> nat multiset" where
  "owns d = dispatcher_owns (d_dispatcher d) + sum_list (map worker_owns (d_workers d))"

definition owners :: "system \<Rightarrow> nat multiset" where
  "owners s = sum_list (map owns (sy_dls s))"

definition status_of :: "shared \<Rightarrow> nat \<Rightarrow> ChunkStatus" where
  "status_of sh i = Chunk_GetStatus (sh_chunks sh ! i)"

definition all_done :: "shared \<Rightarrow> bool" where
  "all_done sh \<longleftrightarrow> (\<forall>i < length (sh_chunks sh). status_of sh i = ChunkStatusDone)"

text \<open>The chunks that a goroutine takes to be done.\<close>

fun dispatcher_done :: "dispatcher \<Rightarrow> nat set" where
  "dispatcher_done (Loaded i ChunkStatusDone) = {i}"
| "dispatcher_done (Counting i) = {i}"
| "dispatcher_done _ = {}"

fun worker_done :: "worker \<Rightarrow> nat set" where
  "worker_done (WStamp i t) = {i}"
| "worker_done (WCounting i) = {i}"
| "worker_done _ = {}"

definition done_claims :: "dl \<Rightarrow> nat set" where
  "done_claims d = set (d_counted d) \<union> dispatcher_done (d_dispatcher d) \<union> \<Union> (worker_done ` set (d_workers d))"

definition finishing :: "dl \<Rightarrow> bool" where
  "finishing d \<longleftrightarrow> d_dispatcher d \<in> {Cancelling, Completing} \<or> WCancelling \<in> set (d_workers d) \<or> WCompleting \<in> set (d_workers d)"

definition dl_ok :: "shared \<Rightarrow> dl \<Rightarrow> bool" where
  "dl_ok sh d \<longleftrightarrow>
     pending d + mset (d_counted d) = mset (d_available d) \<and> distinct (d_available d) \<and>
     (\<forall>i \<in> set (d_available d). i < length (sh_chunks sh)) \<and>
     (\<forall>i \<in> done_claims d. status_of sh i = ChunkStatusDone) \<and> (finishing d \<longrightarrow> all_done sh)"

definition system_ok :: "system \<Rightarrow> bool" where
  "system_ok s \<longleftrightarrow>
     (\<forall>d \<in> set (sy_dls s). dl_ok (sy_shared s) d) \<and>
     (\<forall>i. count (owners s) i =
        (if i < length (sh_chunks (sy_shared s)) \<and> status_of (sy_shared s) i = ChunkStatusDownloading then 1 else 0)) \<and>
     (sh_completed (sy_shared s) \<longrightarrow> all_done (sy_shared s))"

section \<open>Sums over the workers\<close>

lemma sum_list_update_mset:
  fixes f :: "'a \<Rightarrow> 'b multiset"
  assumes "k < length xs"
  shows "sum_list (map f (xs[k := y])) + f (xs ! k) = sum_list (map f xs) + f y"
  using assms
proof (induction xs arbitrary: k)
  case (Cons x xs)
  show ?case
  proof (cases k)
    case (Suc k')
    then have "sum_list (map f (xs[k' := y])) + f (xs ! k') = sum_list (map f xs) + f y"
      using Cons by simp
    then show ?thesis using Suc by (simp add: add.assoc)
  qed (simp add: ac_simps)
qed simp

lemma sum_list_member_mset: "k < length xs \<Longrightarrow> f (xs ! k) \<subseteq># (sum_list (map f xs) :: 'b multiset)"
proof (induction xs arbitrary: k)
  case (Cons x xs)
  then show ?case
    by (cases k) (auto simp: subset_mset.add_increasing subset_mset.add_increasing2)
qed simp

lemma sum_list_empty_mset: "(\<And>x. x \<in> set xs \<Longrightarrow> f x = {#}) \<Longrightarrow> sum_list (map f xs) = ({#} :: 'b multiset)"
  by (induction xs) simp_all

lemma pending_set_worker:
  "k < length (d_workers d) \<Longrightarrow> pending (set_worker k w d) + worker_holds (d_workers d ! k) = pending d + worker_holds w"
  using sum_list_update_mset [of k "d_workers d" worker_holds w]
  by (simp add: pending_def set_worker_def add.assoc)

lemma owns_set_worker:
  "k < length (d_workers d) \<Longrightarrow> owns (set_worker k w d) + worker_owns (d_workers d ! k) = owns d + worker_owns w"
  using sum_list_update_mset [of k "d_workers d" worker_owns w]
  by (simp add: owns_def set_worker_def add.assoc)

lemma set_worker_fields [simp]:
  "d_queue (set_worker k w d) = d_queue d" "d_available (set_worker k w d) = d_available d"
  "d_dispatcher (set_worker k w d) = d_dispatcher d" "d_workers (set_worker k w d) = (d_workers d)[k := w]"
  "d_counted (set_worker k w d) = d_counted d" "d_valid (set_worker k w d) = d_valid d" "d_ready (set_worker k w d) = d_ready d"
  by (simp_all add: set_worker_def)

lemma goto_fields [simp]:
  "d_queue (goto pc d) = d_queue d" "d_available (goto pc d) = d_available d"
  "d_dispatcher (goto pc d) = pc" "d_workers (goto pc d) = d_workers d"
  "d_counted (goto pc d) = d_counted d" "d_valid (goto pc d) = d_valid d" "d_ready (goto pc d) = d_ready d"
  by (simp_all add: goto_def)

lemma put_back_fields [simp]:
  "d_queue (put_back i d) = PushBack i (d_queue d)" "d_available (put_back i d) = d_available d"
  "d_dispatcher (put_back i d) = d_dispatcher d" "d_workers (put_back i d) = d_workers d"
  "d_counted (put_back i d) = d_counted d" "d_valid (put_back i d) = d_valid d" "d_ready (put_back i d) = d_ready d"
  by (simp_all add: put_back_def)

lemma mset_PushBack [simp]: "mset (PushBack i q) = mset q + {#i#}"
  by (simp add: PushBack_def)

lemma status_of_set_status [simp]:
  "i < length (sh_chunks sh) \<Longrightarrow> status_of (set_status i s sh) j = (if j = i then s else status_of sh j)"
  by (simp add: status_of_def set_status_def Chunk_GetStatus_def Chunk_SetStatus_def nth_list_update)

lemma set_status_fields [simp]:
  "length (sh_chunks (set_status i s sh)) = length (sh_chunks sh)"
  "sh_completed (set_status i s sh) = sh_completed sh" "sh_cancelled (set_status i s sh) = sh_cancelled sh"
  by (simp_all add: set_status_def)

section \<open>One step of one downloader\<close>

text \<open>
  What a step of one downloader may do: the accounting of its own indices stays right, ownership
  follows the status cells, and a chunk that is done stays done.
\<close>

definition fair_step :: "shared \<Rightarrow> dl \<Rightarrow> shared \<Rightarrow> dl \<Rightarrow> bool" where
  "fair_step sh d sh' d' \<longleftrightarrow>
     length (sh_chunks sh') = length (sh_chunks sh) \<and>
     dl_ok sh' d' \<and>
     (\<forall>i. count (owns d') i + (if i < length (sh_chunks sh) \<and> status_of sh i = ChunkStatusDownloading then 1 else 0) =
          count (owns d) i + (if i < length (sh_chunks sh) \<and> status_of sh' i = ChunkStatusDownloading then 1 else 0)) \<and>
     (\<forall>i. status_of sh i = ChunkStatusDone \<longrightarrow> status_of sh' i = ChunkStatusDone) \<and>
     (sh_completed sh' \<longrightarrow> sh_completed sh \<or> all_done sh)"

lemma distinct_sub_mset:
  assumes "mset xs \<subseteq># mset ys" and "distinct ys"
  shows "distinct xs"
proof -
  have "count (mset xs) a = (if a \<in> set xs then 1 else 0)" for a
  proof -
    have "count (mset xs) a \<le> count (mset ys) a" using assms(1) by (rule mset_subset_eq_count)
    also have "\<dots> \<le> 1" using assms(2) by (auto simp: distinct_count_atmost_1)
    finally have le: "count (mset xs) a \<le> 1" .
    have "count (mset xs) a = 0 \<longleftrightarrow> a \<notin> set xs" by (simp only: count_eq_zero_iff set_mset_mset)
    with le show ?thesis by (cases "count (mset xs) a") auto
  qed
  then show ?thesis by (simp add: distinct_count_atmost_1)
qed

text \<open>Counting the last chunk means that all chunks are done.\<close>

lemma counted_all:
  assumes ok: "dl_ok sh d" and n: "numCompleted d = length (sh_chunks sh)"
  shows "all_done sh"
proof -
  have sub: "mset (d_counted d) \<subseteq># mset (d_available d)"
    using ok by (metis dl_ok_def mset_subset_eq_add_right)
  have av: "distinct (d_available d)" "set (d_available d) \<subseteq> {..<length (sh_chunks sh)}"
    using ok by (auto simp: dl_ok_def)
  have dist: "distinct (d_counted d)" using sub av(1) by (rule distinct_sub_mset)
  have range: "set (d_counted d) \<subseteq> {..<length (sh_chunks sh)}"
    using set_mset_mono [OF sub] av(2) by auto
  have "set (d_counted d) = {..<length (sh_chunks sh)}"
    using range distinct_card [OF dist] n by (intro card_subset_eq) simp_all
  then show ?thesis using ok by (auto simp: all_done_def dl_ok_def done_claims_def)
qed

lemma available_bound:
  assumes "dl_ok sh d" and "i \<in># pending d"
  shows "i < length (sh_chunks sh)"
proof -
  have "i \<in># mset (d_available d)" using assms by (metis dl_ok_def union_iff)
  then show ?thesis using assms(1) by (auto simp: dl_ok_def)
qed

lemma Pop_cases:
  obtains (some) i q where "queue = i # q" "Pop queue = ((i, True), q)"
  | (none) "queue = []" "Pop queue = ((0, False), queue)"
  by (cases queue) auto

lemma fair_stepI:
  assumes "sh_chunks sh' = sh_chunks sh" and "dl_ok sh d"
    and "pending d' + mset (d_counted d') = pending d + mset (d_counted d)" and "d_available d' = d_available d"
    and "owns d' = owns d"
    and "\<forall>i \<in> done_claims d'. i \<in> done_claims d \<or> status_of sh i = ChunkStatusDone"
    and "finishing d' \<longrightarrow> all_done sh" and "sh_completed sh' \<longrightarrow> sh_completed sh \<or> all_done sh"
  shows "fair_step sh d sh' d'"
  using assms unfolding fair_step_def dl_ok_def status_of_def all_done_def by auto

lemma dispatcher_done_Loaded: "j \<in> dispatcher_done (Loaded i s) \<longleftrightarrow> j = i \<and> s = ChunkStatusDone"
  by (cases s) auto

lemmas dl_defs = pending_def owns_def done_claims_def finishing_def

text \<open>A dispatcher step that changes neither ownership nor the status cells.\<close>

lemma dispatcher_fair_stepI:
  assumes ok: "dl_ok sh d"
    and sh: "sh_chunks sh' = sh_chunks sh" "sh_completed sh' \<longrightarrow> sh_completed sh \<or> all_done sh"
    and d': "d_workers d' = d_workers d" "d_available d' = d_available d"
    and acc: "mset (d_queue d') + mset (d_counted d') + dispatcher_holds (d_dispatcher d') =
        mset (d_queue d) + mset (d_counted d) + dispatcher_holds (d_dispatcher d)"
    and own: "dispatcher_owns (d_dispatcher d') = dispatcher_owns (d_dispatcher d)"
    and claims: "\<forall>i \<in> set (d_counted d') \<union> dispatcher_done (d_dispatcher d'). status_of sh i = ChunkStatusDone"
    and fin: "d_dispatcher d' \<in> {Cancelling, Completing} \<longrightarrow> all_done sh"
  shows "fair_step sh d sh' d'"
proof (rule fair_stepI [OF sh(1) ok _ d'(2)])
  show "owns d' = owns d" using own d'(1) by (simp add: owns_def)
  have "pending d' + mset (d_counted d') =
      (mset (d_queue d') + mset (d_counted d') + dispatcher_holds (d_dispatcher d')) + sum_list (map worker_holds (d_workers d))"
    using d'(1) by (simp add: pending_def ac_simps)
  then show "pending d' + mset (d_counted d') = pending d + mset (d_counted d)"
    unfolding acc by (simp add: pending_def ac_simps)
  show "\<forall>i \<in> done_claims d'. i \<in> done_claims d \<or> status_of sh i = ChunkStatusDone"
    using claims d'(1) by (auto simp: done_claims_def)
  show "finishing d' \<longrightarrow> all_done sh"
    using fin d'(1) ok by (auto simp: finishing_def dl_ok_def)
  show "sh_completed sh' \<longrightarrow> sh_completed sh \<or> all_done sh" by (rule sh(2))
qed

lemma claimed_done:
  "dl_ok sh d \<Longrightarrow> i \<in> set (d_counted d) \<Longrightarrow> status_of sh i = ChunkStatusDone"
  "dl_ok sh d \<Longrightarrow> d_dispatcher d = Counting i \<Longrightarrow> status_of sh i = ChunkStatusDone"
  "dl_ok sh d \<Longrightarrow> d_dispatcher d = Loaded i ChunkStatusDone \<Longrightarrow> status_of sh i = ChunkStatusDone"
  "dl_ok sh d \<Longrightarrow> d_dispatcher d \<in> {Cancelling, Completing} \<Longrightarrow> all_done sh"
  by (auto simp: dl_ok_def done_claims_def finishing_def)

text \<open>A dispatcher that has read the status of the chunk it has popped.\<close>

lemma loaded_fair:
  assumes ok: "dl_ok sh d" and run: "dispatch sh d = Some (sh', d')" and Loaded: "d_dispatcher d = Loaded i st"
  shows "fair_step sh d sh' d'"
proof -
  have i: "i < length (sh_chunks sh)" using available_bound [OF ok, of i] Loaded by (simp add: pending_def)
  show ?thesis
  proof (cases st)
    case ChunkStatusPending
    show ?thesis
    proof (cases "status_of sh i = ChunkStatusPending")
      case True
      then have c: "Chunk_UpdateStatus ChunkStatusPending ChunkStatusDownloading (sh_chunks sh ! i) =
          (True, Chunk_SetStatus ChunkStatusDownloading (sh_chunks sh ! i))"
        by (simp add: Chunk_UpdateStatus_def status_of_def Chunk_GetStatus_def Chunk_SetStatus_def)
      have r: "sh' = set_status i ChunkStatusDownloading sh" "d' = goto (Sending i) d"
        using run Loaded ChunkStatusPending c by (simp_all add: set_status_def)
      have "i \<notin> done_claims d" using ok True by (auto simp: dl_ok_def)
      then show ?thesis
        using ok i True Loaded ChunkStatusPending
        by (auto simp: r fair_step_def dl_ok_def dl_defs all_done_def)
    next
      case False
      then have "Chunk_UpdateStatus ChunkStatusPending ChunkStatusDownloading (sh_chunks sh ! i) = (False, sh_chunks sh ! i)"
        by (simp add: Chunk_UpdateStatus_def status_of_def Chunk_GetStatus_def)
      then have "sh' = sh" "d' = goto AtTop (put_back i d)" using run Loaded ChunkStatusPending by simp_all
      then show ?thesis using Loaded claimed_done(1) [OF ok] by (intro dispatcher_fair_stepI [OF ok]) simp_all
    qed
  next
    case ChunkStatusDownloading
    then have "sh' = sh" "d' = goto AtTop (put_back i d)" using run Loaded by simp_all
    then show ?thesis using Loaded claimed_done(1) [OF ok] by (intro dispatcher_fair_stepI [OF ok]) simp_all
  next
    case ChunkStatusDone
    then have "sh' = sh" "d' = goto (Counting i) d" using run Loaded by simp_all
    then show ?thesis
      using Loaded ChunkStatusDone claimed_done(1,3) [OF ok] by (intro dispatcher_fair_stepI [OF ok]) auto
  qed
qed

text \<open>A dispatcher in \<open>CompleteOne\<close>.\<close>

lemma completing_fair:
  assumes ok: "dl_ok sh d" and run: "dispatch sh d = Some (sh', d')"
    and complete_one: "d_dispatcher d = Counting i \<or> d_dispatcher d \<in> {Comparing, Cancelling, Completing}"
  shows "fair_step sh d sh' d'"
proof (cases "d_dispatcher d")
  case (Counting i)
  then have "sh' = sh" "d' = goto Comparing (d\<lparr>d_counted := d_counted d @ [i]\<rparr>)" using run by auto
  then show ?thesis
    using Counting claimed_done(1,2) [OF ok] by (intro dispatcher_fair_stepI [OF ok]) auto
next
  case Comparing
  then have "sh' = sh" "d' = goto (if numCompleted d = length (sh_chunks sh) then Cancelling else AtTop) d"
    using run by auto
  then show ?thesis
    using Comparing claimed_done(1) [OF ok] counted_all [OF ok] by (intro dispatcher_fair_stepI [OF ok]) simp_all
next
  case Cancelling
  then have "sh' = sh\<lparr>sh_cancelled := True\<rparr>" "d' = goto Completing d" using run by auto
  then show ?thesis
    using Cancelling claimed_done(1,4) [OF ok] by (intro dispatcher_fair_stepI [OF ok]) simp_all
next
  case Completing
  then have "sh' = sh\<lparr>sh_completed := True\<rparr>" "d' = goto AtTop d" using run by auto
  then show ?thesis
    using Completing claimed_done(1,4) [OF ok] by (intro dispatcher_fair_stepI [OF ok]) simp_all
qed (use complete_one in auto)

lemma dispatch_fair:
  assumes ok: "dl_ok sh d" and run: "dispatch sh d = Some (sh', d')"
  shows "fair_step sh d sh' d'"
proof (cases "d_dispatcher d")
  case Starting
  then have "sh' = sh" "d' = goto (if length (sh_chunks sh) = 0 then Cancelling else AtTop) d" using run by auto
  then show ?thesis
    using Starting claimed_done(1) [OF ok] by (intro dispatcher_fair_stepI [OF ok]) (simp_all add: all_done_def)
next
  case AtTop
  then have "sh' = sh" "d' = goto (if d_valid d then CheckCtx else Finished) d" using run by auto
  then show ?thesis using AtTop claimed_done(1) [OF ok] by (intro dispatcher_fair_stepI [OF ok]) simp_all
next
  case CheckCtx
  then have "sh' = sh" "d' = goto (if sh_cancelled sh then Finished else CheckReady) d" using run by auto
  then show ?thesis using CheckCtx claimed_done(1) [OF ok] by (intro dispatcher_fair_stepI [OF ok]) simp_all
next
  case CheckReady
  then have "sh' = sh" "d' = goto (if d_ready d = 0 then AtTop else PopQueue) d" using run by auto
  then show ?thesis using CheckReady claimed_done(1) [OF ok] by (intro dispatcher_fair_stepI [OF ok]) simp_all
next
  case PopQueue
  show ?thesis
  proof (cases "d_queue d" rule: Pop_cases)
    case (some i q)
    then have "sh' = sh" "d' = goto (Popped i) (d\<lparr>d_queue := q\<rparr>)" using run PopQueue by simp_all
    then show ?thesis using PopQueue some claimed_done(1) [OF ok] by (intro dispatcher_fair_stepI [OF ok]) simp_all
  next
    case none
    then have "sh' = sh" "d' = goto AtTop d" using run PopQueue by simp_all
    then show ?thesis using PopQueue claimed_done(1) [OF ok] by (intro dispatcher_fair_stepI [OF ok]) simp_all
  qed
next
  case (Popped i)
  then have "sh' = sh" "d' = goto (Loaded i (status_of sh i)) d"
    using run by (auto simp: status_of_def split: if_splits)
  then show ?thesis
    using Popped claimed_done(1) [OF ok] by (intro dispatcher_fair_stepI [OF ok]) (auto simp: dispatcher_done_Loaded)
next
  case (Loaded i st)
  then show ?thesis using loaded_fair [OF ok run] by blast
next
  case (Sending i)
  then show ?thesis using run by simp
next
  case (Counting i)
  then show ?thesis using completing_fair [OF ok run] by blast
next
  case Comparing
  then show ?thesis using completing_fair [OF ok run] by blast
next
  case Cancelling
  then show ?thesis using completing_fair [OF ok run] by blast
next
  case Completing
  then show ?thesis using completing_fair [OF ok run] by blast
next
  case Finished
  then show ?thesis using run by simp
qed

text \<open>
  A worker step changes the place of worker \<open>k\<close>; the sums over the workers change by what it holds
  and owns before and after.
\<close>

lemma worker_change:
  assumes "k < length (d_workers d)" and "d_workers d' = (d_workers d)[k := w]"
    and "d_dispatcher d' = d_dispatcher d"
  shows "owns d' + worker_owns (d_workers d ! k) = owns d + worker_owns w"
    and "d_queue d' = d_queue d \<Longrightarrow> pending d' + worker_holds (d_workers d ! k) = pending d + worker_holds w"
    and "d_queue d' = PushBack i (d_queue d) \<Longrightarrow> pending d' + worker_holds (d_workers d ! k) = pending d + worker_holds w + {#i#}"
  using sum_list_update_mset [OF assms(1), of worker_owns w] sum_list_update_mset [OF assms(1), of worker_holds w]
    assms(2,3) by (simp_all add: owns_def pending_def ac_simps)

lemma worker_done_update: "\<Union> (worker_done ` set (ws[k := w])) \<subseteq> \<Union> (worker_done ` set ws) \<union> worker_done w"
  using set_update_subset_insert [of ws k w] by auto

lemma worker_fair_stepI:
  assumes ok: "dl_ok sh d" and k: "k < length (d_workers d)"
    and sh: "sh_chunks sh' = sh_chunks sh" "sh_completed sh' \<longrightarrow> sh_completed sh \<or> all_done sh"
    and d': "d_workers d' = (d_workers d)[k := w]" "d_dispatcher d' = d_dispatcher d" "d_available d' = d_available d"
    and acc: "mset (d_queue d') + mset (d_counted d') + worker_holds w =
        mset (d_queue d) + mset (d_counted d) + worker_holds (d_workers d ! k)"
    and own: "worker_owns w = worker_owns (d_workers d ! k)"
    and claims: "\<forall>i \<in> set (d_counted d') \<union> worker_done w. status_of sh i = ChunkStatusDone"
    and fin: "w \<in> {WCancelling, WCompleting} \<longrightarrow> all_done sh"
  shows "fair_step sh d sh' d'"
proof (rule fair_stepI [OF sh(1) ok _ d'(3)])
  show "owns d' = owns d" using worker_change(1) [OF k d'(1,2)] own by simp
  have "sum_list (map worker_holds (d_workers d')) + worker_holds (d_workers d ! k) =
      sum_list (map worker_holds (d_workers d)) + worker_holds w"
    using sum_list_update_mset [OF k] d'(1) by simp
  then have "(pending d' + mset (d_counted d')) + worker_holds (d_workers d ! k) =
      (mset (d_queue d') + mset (d_counted d') + worker_holds w) + dispatcher_holds (d_dispatcher d) +
        sum_list (map worker_holds (d_workers d))"
    using d'(2) by (simp add: pending_def ac_simps)
  then show "pending d' + mset (d_counted d') = pending d + mset (d_counted d)"
    unfolding acc by (simp add: pending_def ac_simps)
  show "\<forall>i \<in> done_claims d'. i \<in> done_claims d \<or> status_of sh i = ChunkStatusDone"
    using claims worker_done_update [of "d_workers d" k w] d' by (auto simp: done_claims_def)
  show "finishing d' \<longrightarrow> all_done sh"
  proof
    have "x = w \<or> x \<in> set (d_workers d)" if "x \<in> set (d_workers d')" for x
      using that set_update_subset_insert [of "d_workers d" k w] d'(1) by auto
    moreover assume "finishing d'"
    ultimately have "w \<in> {WCancelling, WCompleting} \<or> finishing d"
      using d'(2) unfolding finishing_def by (metis insertI1 insertI2)
    then show "all_done sh" using fin ok by (auto simp: dl_ok_def)
  qed
  show "sh_completed sh' \<longrightarrow> sh_completed sh \<or> all_done sh" by (rule sh(2))
qed

lemma worker_in_owns: "k < length (d_workers d) \<Longrightarrow> i \<in># worker_owns (d_workers d ! k) \<Longrightarrow> i \<in># owns d"
  using sum_list_member_mset [of k "d_workers d" worker_owns] by (auto simp: owns_def dest: mset_subset_eqD)

text \<open>The two steps of a worker that write a status, of a chunk that it owns.\<close>

lemma worker_status_step:
  assumes ok: "dl_ok sh d" and k: "k < length (d_workers d)"
    and i: "i < length (sh_chunks sh)" "status_of sh i = ChunkStatusDownloading"
    and own: "worker_owns (d_workers d ! k) = {#i#}" "worker_owns w = {#}"
    and holds: "worker_holds w = worker_holds (d_workers d ! k)"
    and claims: "worker_done w \<subseteq> (if s = ChunkStatusDone then {i} else {})" and s: "s \<noteq> ChunkStatusDownloading"
    and fin: "w \<notin> {WCancelling, WCompleting}"
  shows "fair_step sh d (set_status i s sh) (set_worker k w d)"
  unfolding fair_step_def
proof (intro conjI allI impI)
  let ?d = "set_worker k w d" and ?sh = "set_status i s sh"
  have notdone: "\<not> all_done sh" using i by (auto simp: all_done_def)
  have ndone: "status_of sh j = ChunkStatusDone \<Longrightarrow> j \<noteq> i" for j using i(2) by auto
  show "dl_ok ?sh ?d"
    unfolding dl_ok_def
  proof (intro conjI ballI impI)
    show "pending ?d + mset (d_counted ?d) = mset (d_available ?d)"
      using pending_set_worker [OF k, of w] holds ok by (simp add: dl_ok_def)
    show "distinct (d_available ?d)" using ok by (simp add: dl_ok_def)
    show "j < length (sh_chunks ?sh)" if "j \<in> set (d_available ?d)" for j using ok that by (simp add: dl_ok_def)
    show "status_of ?sh j = ChunkStatusDone" if j: "j \<in> done_claims ?d" for j
    proof -
      have "j \<in> done_claims d \<or> j \<in> worker_done w"
        using j worker_done_update [of "d_workers d" k w] by (auto simp: done_claims_def)
      then show ?thesis using ok claims i(1) ndone [of j] by (auto simp: dl_ok_def split: if_splits)
    qed
    show "all_done ?sh" if "finishing ?d"
    proof -
      have "finishing d"
        using that fin set_update_subset_insert [of "d_workers d" k w] by (auto simp: finishing_def)
      then show ?thesis using ok notdone by (simp add: dl_ok_def)
    qed
  qed
  show "count (owns ?d) j + (if j < length (sh_chunks sh) \<and> status_of sh j = ChunkStatusDownloading then 1 else 0) =
      count (owns d) j + (if j < length (sh_chunks sh) \<and> status_of ?sh j = ChunkStatusDownloading then 1 else 0)" for j
    using arg_cong [OF owns_set_worker [OF k, of w], of "\<lambda>m. count m j"] own i s by auto
  show "status_of ?sh j = ChunkStatusDone" if "status_of sh j = ChunkStatusDone" for j
    using that i(1) ndone [OF that] by simp
qed simp_all

lemma worker_facts:
  assumes ok: "dl_ok sh d" and k: "k < length (d_workers d)"
  shows "i \<in> worker_done (d_workers d ! k) \<Longrightarrow> status_of sh i = ChunkStatusDone"
    and "d_workers d ! k \<in> {WCancelling, WCompleting} \<Longrightarrow> all_done sh"
    and "i \<in># worker_holds (d_workers d ! k) \<Longrightarrow> i < length (sh_chunks sh)"
proof -
  have w: "d_workers d ! k \<in> set (d_workers d)" using k by simp
  show "status_of sh i = ChunkStatusDone" if "i \<in> worker_done (d_workers d ! k)"
    using ok w that by (auto simp: dl_ok_def done_claims_def)
  show "all_done sh" if "d_workers d ! k \<in> {WCancelling, WCompleting}"
    using ok w that by (auto simp: dl_ok_def finishing_def)
  show "i < length (sh_chunks sh)" if "i \<in># worker_holds (d_workers d ! k)"
    using available_bound [OF ok, of i] sum_list_member_mset [OF k, of worker_holds] that
    by (auto simp: pending_def dest: mset_subset_eqD)
qed

lemma work_fair:
  assumes ok: "dl_ok sh d" and own: "\<forall>i. i \<in># owns d \<longrightarrow> status_of sh i = ChunkStatusDownloading"
    and k: "k < length (d_workers d)" and run: "work b k sh d = Some (sh', d')"
  shows "fair_step sh d sh' d'"
proof -
  note I = worker_fair_stepI [OF ok k] and C = claimed_done(1) [OF ok] and F = worker_facts [OF ok k]
  note O = worker_in_owns [OF k]
  show ?thesis
  proof (cases "d_workers d ! k")
    case WStart
    then have "sh' = sh" "d' = set_worker k WWaiting (d\<lparr>d_ready := d_ready d + 1\<rparr>)" using run by auto
    then show ?thesis using WStart C by (intro I [where w = WWaiting]) simp_all
  next
    case WWaiting
    then have "sh' = sh" "d' = set_worker k WClosed d" using run by (auto split: if_splits)
    then show ?thesis using WWaiting C by (intro I [where w = WClosed]) simp_all
  next
    case (WReceived i)
    then have "sh' = sh" "d' = set_worker k (WRunning i) (d\<lparr>d_ready := d_ready d - 1\<rparr>)" using run by auto
    then show ?thesis using WReceived C by (intro I [where w = "WRunning i"]) simp_all
  next
    case (WRunning i)
    then have "sh' = sh" "d' = set_worker k (if b then WWritten i (sh_now sh) else WFailed i) d" using run by auto
    then show ?thesis
      using WRunning C by (intro I [where w = "if b then WWritten i (sh_now sh) else WFailed i"]) simp_all
  next
    case (WWritten i t)
    then have "sh' = set_status i ChunkStatusDone sh" "d' = set_worker k (WStamp i t) d" using run by auto
    then show ?thesis
      using WWritten own O [of i] F(3) [of i] by (auto intro!: worker_status_step [OF ok k])
  next
    case (WStamp i t)
    let ?sh = "sh\<lparr>sh_chunks := (sh_chunks sh)[i := Chunk_SetUpdatedAt t (sh_chunks sh ! i)]\<rparr>"
    have r: "sh' = ?sh" "d' = set_worker k (WCounting i) d" using WStamp run by auto
    have st: "status_of ?sh j = status_of sh j" for j
      by (cases "i < length (sh_chunks sh)")
        (auto simp: status_of_def nth_list_update Chunk_SetUpdatedAt_def Chunk_GetStatus_def list_update_beyond)
    have "fair_step sh d sh (set_worker k (WCounting i) d)"
      using WStamp C F(1) [of i] by (intro I [where w = "WCounting i"]) auto
    then show ?thesis
      unfolding r fair_step_def dl_ok_def all_done_def by (simp add: st)
  next
    case (WCounting i)
    then have "sh' = sh" "d' = set_worker k WComparing (d\<lparr>d_counted := d_counted d @ [i]\<rparr>)" using run by auto
    then show ?thesis using WCounting C F(1) [of i] by (intro I [where w = WComparing]) auto
  next
    case WComparing
    let ?w = "if numCompleted d = length (sh_chunks sh) then WCancelling else WStart"
    have "sh' = sh" "d' = set_worker k ?w d" using WComparing run by auto
    then show ?thesis using WComparing C counted_all [OF ok] by (intro I [where w = ?w]) simp_all
  next
    case WCancelling
    then have "sh' = sh\<lparr>sh_cancelled := True\<rparr>" "d' = set_worker k WCompleting d" using run by auto
    then show ?thesis using WCancelling C F(2) by (intro I [where w = WCompleting]) simp_all
  next
    case WCompleting
    then have "sh' = sh\<lparr>sh_completed := True\<rparr>" "d' = set_worker k WStart d" using run by auto
    then show ?thesis using WCompleting C F(2) by (intro I [where w = WStart]) simp_all
  next
    case (WFailed i)
    then have "sh' = set_status i ChunkStatusPending sh" "d' = set_worker k (WRequeue i) d" using run by auto
    then show ?thesis
      using WFailed own O [of i] F(3) [of i] by (auto intro!: worker_status_step [OF ok k])
  next
    case (WRequeue i)
    then have "sh' = sh" "d' = set_worker k WStart (put_back i d)" using run by auto
    then show ?thesis using WRequeue C by (intro I [where w = WStart]) simp_all
  next
    case WClosed
    then have "sh' = sh" "d' = set_worker k WExited (d\<lparr>d_ready := d_ready d - 1\<rparr>)" using run by auto
    then show ?thesis using WClosed C by (intro I [where w = WExited]) simp_all
  next
    case WExited
    then show ?thesis using run by simp
  qed
qed

lemma handoff_fair:
  assumes ok: "dl_ok sh d" and k: "k < length (d_workers d)" and run: "handoff k d = Some d'"
  shows "fair_step sh d sh d'"
proof -
  obtain i where i: "d_dispatcher d = Sending i" "d_workers d ! k = WWaiting"
    "d' = goto AtTop (set_worker k (WReceived i) d)"
    using run by (auto simp: handoff_def split: dispatcher.splits worker.splits)
  have p: "pending d' = pending d" and o: "owns d' = owns d"
    using i sum_list_update_mset [OF k, of worker_holds "WReceived i"] sum_list_update_mset [OF k, of worker_owns "WReceived i"]
    by (simp_all add: pending_def owns_def)
  have "\<forall>j \<in> done_claims d'. j \<in> done_claims d"
    using i worker_done_update [of "d_workers d" k "WReceived i"] by (auto simp: done_claims_def)
  moreover have "finishing d' \<longrightarrow> finishing d"
    using i set_update_subset_insert [of "d_workers d" k "WReceived i"] by (auto simp: finishing_def)
  ultimately show ?thesis
    using p o i ok by (intro fair_stepI) (auto simp: dl_ok_def)
qed

section \<open>The whole program\<close>

lemma mark_ready_set: "set (mark_ready av is) = set is - set av"
  by (induction av "is" rule: mark_ready.induct) auto

lemma mark_ready_distinct: "distinct (mark_ready av is)"
  by (induction av "is" rule: mark_ready.induct) (auto simp: mark_ready_set)

lemma announce_ok:
  assumes "dl_ok sh d" and "\<forall>i \<in> set is. i < length (sh_chunks sh)"
  shows "dl_ok sh (announce draw is d)" and "owns (announce draw is d) = owns d"
proof -
  let ?d = "announce draw is d" and ?new = "mark_ready (d_available d) is"
  have "pending ?d = pending d + mset ?new"
    by (simp add: announce_def pending_def PushShuffledList_def Let_def ac_simps)
  moreover have "done_claims ?d = done_claims d" "finishing ?d = finishing d" "d_counted ?d = d_counted d"
    "d_available ?d = d_available d @ ?new"
    by (simp_all add: announce_def done_claims_def finishing_def Let_def)
  ultimately show "dl_ok sh ?d"
    using assms mark_ready_distinct [of "d_available d" "is"]
    by (auto simp: dl_ok_def mark_ready_set ac_simps)
  show "owns ?d = owns d" by (simp add: announce_def owns_def Let_def)
qed

lemma sum_list_replicate_empty: "sum_list (replicate n {#}) = ({#} :: 'b multiset)"
  by (induction n) simp_all

lemma new_dl_ok: "dl_ok sh (new_dl n)" "owns (new_dl n) = {#}"
  by (auto simp: dl_ok_def new_dl_def pending_def owns_def done_claims_def finishing_def NewChunkQueue_def sum_list_replicate_empty)

lemma owners_update:
  "j < length dls \<Longrightarrow> owners \<lparr>sy_shared = sh', sy_dls = dls[j := d]\<rparr> + owns (dls ! j) =
     owners \<lparr>sy_shared = sh, sy_dls = dls\<rparr> + owns d"
  using sum_list_update_mset [of j dls owns d] by (simp add: owners_def)

lemma owns_downloading:
  assumes "system_ok \<lparr>sy_shared = sh, sy_dls = dls\<rparr>" and "j < length dls" and "i \<in># owns (dls ! j)"
  shows "status_of sh i = ChunkStatusDownloading"
proof -
  have "owns (dls ! j) \<subseteq># owners \<lparr>sy_shared = sh, sy_dls = dls\<rparr>"
    using sum_list_member_mset [OF assms(2), of owns] by (simp add: owners_def)
  then have "i \<in># owners \<lparr>sy_shared = sh, sy_dls = dls\<rparr>" using assms(3) by (rule mset_subset_eqD)
  then have "0 < count (owners \<lparr>sy_shared = sh, sy_dls = dls\<rparr>) i" by simp
  then show ?thesis using assms(1) by (auto simp: system_ok_def split: if_splits)
qed

lemma dl_ok_mono:
  assumes "dl_ok sh d" and "length (sh_chunks sh') = length (sh_chunks sh)"
    and "\<forall>i. status_of sh i = ChunkStatusDone \<longrightarrow> status_of sh' i = ChunkStatusDone"
  shows "dl_ok sh' d"
  using assms by (auto simp: dl_ok_def all_done_def)

lemma system_ok_fair:
  assumes ok: "system_ok \<lparr>sy_shared = sh, sy_dls = dls\<rparr>" and j: "j < length dls" and fair: "fair_step sh (dls ! j) sh' d"
  shows "system_ok \<lparr>sy_shared = sh', sy_dls = dls[j := d]\<rparr>"
proof -
  let ?s = "\<lparr>sy_shared = sh, sy_dls = dls\<rparr>" and ?s' = "\<lparr>sy_shared = sh', sy_dls = dls[j := d]\<rparr>"
  have len: "length (sh_chunks sh') = length (sh_chunks sh)"
    and mono: "\<forall>i. status_of sh i = ChunkStatusDone \<longrightarrow> status_of sh' i = ChunkStatusDone"
    and dok: "dl_ok sh' d" and compl: "sh_completed sh' \<longrightarrow> sh_completed sh \<or> all_done sh"
    using fair by (simp_all add: fair_step_def)
  have bal: "count (owns d) i + (if i < length (sh_chunks sh) \<and> status_of sh i = ChunkStatusDownloading then 1 else 0) =
      count (owns (dls ! j)) i + (if i < length (sh_chunks sh) \<and> status_of sh' i = ChunkStatusDownloading then 1 else 0)" for i
    using fair unfolding fair_step_def by blast
  have all: "all_done sh'" if "all_done sh" using that mono len by (simp add: all_done_def)
  have "count (owners ?s') i = (if i < length (sh_chunks sh') \<and> status_of sh' i = ChunkStatusDownloading then 1 else 0)" for i
  proof -
    have "count (owners ?s') i + count (owns (dls ! j)) i = count (owners ?s) i + count (owns d) i"
      using arg_cong [OF owners_update [OF j, of sh' d sh], of "\<lambda>m. count m i"] by simp
    moreover have "count (owners ?s) i = (if i < length (sh_chunks sh) \<and> status_of sh i = ChunkStatusDownloading then 1 else 0)"
      using ok by (simp add: system_ok_def)
    ultimately show ?thesis using bal [of i] unfolding len by linarith
  qed
  moreover have "dl_ok sh' d'" if d': "d' \<in> set (dls[j := d])" for d'
  proof -
    have "d' = d \<or> d' \<in> set dls" using d' set_update_subset_insert [of dls j d] by auto
    then show ?thesis using dok dl_ok_mono [OF _ len mono] ok by (auto simp: system_ok_def)
  qed
  moreover have "sh_completed sh' \<longrightarrow> all_done sh'" using compl all ok by (auto simp: system_ok_def)
  ultimately show ?thesis by (simp add: system_ok_def)
qed

lemma step_ok: "step s s' \<Longrightarrow> system_ok s \<Longrightarrow> system_ok s'"
proof (induction rule: step.induct)
  case (dispatcher j dls sh sh' d)
  then show ?case
    by (intro system_ok_fair [OF dispatcher(3,1)] dispatch_fair [OF _ dispatcher(2)]) (simp add: system_ok_def)
next
  case (worker j dls k ok sh sh' d)
  have "dl_ok sh (dls ! j)" using worker by (simp add: system_ok_def)
  then show ?case
    using owns_downloading [OF worker(4,1)]
    by (intro system_ok_fair [OF worker(4,1)] work_fair [OF _ _ worker(2,3)]) auto
next
  case (channel j dls k d sh)
  then show ?case
    by (intro system_ok_fair [OF channel(4,1)] handoff_fair [OF _ channel(2,3)]) (simp add: system_ok_def)
next
  case (announce j dls "is" sh draw)
  let ?d = "announce draw is (dls ! j)"
  have d: "dl_ok sh (dls ! j)" using announce(1,3) by (simp add: system_ok_def)
  have "fair_step sh (dls ! j) sh ?d"
    using announce_ok [OF d announce(2), of draw] by (simp add: fair_step_def)
  then show ?case by (rule system_ok_fair [OF announce(3,1)])
next
  case (start sh dls n)
  then show ?case by (auto simp: system_ok_def owners_def new_dl_ok)
next
  case (stop j dls sh)
  let ?d = "(dls ! j)\<lparr>d_valid := False\<rparr>"
  have "dl_ok sh (dls ! j)" using stop by (simp add: system_ok_def)
  then have "fair_step sh (dls ! j) sh ?d"
    by (simp add: fair_step_def dl_ok_def pending_def owns_def done_claims_def finishing_def)
  then show ?case by (rule system_ok_fair [OF stop(2,1)])
next
  case (cancel sh dls)
  then show ?case
    by (auto simp: system_ok_def dl_ok_def all_done_def status_of_def owners_def)
next
  case (tick sh t dls)
  then show ?case
    by (auto simp: system_ok_def dl_ok_def all_done_def status_of_def owners_def)
qed

lemma initial_ok: "\<forall>c \<in> set cs. fresh_chunk c \<Longrightarrow> system_ok (initial cs t)"
  by (auto simp: system_ok_def initial_def owners_def status_of_def Chunk_GetStatus_def fresh_chunk_def dest!: nth_mem)

lemma reachable_ok: "reachable cs s \<Longrightarrow> system_ok s"
  by (induction rule: reachable.induct) (auto intro: initial_ok step_ok)

end
