(* ===== verification/Downloader_Props.thy ===== *)
theory Downloader_Props
  imports Downloader_Invariants
begin

text \<open>
  The properties of the downloaders in every interleaving: one transfer per chunk at a time, done
  chunks stay done, no chunk is lost, \<open>Completed\<close> is truthful, every step refines an abstract
  transfer, no downloader is stuck, and the goroutines end once the context is cancelled.
\<close>

section \<open>A run for the witnesses\<close>

lemma handoffI: "d_dispatcher d = Sending i \<Longrightarrow> d_workers d ! k = WWaiting \<Longrightarrow>
    handoff k d = Some (goto AtTop (set_worker k (WReceived i) d))"
  by (simp add: handoff_def)

lemma set_update_mem: "x \<in> set (xs[k := y]) \<Longrightarrow> x = y \<or> x \<in> set xs"
  using set_update_subset_insert [of xs k y] by auto

definition demo_chunks :: "Chunk list" where
  "demo_chunks = [Chunk0\<lparr>FileRanges := [\<lparr>FileIndex = 0, StartOffset = 0, EndOffset = 3\<rparr>]\<rparr>]"

text \<open>One downloader with one worker that knows of the only chunk and is about to pop it.\<close>

definition demo_state :: "ChunkStatus \<Rightarrow> dispatcher \<Rightarrow> worker \<Rightarrow> nat list \<Rightarrow> int \<Rightarrow> time \<Rightarrow> system" where
  "demo_state st pc w queue ready now =
     \<lparr>sy_shared = \<lparr>sh_chunks = map (Chunk_SetStatus st) demo_chunks, sh_cancelled = False, sh_completed = False, sh_now = now\<rparr>,
      sy_dls = [\<lparr>d_queue = queue, d_available = [0], d_dispatcher = pc, d_workers = [w], d_ready = ready,
                 d_counted = [], d_valid = True\<rparr>]\<rparr>"

lemma demo_shared_eta: "map (Chunk_SetStatus ChunkStatusPending) demo_chunks = demo_chunks"
  by (simp add: demo_chunks_def Chunk_SetStatus_def Chunk0_def)

lemma demo_start: "reachable demo_chunks (demo_state ChunkStatusPending Starting WStart [0] 0 5)"
proof -
  let ?sh = "\<lparr>sh_chunks = demo_chunks, sh_cancelled = False, sh_completed = False, sh_now = 5\<rparr>"
  have "reachable demo_chunks (initial demo_chunks 5)"
    by (rule reachable.init) (simp add: demo_chunks_def fresh_chunk_def Chunk0_def)
  then have 0: "reachable demo_chunks \<lparr>sy_shared = ?sh, sy_dls = []\<rparr>" by (simp add: initial_def)
  have 1: "reachable demo_chunks \<lparr>sy_shared = ?sh, sy_dls = [] @ [new_dl 1]\<rparr>"
    by (rule reachable.step [OF 0 step.start])
  have "step \<lparr>sy_shared = ?sh, sy_dls = [new_dl 1]\<rparr>
      \<lparr>sy_shared = ?sh, sy_dls = [new_dl 1][0 := announce (\<lambda>_. 0) [0] ([new_dl 1] ! 0)]\<rparr>"
    by (rule step.announce) (simp_all add: demo_chunks_def)
  moreover have "announce (\<lambda>_. 0) [0] (new_dl 1) =
      \<lparr>d_queue = [0], d_available = [0], d_dispatcher = Starting, d_workers = [WStart], d_ready = 0, d_counted = [], d_valid = True\<rparr>"
    by (simp add: announce_def new_dl_def NewChunkQueue_def PushShuffledList_def Let_def)
  ultimately show ?thesis
    using reachable.step [of demo_chunks, OF 1] by (simp add: demo_state_def demo_shared_eta)
qed

lemma demo_dispatch:
  assumes "reachable demo_chunks (demo_state st pc w queue ready now)"
    and "dispatch (sy_shared (demo_state st pc w queue ready now)) (sy_dls (demo_state st pc w queue ready now) ! 0) =
      Some (sy_shared (demo_state st' pc' w queue' ready now), sy_dls (demo_state st' pc' w queue' ready now) ! 0)"
  shows "reachable demo_chunks (demo_state st' pc' w queue' ready now)"
proof (rule reachable.step [OF assms(1)])
  let ?s = "demo_state st pc w queue ready now" and ?s' = "demo_state st' pc' w queue' ready now"
  have "step \<lparr>sy_shared = sy_shared ?s, sy_dls = sy_dls ?s\<rparr>
      \<lparr>sy_shared = sy_shared ?s', sy_dls = (sy_dls ?s)[0 := sy_dls ?s' ! 0]\<rparr>"
    by (rule step.dispatcher [OF _ assms(2)]) (simp add: demo_state_def)
  then show "step ?s ?s'" by (simp add: demo_state_def)
qed

lemma demo_work:
  assumes "reachable demo_chunks (demo_state st pc w queue ready now)"
    and "work b 0 (sy_shared (demo_state st pc w queue ready now)) (sy_dls (demo_state st pc w queue ready now) ! 0) =
      Some (sy_shared (demo_state st' pc w' queue' ready' now), sy_dls (demo_state st' pc w' queue' ready' now) ! 0)"
  shows "reachable demo_chunks (demo_state st' pc w' queue' ready' now)"
proof (rule reachable.step [OF assms(1)])
  let ?s = "demo_state st pc w queue ready now" and ?s' = "demo_state st' pc w' queue' ready' now"
  have "step \<lparr>sy_shared = sy_shared ?s, sy_dls = sy_dls ?s\<rparr>
      \<lparr>sy_shared = sy_shared ?s', sy_dls = (sy_dls ?s)[0 := sy_dls ?s' ! 0]\<rparr>"
    by (rule step.worker [OF _ _ assms(2)]) (simp_all add: demo_state_def)
  then show "step ?s ?s'" by (simp add: demo_state_def)
qed

lemmas demo_eval = demo_state_def demo_chunks_def Chunk0_def goto_def set_worker_def put_back_def set_status_def
  Chunk_GetStatus_def Chunk_SetStatus_def Chunk_UpdateStatus_def

lemma demo_running: "reachable demo_chunks (demo_state ChunkStatusDownloading AtTop (WRunning 0) [] 0 5)"
proof -
  have "reachable demo_chunks (demo_state ChunkStatusPending Starting WWaiting [0] 1 5)"
    by (rule demo_work [OF demo_start]) (simp add: demo_eval)
  then have "reachable demo_chunks (demo_state ChunkStatusPending AtTop WWaiting [0] 1 5)"
    by (rule demo_dispatch) (simp add: demo_eval)
  then have "reachable demo_chunks (demo_state ChunkStatusPending CheckCtx WWaiting [0] 1 5)"
    by (rule demo_dispatch) (simp add: demo_eval)
  then have "reachable demo_chunks (demo_state ChunkStatusPending CheckReady WWaiting [0] 1 5)"
    by (rule demo_dispatch) (simp add: demo_eval)
  then have "reachable demo_chunks (demo_state ChunkStatusPending PopQueue WWaiting [0] 1 5)"
    by (rule demo_dispatch) (simp add: demo_eval)
  then have "reachable demo_chunks (demo_state ChunkStatusPending (Popped 0) WWaiting [] 1 5)"
    by (rule demo_dispatch) (simp add: demo_eval)
  then have "reachable demo_chunks (demo_state ChunkStatusPending (Loaded 0 ChunkStatusPending) WWaiting [] 1 5)"
    by (rule demo_dispatch) (simp add: demo_eval)
  then have s: "reachable demo_chunks (demo_state ChunkStatusDownloading (Sending 0) WWaiting [] 1 5)"
    by (rule demo_dispatch) (simp add: demo_eval)
  let ?s = "demo_state ChunkStatusDownloading (Sending 0) WWaiting [] 1 5"
    and ?s' = "demo_state ChunkStatusDownloading AtTop (WReceived 0) [] 1 5"
  have "handoff 0 (sy_dls ?s ! 0) = Some (sy_dls ?s' ! 0)"
    using handoffI [of "sy_dls ?s ! 0" 0 0] by (simp add: demo_eval)
  then have "step \<lparr>sy_shared = sy_shared ?s, sy_dls = sy_dls ?s\<rparr>
      \<lparr>sy_shared = sy_shared ?s, sy_dls = (sy_dls ?s)[0 := sy_dls ?s' ! 0]\<rparr>"
    by (intro step.channel) (simp_all add: demo_eval)
  then have "step ?s ?s'" by (simp add: demo_state_def)
  with s have "reachable demo_chunks ?s'" by (rule reachable.step)
  then show ?thesis by (rule demo_work) (simp add: demo_eval)
qed

section \<open>Mutual exclusion\<close>

lemma sum_list_two_mset:
  assumes "k < length xs" and "k' < length xs" and "k \<noteq> k'"
  shows "f (xs ! k) + f (xs ! k') \<subseteq># (sum_list (map f xs) :: 'b multiset)"
  using assms
proof (induction xs arbitrary: k k')
  case (Cons x xs)
  show ?case
  proof (cases k)
    case 0
    then obtain j where "k' = Suc j" "j < length xs" using Cons.prems by (cases k') auto
    then show ?thesis using 0 sum_list_member_mset [of j xs f] by simp
  next
    case (Suc j)
    then have j: "j < length xs" using Cons.prems by simp
    show ?thesis
    proof (cases k')
      case 0
      then show ?thesis using Suc sum_list_member_mset [OF j, of f] by (simp add: add.commute)
    next
      case (Suc j')
      then have "f (xs ! j) + f (xs ! j') \<subseteq># sum_list (map f xs)"
        using Cons.IH [of j j'] Cons.prems \<open>k = Suc j\<close> by simp
      then show ?thesis using Suc \<open>k = Suc j\<close> by (simp add: subset_mset.add_increasing)
    qed
  qed
qed simp

lemma one_owner:
  assumes ok: "system_ok s" and j: "j < length (sy_dls s)" "k < length (d_workers (sy_dls s ! j))"
    and j': "j' < length (sy_dls s)" "k' < length (d_workers (sy_dls s ! j'))"
    and i: "i \<in># worker_owns (d_workers (sy_dls s ! j) ! k)" "i \<in># worker_owns (d_workers (sy_dls s ! j') ! k')"
  shows "j = j' \<and> k = k'"
proof (rule ccontr)
  let ?d = "sy_dls s ! j" and ?d' = "sy_dls s ! j'"
  assume ne: "\<not> (j = j' \<and> k = k')"
  have "{#i, i#} \<subseteq># owners s"
  proof (cases "j = j'")
    case True
    have "{#i, i#} \<subseteq># worker_owns (d_workers ?d ! k) + worker_owns (d_workers ?d ! k')"
      using i True by (metis add_mset_add_single mset_subset_eq_mono_add mset_subset_eq_single)
    also have "\<dots> \<subseteq># sum_list (map worker_owns (d_workers ?d))"
      using j(2) j'(2) ne True by (intro sum_list_two_mset) auto
    also have "\<dots> \<subseteq># owns ?d" by (simp add: owns_def)
    also have "\<dots> \<subseteq># owners s" using sum_list_member_mset [OF j(1), of owns] by (simp add: owners_def)
    finally show ?thesis .
  next
    case False
    have "i \<in># owns ?d" "i \<in># owns ?d'" using worker_in_owns j(2) j'(2) i by blast+
    then have "{#i, i#} \<subseteq># owns ?d + owns ?d'"
      by (metis add_mset_add_single mset_subset_eq_mono_add mset_subset_eq_single)
    also have "\<dots> \<subseteq># owners s" using sum_list_two_mset [OF j(1) j'(1) False, of owns] by (simp add: owners_def)
    finally show ?thesis .
  qed
  then have "2 \<le> count (owners s) i" using mset_subset_eq_count [of "{#i, i#}" "owners s" i] by simp
  moreover have "count (owners s) i \<le> 1" using ok by (simp add: system_ok_def)
  ultimately show False by simp
qed

text \<open>Claim C14.
  In every interleaving of all dispatchers and workers of all downloaders, at most one worker of the
  whole program transfers a given chunk at a time, and while it does the status of the chunk is
  downloading. So no two goroutines write the same range of a file.\<close>

theorem one_transfer_per_chunk:
  assumes "reachable cs s"
    and "j < length (sy_dls s)" and "k < length (d_workers (sy_dls s ! j))" and "d_workers (sy_dls s ! j) ! k = WRunning i"
    and "j' < length (sy_dls s)" and "k' < length (d_workers (sy_dls s ! j'))" and "d_workers (sy_dls s ! j') ! k' = WRunning i"
  shows "j = j' \<and> k = k' \<and> i < length (sh_chunks (sy_shared s)) \<and>
    Chunk_GetStatus (sh_chunks (sy_shared s) ! i) = ChunkStatusDownloading"
proof -
  note ok = reachable_ok [OF assms(1)]
  have "i \<in># owns (sy_dls s ! j)" using worker_in_owns [OF assms(3)] assms(4) by simp
  then have "i \<in># owners s"
    using sum_list_member_mset [OF assms(2), of owns] by (auto simp: owners_def dest: mset_subset_eqD)
  then have "count (owners s) i \<noteq> 0" by (simp add: count_eq_zero_iff)
  then have "i < length (sh_chunks (sy_shared s)) \<and> status_of (sy_shared s) i = ChunkStatusDownloading"
    using ok by (auto simp: system_ok_def split: if_splits)
  then show ?thesis
    using one_owner [OF ok assms(2,3,5,6), of i] assms(4,7) by (simp add: status_of_def)
qed

theorem one_transfer_per_chunk_witness:
  "Chunk_GetStatus (sh_chunks (sy_shared (demo_state ChunkStatusDownloading AtTop (WRunning 0) [] 0 5)) ! 0) = ChunkStatusDownloading"
  using one_transfer_per_chunk [OF demo_running, of 0 0 0 0 0]
  by (simp add: demo_state_def demo_chunks_def)

section \<open>Done chunks and completion\<close>

definition done_set :: "shared \<Rightarrow> nat set" where
  "done_set sh = {i. i < length (sh_chunks sh) \<and> status_of sh i = ChunkStatusDone}"

lemma done_set_status:
  assumes "i < length (sh_chunks sh)"
  shows "done_set (set_status i s sh) = (if s = ChunkStatusDone then insert i (done_set sh) else done_set sh - {i})"
  using assms by (auto simp: done_set_def)

lemma done_set_same: "sh_chunks sh' = sh_chunks sh \<Longrightarrow> done_set sh' = done_set sh"
  by (simp add: done_set_def status_of_def)

lemma dispatch_chunks:
  assumes run: "dispatch sh d = Some (sh', d')"
  shows "sh_chunks sh' = sh_chunks sh \<or> (\<exists>i. d_dispatcher d = Loaded i ChunkStatusPending)"
    and "sh_completed sh \<Longrightarrow> sh_completed sh'"
proof -
  have "(sh_chunks sh' = sh_chunks sh \<or> (\<exists>i. d_dispatcher d = Loaded i ChunkStatusPending)) \<and>
      (sh_completed sh \<longrightarrow> sh_completed sh')"
  proof (cases "d_dispatcher d")
    case PopQueue
    then show ?thesis using run by (cases "d_queue d") auto
  next
    case (Loaded i st)
    then show ?thesis using run by (cases st) (auto simp: Chunk_UpdateStatus_def split: if_splits)
  qed (use run in \<open>auto split: if_splits\<close>)
  then show "sh_chunks sh' = sh_chunks sh \<or> (\<exists>i. d_dispatcher d = Loaded i ChunkStatusPending)"
    "sh_completed sh \<Longrightarrow> sh_completed sh'" by blast+
qed

lemma work_shared:
  assumes run: "work b k sh d = Some (sh', d')"
  shows "sh_chunks sh' = sh_chunks sh \<or> (\<exists>i t. d_workers d ! k \<in> {WWritten i t, WStamp i t, WFailed i})"
    and "sh_completed sh \<Longrightarrow> sh_completed sh'"
proof -
  have "(sh_chunks sh' = sh_chunks sh \<or> (\<exists>i t. d_workers d ! k \<in> {WWritten i t, WStamp i t, WFailed i})) \<and>
      (sh_completed sh \<longrightarrow> sh_completed sh')"
    using run by (cases "d_workers d ! k") (auto split: if_splits)
  then show "sh_chunks sh' = sh_chunks sh \<or> (\<exists>i t. d_workers d ! k \<in> {WWritten i t, WStamp i t, WFailed i})"
    "sh_completed sh \<Longrightarrow> sh_completed sh'" by blast+
qed

lemma dispatch_done_set:
  assumes ok: "dl_ok sh d" and run: "dispatch sh d = Some (sh', d')"
  shows "done_set sh' = done_set sh"
proof (cases "\<exists>i. d_dispatcher d = Loaded i ChunkStatusPending")
  case True
  then obtain i where i: "d_dispatcher d = Loaded i ChunkStatusPending" by blast
  then have len: "i < length (sh_chunks sh)" using available_bound [OF ok, of i] by (simp add: pending_def)
  show ?thesis
  proof (cases "ck_status (sh_chunks sh ! i) = ChunkStatusPending")
    case True
    then have "i \<notin> done_set sh" by (simp add: done_set_def status_of_def Chunk_GetStatus_def)
    moreover have "sh' = set_status i ChunkStatusDownloading sh"
      using run i True by (auto simp: Chunk_UpdateStatus_def Chunk_SetStatus_def set_status_def)
    ultimately show ?thesis using done_set_status [OF len, of ChunkStatusDownloading] by simp
  next
    case False
    then have "sh' = sh" using run i by (simp add: Chunk_UpdateStatus_def)
    then show ?thesis by simp
  qed
next
  case False
  then have "sh_chunks sh' = sh_chunks sh" using dispatch_chunks [OF run] by blast
  then show ?thesis by (rule done_set_same)
qed

lemma work_done_set:
  assumes ok: "dl_ok sh d" and own: "\<forall>i. i \<in># owns d \<longrightarrow> status_of sh i = ChunkStatusDownloading"
    and k: "k < length (d_workers d)" and run: "work b k sh d = Some (sh', d')"
  shows "done_set sh' = done_set sh \<or>
    (\<exists>i < length (sh_chunks sh). i \<notin> done_set sh \<and> done_set sh' = insert i (done_set sh) \<and> sh_completed sh' = sh_completed sh)"
proof (cases "sh_chunks sh' = sh_chunks sh")
  case True
  then show ?thesis using done_set_same [OF True] by blast
next
  case False
  then obtain i t where "d_workers d ! k \<in> {WWritten i t, WStamp i t, WFailed i}" using work_shared(1) [OF run] by blast
  then consider (written) "d_workers d ! k = WWritten i t" | (stamp) "d_workers d ! k = WStamp i t"
    | (failed) "d_workers d ! k = WFailed i" by blast
  then show ?thesis
  proof cases
    case written
    then have i: "i < length (sh_chunks sh)" "i \<notin> done_set sh"
      using worker_facts(3) [OF ok k, of i] own worker_in_owns [OF k, of i] by (auto simp: done_set_def)
    moreover have "sh' = set_status i ChunkStatusDone sh" using run written by auto
    ultimately show ?thesis using done_set_status [of i sh ChunkStatusDone] by auto
  next
    case failed
    then have i: "i < length (sh_chunks sh)" "i \<notin> done_set sh"
      using worker_facts(3) [OF ok k, of i] own worker_in_owns [OF k, of i] by (auto simp: done_set_def)
    moreover have "sh' = set_status i ChunkStatusPending sh" using run failed by auto
    ultimately show ?thesis using done_set_status [of i sh ChunkStatusPending] by auto
  next
    case stamp
    then have "sh' = sh\<lparr>sh_chunks := (sh_chunks sh)[i := Chunk_SetUpdatedAt t (sh_chunks sh ! i)]\<rparr>" using run by auto
    moreover have "status_of (sh\<lparr>sh_chunks := (sh_chunks sh)[i := Chunk_SetUpdatedAt t (sh_chunks sh ! i)]\<rparr>) j = status_of sh j" for j
      by (cases "i < length (sh_chunks sh)")
        (auto simp: status_of_def nth_list_update Chunk_SetUpdatedAt_def Chunk_GetStatus_def list_update_beyond)
    ultimately show ?thesis by (simp add: done_set_def)
  qed
qed

text \<open>
  The abstract transfer: the set of chunks that are done and the flag \<open>Completed\<close>; a step finishes
  one chunk that is not done, or sets the flag when every chunk is done.
\<close>

record abstract_transfer =
  at_done :: "nat set"
  at_completed :: bool

inductive abstract_step :: "nat \<Rightarrow> abstract_transfer \<Rightarrow> abstract_transfer \<Rightarrow> bool" for n where
  finish: "i < n \<Longrightarrow> i \<notin> at_done a \<Longrightarrow> abstract_step n a (a\<lparr>at_done := insert i (at_done a)\<rparr>)"
| complete: "at_done a = {..<n} \<Longrightarrow> abstract_step n a (a\<lparr>at_completed := True\<rparr>)"

inductive_simps abstract_step_iff: "abstract_step n a a'"

definition abstract_of :: "system \<Rightarrow> abstract_transfer" where
  "abstract_of s = \<lparr>at_done = done_set (sy_shared s), at_completed = sh_completed (sy_shared s)\<rparr>"

lemma all_done_set: "all_done sh \<Longrightarrow> done_set sh = {..<length (sh_chunks sh)}"
  by (auto simp: all_done_def done_set_def)

lemma refine_shared:
  assumes compl: "sh_completed sh' \<longrightarrow> sh_completed sh \<or> all_done sh" and keep: "sh_completed sh \<longrightarrow> sh_completed sh'"
    and done_sets: "done_set sh' = done_set sh \<or> (\<exists>i < length (sh_chunks sh). i \<notin> done_set sh \<and>
        done_set sh' = insert i (done_set sh) \<and> sh_completed sh' = sh_completed sh)"
  shows "abstract_of \<lparr>sy_shared = sh', sy_dls = ds'\<rparr> = abstract_of \<lparr>sy_shared = sh, sy_dls = ds\<rparr> \<or>
    abstract_step (length (sh_chunks sh)) (abstract_of \<lparr>sy_shared = sh, sy_dls = ds\<rparr>) (abstract_of \<lparr>sy_shared = sh', sy_dls = ds'\<rparr>)"
proof (cases "done_set sh' = done_set sh")
  case True
  show ?thesis
  proof (cases "sh_completed sh' = sh_completed sh")
    case False
    then have "at_done (abstract_of \<lparr>sy_shared = sh, sy_dls = ds\<rparr>) = {..<length (sh_chunks sh)}" "sh_completed sh'"
      using compl keep all_done_set by (auto simp: abstract_of_def)
    then show ?thesis
      using True abstract_step.complete [of "abstract_of \<lparr>sy_shared = sh, sy_dls = ds\<rparr>"] by (simp add: abstract_of_def)
  qed (simp add: True abstract_of_def)
next
  case False
  then obtain i where i: "i < length (sh_chunks sh)" "i \<notin> done_set sh" "done_set sh' = insert i (done_set sh)"
    "sh_completed sh' = sh_completed sh"
    using done_sets by blast
  then show ?thesis
    using abstract_step.finish [of i _ "abstract_of \<lparr>sy_shared = sh, sy_dls = ds\<rparr>"] by (simp add: abstract_of_def)
qed

lemma step_refines:
  "step s s' \<Longrightarrow> system_ok s \<Longrightarrow> abstract_of s' = abstract_of s \<or>
     abstract_step (length (sh_chunks (sy_shared s))) (abstract_of s) (abstract_of s')"
proof (induction rule: step.induct)
  case (dispatcher j dls sh sh' d)
  have ok: "dl_ok sh (dls ! j)" using dispatcher by (simp add: system_ok_def)
  have "sh_completed sh' \<longrightarrow> sh_completed sh \<or> all_done sh"
    using dispatch_fair [OF ok dispatcher(2)] by (simp add: fair_step_def)
  then show ?case
    using refine_shared [of sh' sh "dls[j := d]" dls] dispatch_done_set [OF ok dispatcher(2)] dispatch_chunks(2) [OF dispatcher(2)] by simp
next
  case (worker j dls k b sh sh' d)
  have ok: "dl_ok sh (dls ! j)" using worker by (simp add: system_ok_def)
  have own: "\<forall>i. i \<in># owns (dls ! j) \<longrightarrow> status_of sh i = ChunkStatusDownloading"
    using owns_downloading [OF worker(4,1)] by blast
  have "sh_completed sh' \<longrightarrow> sh_completed sh \<or> all_done sh"
    using work_fair [OF ok own worker(2,3)] by (simp add: fair_step_def)
  then show ?case
    using refine_shared [of sh' sh "dls[j := d]" dls] work_done_set [OF ok own worker(2,3)] work_shared(2) [OF worker(3)] by simp
qed (simp_all add: abstract_of_def done_set_def status_of_def)

lemma step_length: "step s s' \<Longrightarrow> system_ok s \<Longrightarrow> length (sh_chunks (sy_shared s')) = length (sh_chunks (sy_shared s))"
proof (induction rule: step.induct)
  case (dispatcher j dls sh sh' d)
  then show ?case using dispatch_fair [OF _ dispatcher(2)] by (simp add: system_ok_def fair_step_def)
next
  case (worker j dls k b sh sh' d)
  then have "dl_ok sh (dls ! j)" by (simp add: system_ok_def)
  then show ?case
    using work_fair [OF _ _ worker(2,3)] owns_downloading [OF worker(4,1)] by (simp add: fair_step_def)
qed simp_all

text \<open>Claim C15.
  Refinement: in every interleaving, a step of the program either leaves the set of done chunks and
  the flag \<open>Completed\<close> as they are, or finishes exactly one chunk that was not done, or sets
  \<open>Completed\<close> in a state in which every chunk is done. So a chunk that is done stays done, and is
  finished once.\<close>

theorem step_refines_transfer:
  assumes "reachable cs s" and "step s s'"
  shows "abstract_of s' = abstract_of s \<or>
    abstract_step (length (sh_chunks (sy_shared s))) (abstract_of s) (abstract_of s')"
  using step_refines [OF assms(2) reachable_ok [OF assms(1)]] .

theorem step_refines_transfer_witness:
  "abstract_of (demo_state ChunkStatusDownloading AtTop (WWritten 0 5) [] 0 5) =
     abstract_of (demo_state ChunkStatusDownloading AtTop (WRunning 0) [] 0 5) \<or>
   abstract_step 1 (abstract_of (demo_state ChunkStatusDownloading AtTop (WRunning 0) [] 0 5))
     (abstract_of (demo_state ChunkStatusDownloading AtTop (WWritten 0 5) [] 0 5))"
proof -
  let ?s = "demo_state ChunkStatusDownloading AtTop (WRunning 0) [] 0 5"
    and ?s' = "demo_state ChunkStatusDownloading AtTop (WWritten 0 5) [] 0 5"
  have "step \<lparr>sy_shared = sy_shared ?s, sy_dls = sy_dls ?s\<rparr> \<lparr>sy_shared = sy_shared ?s, sy_dls = (sy_dls ?s)[0 := sy_dls ?s' ! 0]\<rparr>"
    by (rule step.worker [where k = 0 and ok = True]) (simp_all add: demo_eval)
  then have "step ?s ?s'" by (simp add: demo_state_def)
  then show ?thesis using step_refines_transfer [OF demo_running] by (simp add: demo_state_def demo_chunks_def)
qed

text \<open>Claim C16.
  \<open>Completed\<close> is truthful: whenever it is set, which makes the server answer \<open>/completed\<close> with OK and
  serve every chunk, the status of every chunk is done; and so it is in the states in which a
  goroutine is about to cancel the download context because its downloader has counted all chunks.\<close>

theorem completed_means_all_done:
  assumes "reachable cs s"
    and "sh_completed (sy_shared s) \<or> (\<exists>d \<in> set (sy_dls s). d_dispatcher d = Cancelling \<or> WCancelling \<in> set (d_workers d))"
    and "i < length (sh_chunks (sy_shared s))"
  shows "Chunk_GetStatus (sh_chunks (sy_shared s) ! i) = ChunkStatusDone"
proof -
  have ok: "system_ok s" using assms(1) by (rule reachable_ok)
  have "all_done (sy_shared s)"
    using assms(2)
  proof
    assume "\<exists>d \<in> set (sy_dls s). d_dispatcher d = Cancelling \<or> WCancelling \<in> set (d_workers d)"
    then obtain d where d: "d \<in> set (sy_dls s)" "finishing d" by (auto simp: finishing_def)
    then show ?thesis using ok unfolding system_ok_def dl_ok_def by blast
  qed (use ok in \<open>simp add: system_ok_def\<close>)
  then show ?thesis using assms(3) by (simp add: all_done_def status_of_def)
qed

lemma reach_work:
  assumes "reachable cs s" and "j < length (sy_dls s)" and "k < length (d_workers (sy_dls s ! j))"
    and "work b k (sy_shared s) (sy_dls s ! j) = Some (sh', d)"
  shows "reachable cs \<lparr>sy_shared = sh', sy_dls = (sy_dls s)[j := d]\<rparr>"
proof (rule reachable.step [OF assms(1)])
  show "step s \<lparr>sy_shared = sh', sy_dls = (sy_dls s)[j := d]\<rparr>"
    using step.worker [OF assms(2,3,4)] by (cases s) simp
qed

lemma demo_written: "reachable demo_chunks (demo_state ChunkStatusDownloading AtTop (WWritten 0 5) [] 0 5)"
  by (rule demo_work [OF demo_running, where b = True]) (simp add: demo_eval)

lemma demo_stamp: "reachable demo_chunks (demo_state ChunkStatusDone AtTop (WStamp 0 5) [] 0 5)"
  by (rule demo_work [OF demo_written]) (simp add: demo_eval)

text \<open>The same state one transfer later: the chunk is done and counted.\<close>

definition demo_done :: "worker \<Rightarrow> nat list \<Rightarrow> system" where
  "demo_done w counted =
     \<lparr>sy_shared = \<lparr>sh_chunks = map (\<lambda>c. Chunk_SetUpdatedAt 5 (Chunk_SetStatus ChunkStatusDone c)) demo_chunks,
        sh_cancelled = False, sh_completed = False, sh_now = 5\<rparr>,
      sy_dls = [\<lparr>d_queue = [], d_available = [0], d_dispatcher = AtTop, d_workers = [w], d_ready = 0,
                 d_counted = counted, d_valid = True\<rparr>]\<rparr>"

lemma demo_done_work:
  assumes "reachable demo_chunks (demo_done w c)"
    and "work b 0 (sy_shared (demo_done w c)) (sy_dls (demo_done w c) ! 0) = Some (sy_shared (demo_done w' c'), sy_dls (demo_done w' c') ! 0)"
  shows "reachable demo_chunks (demo_done w' c')"
  using reach_work [OF assms(1) _ _ assms(2)] by (simp add: demo_done_def)

lemma demo_cancelling: "reachable demo_chunks (demo_done WCancelling [0])"
proof -
  let ?s = "demo_state ChunkStatusDone AtTop (WStamp 0 5) [] 0 5" and ?s' = "demo_done (WCounting 0) []"
  have "work True 0 (sy_shared ?s) (sy_dls ?s ! 0) = Some (sy_shared ?s', sy_dls ?s' ! 0)"
    by (simp add: demo_eval demo_done_def)
  then have "reachable demo_chunks ?s'"
    using reach_work [OF demo_stamp, of 0 0 True] by (simp add: demo_state_def demo_done_def set_worker_def)
  then have "reachable demo_chunks (demo_done WComparing [0])"
    by (rule demo_done_work) (simp add: demo_eval demo_done_def)
  then show ?thesis by (rule demo_done_work) (simp add: demo_eval demo_done_def)
qed

theorem completed_means_all_done_witness:
  "Chunk_GetStatus (sh_chunks (sy_shared (demo_done WCancelling [0])) ! 0) = ChunkStatusDone"
  by (rule completed_means_all_done [OF demo_cancelling]) (simp_all add: demo_done_def demo_chunks_def)

section \<open>No chunk is lost\<close>

text \<open>Claim C17.
  No chunk is lost or duplicated inside a downloader: every chunk that its source has announced is
  at every moment in exactly one place of the downloader, its queue, the hands of its dispatcher or
  of one worker, or the list of counted chunks; and while the chunk is not done it is not counted,
  so it is queued or in somebody's hands and will be looked at again, also after failed transfers
  and after losing it to another downloader.\<close>

theorem no_chunk_lost:
  assumes "reachable cs s" and "d \<in> set (sy_dls s)" and "i \<in> set (d_available d)"
  shows "count (mset (d_queue d) + dispatcher_holds (d_dispatcher d) + sum_list (map worker_holds (d_workers d))) i +
      count_list (d_counted d) i = 1 \<and>
    (Chunk_GetStatus (sh_chunks (sy_shared s) ! i) \<noteq> ChunkStatusDone \<longrightarrow>
       i \<in> set (d_queue d) \<or> i \<in># dispatcher_holds (d_dispatcher d) \<or> (\<exists>w \<in> set (d_workers d). i \<in># worker_holds w))"
proof -
  have ok: "dl_ok (sy_shared s) d" using reachable_ok [OF assms(1)] assms(2) by (simp add: system_ok_def)
  then have "count (pending d + mset (d_counted d)) i = count (mset (d_available d)) i" by (simp add: dl_ok_def)
  also have "\<dots> = 1" using ok assms(3) by (simp add: dl_ok_def distinct_count_atmost_1)
  finally have one: "count (pending d) i + count_list (d_counted d) i = 1" by (simp add: count_mset)
  have "i \<in># pending d" if "status_of (sy_shared s) i \<noteq> ChunkStatusDone"
  proof -
    have "i \<notin> set (d_counted d)" using ok that by (auto simp: dl_ok_def done_claims_def)
    then have "count_list (d_counted d) i = 0" by (simp add: count_list_0_iff)
    then have "count (pending d) i = 1" using one by simp
    then show ?thesis by (metis count_eq_zero_iff zero_neq_one)
  qed
  moreover have "\<exists>w \<in> set ws. i \<in># worker_holds w" if "i \<in># sum_list (map worker_holds ws)" for ws
    using that by (induction ws) auto
  ultimately show ?thesis using one by (auto simp: pending_def status_of_def)
qed

theorem no_chunk_lost_witness:
  "\<exists>w \<in> set (d_workers (sy_dls (demo_state ChunkStatusDownloading AtTop (WRunning 0) [] 0 5) ! 0)). 0 \<in># worker_holds w"
  using no_chunk_lost [OF demo_running, of "sy_dls (demo_state ChunkStatusDownloading AtTop (WRunning 0) [] 0 5) ! 0" 0]
  by (simp add: demo_eval)

section \<open>No goroutine is stuck\<close>

definition closed_late :: "dl \<Rightarrow> bool" where
  "closed_late d \<longleftrightarrow> (WClosed \<in> set (d_workers d) \<or> WExited \<in> set (d_workers d) \<longrightarrow> d_dispatcher d = Finished)"

lemma dispatch_closed_late: "dispatch sh d = Some (sh', d') \<Longrightarrow> closed_late d \<Longrightarrow> closed_late d'"
proof -
  assume run: "dispatch sh d = Some (sh', d')" and c: "closed_late d"
  have "d_dispatcher d \<noteq> Finished" using run by (cases "d_dispatcher d") auto
  moreover have "d_workers d' = d_workers d"
  proof (cases "d_dispatcher d")
    case PopQueue
    then show ?thesis using run by (cases "d_queue d") auto
  next
    case (Loaded i st)
    then show ?thesis using run by (cases st) (auto simp: Chunk_UpdateStatus_def split: if_splits)
  qed (use run in \<open>auto split: if_splits\<close>)
  ultimately show ?thesis using c by (simp add: closed_late_def)
qed

lemma work_closed_late:
  assumes run: "work b k sh d = Some (sh', d')" and c: "closed_late d" and k: "k < length (d_workers d)"
  shows "closed_late d'"
proof -
  have "d_dispatcher d' = d_dispatcher d \<and> (\<exists>w. d_workers d' = (d_workers d)[k := w] \<and>
      (w \<in> {WClosed, WExited} \<longrightarrow> d_workers d ! k = WClosed \<or> d_dispatcher d = Finished))"
    using run by (cases "d_workers d ! k") (auto split: if_splits)
  then obtain w where w: "d_dispatcher d' = d_dispatcher d" "d_workers d' = (d_workers d)[k := w]"
    "w \<in> {WClosed, WExited} \<longrightarrow> d_workers d ! k = WClosed \<or> d_dispatcher d = Finished"
    by blast
  have "x = w \<or> x \<in> set (d_workers d)" if "x \<in> set (d_workers d')" for x
    using that set_update_mem w(2) by fastforce
  moreover have "d_workers d ! k \<in> set (d_workers d)" using k by simp
  ultimately show ?thesis using c w(1,3) unfolding closed_late_def by (metis insertI1 insert_commute)
qed

lemma handoff_closed_late: "handoff k d = Some d' \<Longrightarrow> closed_late d \<Longrightarrow> closed_late d'"
  by (auto simp: handoff_def closed_late_def dest!: set_update_mem split: dispatcher.splits worker.splits)

lemma step_closed_late: "step s s' \<Longrightarrow> \<forall>d \<in> set (sy_dls s). closed_late d \<Longrightarrow> \<forall>d \<in> set (sy_dls s'). closed_late d"
proof (induction rule: step.induct)
  case (dispatcher j dls sh sh' d)
  then show ?case using dispatch_closed_late [OF dispatcher(2)] by (auto dest!: set_update_mem)
next
  case (worker j dls k b sh sh' d)
  then show ?case using work_closed_late [OF worker(3) _ worker(2)] by (auto dest!: set_update_mem)
next
  case (channel j dls k d sh)
  then show ?case using handoff_closed_late [OF channel(3)] by (auto dest!: set_update_mem)
qed (auto simp: closed_late_def announce_def new_dl_def Let_def dest!: set_update_mem)

lemma reachable_closed_late: "reachable cs s \<Longrightarrow> d \<in> set (sy_dls s) \<Longrightarrow> closed_late d"
proof -
  have "reachable cs s \<Longrightarrow> \<forall>d \<in> set (sy_dls s). closed_late d"
    by (induction rule: reachable.induct) (use step_closed_late in \<open>auto simp: initial_def\<close>)
  then show "reachable cs s \<Longrightarrow> d \<in> set (sy_dls s) \<Longrightarrow> closed_late d" by blast
qed

text \<open>
  No downloader deadlocks: in every reachable state, a downloader that has workers and is not
  finished (its dispatcher has left the loop and its workers are gone) has a goroutine that can take
  a step, its dispatcher, a worker, or both through the channel.\<close>

lemma not_stuck:
  assumes "reachable cs s" and "d \<in> set (sy_dls s)" and "d_workers d \<noteq> []"
    and "\<not> (d_dispatcher d = Finished \<and> (\<forall>w \<in> set (d_workers d). w = WExited))"
  shows "dispatch (sy_shared s) d \<noteq> None \<or>
    (\<exists>k < length (d_workers d). \<exists>b. work b k (sy_shared s) d \<noteq> None \<or> handoff k d \<noteq> None)"
proof (rule ccontr)
  assume "\<not> ?thesis"
  then have stuck: "dispatch (sy_shared s) d = None"
    "\<And>k b. k < length (d_workers d) \<Longrightarrow> work b k (sy_shared s) d = None"
    "\<And>k. k < length (d_workers d) \<Longrightarrow> handoff k d = None"
    by blast+
  have ok: "dl_ok (sy_shared s) d" using reachable_ok [OF assms(1)] assms(2) by (simp add: system_ok_def)
  have w: "d_workers d ! k = WExited \<or> d_workers d ! k = WWaiting \<and> d_dispatcher d \<noteq> Finished"
    if "k < length (d_workers d)" for k
    using stuck(2) [OF that, of True] by (cases "d_workers d ! k") (auto split: if_splits)
  have late: "closed_late d" using reachable_closed_late [OF assms(1,2)] .
  show False
  proof (cases "d_dispatcher d = Finished")
    case True
    then show False using w assms(4) by (auto simp: in_set_conv_nth)
  next
    case False
    have waiting: "d_workers d ! 0 = WWaiting"
      using w [of 0] assms(3) late False by (auto simp: closed_late_def in_set_conv_nth)
    have "d_dispatcher d \<noteq> Sending i" for i
      using stuck(3) [of 0] handoffI [of d i 0] waiting assms(3) by auto
    moreover have "i < length (sh_chunks (sy_shared s))" if "d_dispatcher d = Popped i" for i
      using available_bound [OF ok, of i] that by (simp add: pending_def)
    ultimately show False
      using stuck(1) False
    proof (cases "d_dispatcher d")
      case PopQueue
      then show False using stuck(1) by (cases "d_queue d") auto
    next
      case (Loaded i st)
      then show False using stuck(1) by (cases st) (auto simp: Chunk_UpdateStatus_def split: if_splits)
    qed auto
  qed
qed

end
