(* ===== verification/Downloader_Shutdown.thy ===== *)
theory Downloader_Shutdown
  imports Downloader_Props
begin

text \<open>
  The end of the downloaders: the steps of one downloader among those of the program, the work that is
  left for it once the download context is cancelled, and its progress.
\<close>

section \<open>The steps of one downloader\<close>

text \<open>A step of downloader \<open>j\<close>: of its dispatcher, of one of its workers, or of both through the channel.\<close>

inductive own_step :: "nat \<Rightarrow> system \<Rightarrow> system \<Rightarrow> bool" for j where
  dispatcher: "j < length dls \<Longrightarrow> dispatch sh (dls ! j) = Some (sh', d) \<Longrightarrow>
     own_step j \<lparr>sy_shared = sh, sy_dls = dls\<rparr> \<lparr>sy_shared = sh', sy_dls = dls[j := d]\<rparr>"
| worker: "j < length dls \<Longrightarrow> k < length (d_workers (dls ! j)) \<Longrightarrow> work ok k sh (dls ! j) = Some (sh', d) \<Longrightarrow>
     own_step j \<lparr>sy_shared = sh, sy_dls = dls\<rparr> \<lparr>sy_shared = sh', sy_dls = dls[j := d]\<rparr>"
| channel: "j < length dls \<Longrightarrow> k < length (d_workers (dls ! j)) \<Longrightarrow> handoff k (dls ! j) = Some d \<Longrightarrow>
     own_step j \<lparr>sy_shared = sh, sy_dls = dls\<rparr> \<lparr>sy_shared = sh, sy_dls = dls[j := d]\<rparr>"

lemma own_step_step: "own_step j s s' \<Longrightarrow> step s s'"
  by (induction rule: own_step.induct) (rule step.intros; assumption)+

text \<open>Runs of the program with \<open>n\<close> steps of downloader \<open>j\<close>, between any steps that are not its own.\<close>

inductive own_steps :: "nat \<Rightarrow> nat \<Rightarrow> system \<Rightarrow> system \<Rightarrow> bool" for j where
  none: "own_steps j 0 s s"
| own: "own_steps j n s s' \<Longrightarrow> own_step j s' s'' \<Longrightarrow> own_steps j (Suc n) s s''"
| other: "own_steps j n s s' \<Longrightarrow> step s' s'' \<Longrightarrow> \<not> own_step j s' s'' \<Longrightarrow> own_steps j n s s''"

lemma own_steps_reachable: "own_steps j n s s' \<Longrightarrow> reachable cs s \<Longrightarrow> reachable cs s'"
  by (induction rule: own_steps.induct) (auto intro: reachable.step own_step_step)

definition dl_finished :: "dl \<Rightarrow> bool" where
  "dl_finished d \<longleftrightarrow> d_dispatcher d = Finished \<and> (\<forall>w \<in> set (d_workers d). w = WExited)"

lemma finished_no_step:
  assumes "dl_finished (sy_dls s ! j)"
  shows "\<not> own_step j s s'"
proof
  assume "own_step j s s'"
  then show False
    using assms
  proof cases
    case (worker dls k ok sh sh' d)
    then have "d_workers (dls ! j) ! k = WExited" using assms by (simp add: dl_finished_def)
    then show False using worker by simp
  next
    case (channel dls k d sh)
    then show False using assms by (simp add: dl_finished_def handoff_def)
  qed (simp add: dl_finished_def)
qed

lemma own_step_enabled:
  assumes "reachable cs s" and "j < length (sy_dls s)" and "d_workers (sy_dls s ! j) \<noteq> []"
    and "\<not> dl_finished (sy_dls s ! j)"
  shows "\<exists>s'. own_step j s s'"
proof -
  let ?d = "sy_dls s ! j" and ?sh = "sy_shared s"
  have s: "s = \<lparr>sy_shared = ?sh, sy_dls = sy_dls s\<rparr>" by simp
  have "dispatch ?sh ?d \<noteq> None \<or>
      (\<exists>k < length (d_workers ?d). \<exists>b. work b k ?sh ?d \<noteq> None \<or> handoff k ?d \<noteq> None)"
    using not_stuck [OF assms(1) _ assms(3)] assms(2,4) by (auto simp: dl_finished_def)
  then consider (a) sh' d where "dispatch ?sh ?d = Some (sh', d)"
    | (b) k ok sh' d where "k < length (d_workers ?d)" "work ok k ?sh ?d = Some (sh', d)"
    | (c) k d where "k < length (d_workers ?d)" "handoff k ?d = Some d"
    by (metis not_None_eq old.prod.exhaust)
  then show ?thesis
  proof cases
    case a
    then show ?thesis using own_step.dispatcher [OF assms(2) a] s by metis
  next
    case b
    then show ?thesis using own_step.worker [OF assms(2) b] s by metis
  next
    case c
    then show ?thesis using own_step.channel [OF assms(2) c, of ?sh] s by metis
  qed
qed

section \<open>The work that is left after the cancellation\<close>

fun worker_work :: "worker \<Rightarrow> nat" where
  "worker_work WExited = 0"
| "worker_work WClosed = 1"
| "worker_work WWaiting = 2"
| "worker_work WStart = 3"
| "worker_work WCompleting = 4"
| "worker_work WCancelling = 5"
| "worker_work WComparing = 6"
| "worker_work (WCounting i) = 7"
| "worker_work (WStamp i t) = 8"
| "worker_work (WWritten i t) = 9"
| "worker_work (WRequeue i) = 4"
| "worker_work (WFailed i) = 5"
| "worker_work (WRunning i) = 10"
| "worker_work (WReceived i) = 11"

fun dispatcher_work :: "dispatcher \<Rightarrow> nat" where
  "dispatcher_work Finished = 0"
| "dispatcher_work CheckCtx = 1"
| "dispatcher_work AtTop = 2"
| "dispatcher_work Completing = 3"
| "dispatcher_work Cancelling = 4"
| "dispatcher_work Comparing = 5"
| "dispatcher_work Starting = 5"
| "dispatcher_work (Counting i) = 6"
| "dispatcher_work (Sending i) = 20"
| "dispatcher_work (Loaded i st) = 21"
| "dispatcher_work (Popped i) = 22"
| "dispatcher_work PopQueue = 23"
| "dispatcher_work CheckReady = 24"

definition shutdown_work :: "dl \<Rightarrow> nat" where
  "shutdown_work d = dispatcher_work (d_dispatcher d) + sum_list (map worker_work (d_workers d))"

lemma worker_work_le: "worker_work w \<le> 11"
  by (cases w) simp_all

lemma dispatcher_work_le: "dispatcher_work p \<le> 24"
  by (cases p) simp_all

lemma shutdown_work_le: "shutdown_work d \<le> 24 + 11 * length (d_workers d)"
proof -
  have "sum_list (map worker_work ws) \<le> 11 * length ws" for ws
    by (induction ws) (use worker_work_le in \<open>auto intro: add_mono\<close>)
  then show ?thesis using dispatcher_work_le [of "d_dispatcher d"] by (auto simp: shutdown_work_def intro: add_mono)
qed

lemma sum_list_worker:
  "k < length ws \<Longrightarrow> sum_list (map worker_work (ws[k := w])) + worker_work (ws ! k) = sum_list (map worker_work ws) + worker_work w"
  by (induction ws arbitrary: k) (auto split: nat.splits simp: nth_Cons')

lemma shutdown_work_set_worker:
  "k < length (d_workers d) \<Longrightarrow> worker_work w < worker_work (d_workers d ! k) \<Longrightarrow>
   d_workers d' = (d_workers d)[k := w] \<Longrightarrow> d_dispatcher d' = d_dispatcher d \<Longrightarrow> shutdown_work d' < shutdown_work d"
  using sum_list_worker [of k "d_workers d" w] by (simp add: shutdown_work_def)

lemma dispatch_work:
  assumes "dispatch sh d = Some (sh', d')" and "sh_cancelled sh"
  shows "shutdown_work d' < shutdown_work d \<and> sh_cancelled sh' \<and> d_workers d' = d_workers d"
  using assms
  by (cases "d_dispatcher d")
     (auto simp: shutdown_work_def goto_def put_back_def split: if_splits prod.splits ChunkStatus.splits bool.splits)

lemma work_work:
  assumes "work ok k sh d = Some (sh', d')" and "sh_cancelled sh" and "k < length (d_workers d)"
  shows "shutdown_work d' < shutdown_work d \<and> sh_cancelled sh' \<and> length (d_workers d') = length (d_workers d)"
proof -
  have "worker_work (d_workers d' ! k) < worker_work (d_workers d ! k) \<and>
      d_workers d' = (d_workers d)[k := d_workers d' ! k] \<and> d_dispatcher d' = d_dispatcher d \<and> sh_cancelled sh'"
    using assms
    by (cases "d_workers d ! k") (auto simp: set_worker_def put_back_def set_status_def split: if_splits)
  then show ?thesis using shutdown_work_set_worker [OF assms(3)] by (metis length_list_update)
qed

lemma handoff_work:
  assumes "handoff k d = Some d'" and "k < length (d_workers d)"
  shows "shutdown_work d' < shutdown_work d \<and> length (d_workers d') = length (d_workers d)"
  using assms sum_list_worker [OF assms(2), of "WReceived i" for i]
  by (auto simp: handoff_def shutdown_work_def goto_def set_worker_def split: dispatcher.splits worker.splits)

lemma own_step_work:
  assumes "own_step j s s'" and "sh_cancelled (sy_shared s)"
  shows "shutdown_work (sy_dls s' ! j) < shutdown_work (sy_dls s ! j) \<and> sh_cancelled (sy_shared s') \<and>
    length (sy_dls s') = length (sy_dls s)"
  using assms
proof cases
  case (dispatcher dls sh sh' d)
  then show ?thesis using dispatch_work [of sh "dls ! j" sh' d] assms(2) by simp
next
  case (worker dls k ok sh sh' d)
  then show ?thesis using work_work [of ok k sh "dls ! j" sh' d] assms(2) by simp
next
  case (channel dls k d sh)
  then show ?thesis using handoff_work [of k "dls ! j" d] assms(2) by simp
qed

lemma other_step_work:
  assumes "step s s'" and "\<not> own_step j s s'" and "j < length (sy_dls s)" and "sh_cancelled (sy_shared s)"
  shows "shutdown_work (sy_dls s' ! j) = shutdown_work (sy_dls s ! j) \<and> sh_cancelled (sy_shared s') \<and>
    length (sy_dls s) \<le> length (sy_dls s')"
  using assms(1)
proof cases
  case (dispatcher i dls sh sh' d)
  then have "i \<noteq> j" using assms(2) own_step.dispatcher by blast
  then show ?thesis using dispatcher dispatch_work [of sh "dls ! i" sh' d] assms(4) by simp
next
  case (worker i dls k ok sh sh' d)
  then have "i \<noteq> j" using assms(2) own_step.worker by blast
  then show ?thesis using worker work_work [of ok k sh "dls ! i" sh' d] assms(4) by simp
next
  case (channel i dls k d sh)
  then have "i \<noteq> j" using assms(2) own_step.channel by blast
  then show ?thesis using channel assms(4) by simp
next
  case (announce i dls "is" sh draw)
  then show ?thesis using assms(3,4)
    by (cases "i = j") (auto simp: shutdown_work_def announce_def Let_def)
next
  case (stop i dls sh)
  then show ?thesis using assms(3,4) by (cases "i = j") (auto simp: shutdown_work_def)
qed (use assms(3,4) in \<open>auto simp: nth_append\<close>)

lemma own_steps_work:
  assumes "own_steps j n s s'" and "j < length (sy_dls s)" and "sh_cancelled (sy_shared s)"
  shows "n + shutdown_work (sy_dls s' ! j) \<le> shutdown_work (sy_dls s ! j) \<and> sh_cancelled (sy_shared s') \<and>
    length (sy_dls s) \<le> length (sy_dls s')"
  using assms
proof (induction rule: own_steps.induct)
  case (own n s s' s'')
  then show ?case using own_step_work [OF own.hyps(2)] by simp
next
  case (other n s s' s'')
  then show ?case using other_step_work [OF other.hyps(2,3)] by simp
qed simp

section \<open>Progress\<close>

text \<open>Claim C18. The downloaders make progress and end. In every reachable state a downloader with workers has a step of
  its own, of its dispatcher, of a worker, or of both through the channel, unless it is finished, that
  is its dispatcher has left the loop and its workers are gone: no downloader deadlocks. And from the
  moment the download context is cancelled, in every run of the program, whatever the other downloaders
  and the network do, at most 24 + 11 * w steps of a downloader with w workers remain.\<close>

theorem downloader_ends:
  assumes "reachable cs s" and "j < length (sy_dls s)" and "d_workers (sy_dls s ! j) \<noteq> []"
  shows "((\<exists>s'. own_step j s s') \<longleftrightarrow> \<not> dl_finished (sy_dls s ! j)) \<and>
    (sh_cancelled (sy_shared s) \<longrightarrow>
      (\<forall>n s'. own_steps j n s s' \<longrightarrow> n \<le> 24 + 11 * length (d_workers (sy_dls s ! j))))"
  using own_step_enabled [OF assms] finished_no_step [of s j] own_steps_work [of j _ s] assms(2)
    shutdown_work_le [of "sy_dls s ! j"]
  by (meson add_leD1 order_trans)

text \<open>A worker has transferred the only chunk and is about to cancel the context.\<close>

theorem downloader_ends_witness:
  "\<exists>s'. own_step 0 (demo_done WCancelling [0]) s'"
  using downloader_ends [OF demo_cancelling, of 0]
  by (simp add: demo_done_def dl_finished_def)

end
