(* ===== verification/Http_Client.thy ===== *)
theory Http_Client
  imports Manifest_Data Storage_Interface Go_Strings
begin

text \<open>
  Package \<open>http\<close>: the encodings (\<open>encoder.go\<close>), the request options (\<open>option.go\<close>) and the client
  (\<open>client.go\<close>). What is outside the program is an environment: \<open>ev_Do\<close> is the network, the
  answer of \<open>http.NewRequestWithContext\<close> and \<open>client.Do\<close> to a request, and \<open>ev_unzstd\<close>, \<open>ev_zstd\<close>,
  \<open>ev_zstd_stream\<close> are gozstd, its streaming reader, \<open>CompressLevel\<close> and its streaming writer. The contexts appear as the events of their release: every function returns
  what it closed and cancelled, so that leaks are statements about these events.
\<close>

section \<open>Headers, requests and responses\<close>

type_synonym Header = "string \<rightharpoonup> string list"

definition Header_Set :: "string \<Rightarrow> string \<Rightarrow> Header \<Rightarrow> Header" where
  "Header_Set key value h = h(key \<mapsto> [value])"

definition Header_Get :: "Header \<Rightarrow> string \<Rightarrow> string" where
  "Header_Get h key = (case h key of Some (v # _) \<Rightarrow> v | _ \<Rightarrow> [])"

text \<open>Indexing a header with \<open>[]\<close>: a missing key gives no values.\<close>

definition Header_values :: "Header \<Rightarrow> string \<Rightarrow> string list" where
  "Header_values h key = (case h key of None \<Rightarrow> [] | Some vs \<Rightarrow> vs)"

record Request =
  rq_method :: string
  rq_url :: string
  rq_header :: Header
  rq_body :: "byte list option"

record Response =
  rs_StatusCode :: int
  rs_Header :: Header
  rs_Body :: Reader

datatype event = BodyClosed | ZstdReleased | Cancelled

text \<open>An \<open>io.ReadCloser\<close>: what it delivers, and what its \<open>Close\<close> does.\<close>

record ReadCloser =
  rc_reader :: Reader
  rc_close :: "event list"

record http_env =
  ev_Do :: "Request \<Rightarrow> Response result"
  ev_unzstd :: "Reader \<Rightarrow> Reader"
  ev_zstd :: "byte list \<Rightarrow> byte list result"
  ev_zstd_stream :: "byte list \<Rightarrow> byte list"

section \<open>encoder.go\<close>

definition EncodingTypeNone :: string where "EncodingTypeNone = ''none''"
definition EncodingTypeZstd :: string where "EncodingTypeZstd = ''zstd''"

definition EncodingPriorMap :: "string \<rightharpoonup> int" where
  "EncodingPriorMap = [EncodingTypeNone \<mapsto> 9, EncodingTypeZstd \<mapsto> 1]"

definition Prior :: "string \<Rightarrow> int" where
  "Prior e = (case EncodingPriorMap e of None \<Rightarrow> 0 | Some p \<Rightarrow> p)"

fun prefer_tokens :: "string list \<Rightarrow> string \<Rightarrow> string" where
  "prefer_tokens [] encodingType = encodingType"
| "prefer_tokens (vv # vvs) encodingType =
     (case EncodingPriorMap (TrimSpace vv) of
        Some priority \<Rightarrow>
          prefer_tokens vvs (if priority < Prior encodingType then TrimSpace vv else encodingType)
      | None \<Rightarrow> prefer_tokens vvs encodingType)"

fun prefer_headers :: "string list \<Rightarrow> string \<Rightarrow> string" where
  "prefer_headers [] encodingType = encodingType"
| "prefer_headers (v # vs) encodingType = prefer_headers vs (prefer_tokens (Split (CHR '','') v) encodingType)"

definition GetPreferredEncodingType :: "string list \<Rightarrow> string" where
  "GetPreferredEncodingType acceptEncodingHeader = prefer_headers acceptEncodingHeader EncodingTypeNone"

text \<open>The pointer argument: \<open>None\<close> is nil, and the pointed-to string may be set.\<close>

definition IsAvailableEncoding :: "string option \<Rightarrow> bool \<times> string option" where
  "IsAvailableEncoding encodingType =
     (case encodingType of
        None \<Rightarrow> (False, None)
      | Some e \<Rightarrow> if e = [] then (True, Some EncodingTypeNone) else (EncodingPriorMap e \<noteq> None, Some e))"

definition NewEncodingReadCloser :: "http_env \<Rightarrow> ReadCloser \<Rightarrow> string \<Rightarrow> ReadCloser" where
  "NewEncodingReadCloser env reader encodingType =
     (if encodingType = EncodingTypeZstd
      then \<lparr>rc_reader = ev_unzstd env (rc_reader reader), rc_close = ZstdReleased # rc_close reader\<rparr>
      else reader)"

text \<open>A panic of the compressor is an error; the value is the encoded data.\<close>

definition NewBufferEncodingReader :: "http_env \<Rightarrow> byte list \<Rightarrow> string \<Rightarrow> byte list result" where
  "NewBufferEncodingReader env data encodingType =
     (if encodingType = EncodingTypeZstd then ev_zstd env data else Inr data)"

text \<open>What a writer with this encoding has written when it is closed.\<close>

definition NewEncodingWriteCloser :: "http_env \<Rightarrow> string \<Rightarrow> byte list \<Rightarrow> byte list" where
  "NewEncodingWriteCloser env encodingType data =
     (if encodingType = EncodingTypeZstd then ev_zstd_stream env data else data)"

section \<open>option.go\<close>

record config =
  cf_method :: string
  cf_body :: "byte list option"
  cf_contentType :: string
  cf_expectedContentType :: string
  cf_acceptEncodingType :: string
  cf_wantDigest :: string

type_synonym Option = "config \<Rightarrow> config"

definition WithMethod :: "string \<Rightarrow> Option" where
  "WithMethod method c = c\<lparr>cf_method := method\<rparr>"

definition WithBody :: "byte list \<Rightarrow> Option" where
  "WithBody body c = c\<lparr>cf_body := Some body\<rparr>"

definition WithContentType :: "string \<Rightarrow> Option" where
  "WithContentType contentType c = c\<lparr>cf_contentType := contentType\<rparr>"

definition WithExpectedContentType :: "string \<Rightarrow> Option" where
  "WithExpectedContentType expectedContentType c = c\<lparr>cf_expectedContentType := expectedContentType\<rparr>"

definition WithAcceptEncodingType :: "string \<Rightarrow> Option" where
  "WithAcceptEncodingType encodingType c = c\<lparr>cf_acceptEncodingType := encodingType\<rparr>"

definition WithWantDigest :: "string \<Rightarrow> Option" where
  "WithWantDigest wantDigest c = c\<lparr>cf_wantDigest := wantDigest\<rparr>"

section \<open>client.go\<close>

definition checkContentType :: "Header \<Rightarrow> string \<Rightarrow> go_error option" where
  "checkContentType h expected =
     (if expected = [] then None
      else (case h ''Content-Type'' of
              None \<Rightarrow> Some (Error ''Content-Type header not found'')
            | Some contentTypeHeaders \<Rightarrow>
                if contentTypeHeaders = [] then Some (Error ''Content-Type header not found'')
                else if \<exists>contentTypeHeader \<in> set contentTypeHeaders.
                          \<exists>token \<in> set (Split (CHR '';'') contentTypeHeader). TrimSpace token = expected
                then None else Some (Error ''no Content-Type matched'')))"

definition config0 :: config where
  "config0 = \<lparr>cf_method = ''GET'', cf_body = None, cf_contentType = [], cf_expectedContentType = [],
     cf_acceptEncodingType = EncodingTypeNone, cf_wantDigest = []\<rparr>"

definition request_of :: "config \<Rightarrow> string \<Rightarrow> Request" where
  "request_of cfg url =
     (let h0 = Map.empty;
          h1 = if cf_wantDigest cfg \<noteq> [] then Header_Set ''Want-Digest'' (cf_wantDigest cfg) h0 else h0;
          h2 = if cf_contentType cfg \<noteq> [] then Header_Set ''Content-Type'' (cf_contentType cfg) h1 else h1;
          h3 = if cf_acceptEncodingType cfg = EncodingTypeZstd then Header_Set ''Accept-Encoding'' EncodingTypeZstd h2 else h2
      in \<lparr>rq_method = cf_method cfg, rq_url = url, rq_header = h3, rq_body = cf_body cfg\<rparr>)"

definition HttpClient_request ::
  "http_env \<Rightarrow> string \<Rightarrow> Option list \<Rightarrow> (Header \<times> ReadCloser) result \<times> event list" where
  "HttpClient_request env url options =
     (let cfg = fold (\<lambda>option c. option c) options config0 in
      case ev_Do env (request_of cfg url) of
        Inl err \<Rightarrow> (Inl err, [])
      | Inr response \<Rightarrow>
          if rs_StatusCode response < 200 \<or> rs_StatusCode response \<ge> 300
          then (Inl (Error ''HTTP response status is not success''), [BodyClosed])
          else (case checkContentType (rs_Header response) (cf_expectedContentType cfg) of
                  Some err \<Rightarrow> (Inl err, [BodyClosed])
                | None \<Rightarrow>
                    let encodingType = TrimSpace (Header_Get (rs_Header response) ''Content-Encoding'') in
                    (Inr (rs_Header response,
                          NewEncodingReadCloser env \<lparr>rc_reader = rs_Body response, rc_close = [BodyClosed]\<rparr> encodingType),
                     [])))"

definition ReadAll :: "Reader \<Rightarrow> byte list result" where
  "ReadAll reader = (if rd_fin reader = EOF then Inr (rd_data reader) else Inl (rd_fin reader))"

definition RequestBodyWithContext :: "http_env \<Rightarrow> string \<Rightarrow> Option list \<Rightarrow> byte list result \<times> event list" where
  "RequestBodyWithContext env url options =
     (case HttpClient_request env url options of
        (Inl err, ev) \<Rightarrow> (Inl err, ev)
      | (Inr (header, reader), ev) \<Rightarrow> (ReadAll (rc_reader reader), ev @ rc_close reader))"

definition NewContextReadCloser :: "ReadCloser \<Rightarrow> ReadCloser" where
  "NewContextReadCloser readCloser = readCloser\<lparr>rc_close := rc_close readCloser @ [Cancelled]\<rparr>"

definition HttpClient_Request ::
  "http_env \<Rightarrow> string \<Rightarrow> Option list \<Rightarrow> (Header \<times> ReadCloser) result \<times> event list" where
  "HttpClient_Request env url options =
     (case HttpClient_request env url options of
        (Inl err, ev) \<Rightarrow> (Inl err, ev @ [Cancelled])
      | (Inr (header, readCloser), ev) \<Rightarrow> (Inr (header, NewContextReadCloser readCloser), ev))"

definition RequestBody :: "http_env \<Rightarrow> string \<Rightarrow> Option list \<Rightarrow> byte list result \<times> event list" where
  "RequestBody env url options =
     (let (r, ev) = RequestBodyWithContext env url options in (r, ev @ [Cancelled]))"

text \<open>The package functions on the default client, without the events.\<close>

definition RequestWithContext :: "http_env \<Rightarrow> string \<Rightarrow> Option list \<Rightarrow> byte list result" where
  "RequestWithContext env url options = fst (RequestBodyWithContext env url options)"

definition Request_default :: "http_env \<Rightarrow> string \<Rightarrow> Option list \<Rightarrow> byte list result" where
  "Request_default env url options = fst (RequestBody env url options)"

section \<open>Lemmas\<close>

lemma Prior_simps [simp]: "Prior EncodingTypeNone = 9" "Prior EncodingTypeZstd = 1"
  by (simp_all add: Prior_def EncodingPriorMap_def EncodingTypeNone_def EncodingTypeZstd_def)

lemma EncodingPriorMap_cases:
  "EncodingPriorMap e = Some p \<Longrightarrow> e = EncodingTypeNone \<and> p = 9 \<or> e = EncodingTypeZstd \<and> p = 1"
  by (auto simp: EncodingPriorMap_def split: if_splits)

lemma EncodingTypes_differ [simp]: "EncodingTypeNone \<noteq> EncodingTypeZstd" "EncodingTypeZstd \<noteq> EncodingTypeNone"
  by (simp_all add: EncodingTypeNone_def EncodingTypeZstd_def)

lemma EncodingPriorMap_zstd [simp]: "EncodingPriorMap EncodingTypeZstd = Some 1"
  by (simp add: EncodingPriorMap_def)

lemma prefer_tokens_iff:
  "e \<in> {EncodingTypeNone, EncodingTypeZstd} \<Longrightarrow>
   prefer_tokens vvs e =
     (if e = EncodingTypeZstd \<or> (\<exists>vv \<in> set vvs. TrimSpace vv = EncodingTypeZstd) then EncodingTypeZstd else EncodingTypeNone)"
proof (induction vvs arbitrary: e)
  case (Cons vv vvs)
  show ?case
  proof (cases "EncodingPriorMap (TrimSpace vv)")
    case None
    then have "TrimSpace vv \<noteq> EncodingTypeZstd" by auto
    then show ?thesis using Cons None by simp
  next
    case (Some p)
    define t where "t = TrimSpace vv"
    have "t = EncodingTypeNone \<and> p = 9 \<or> t = EncodingTypeZstd \<and> p = 1"
      using EncodingPriorMap_cases [OF Some] by (simp add: t_def)
    moreover have "prefer_tokens (vv # vvs) e = prefer_tokens vvs (if p < Prior e then t else e)"
      using Some by (simp add: t_def)
    ultimately show ?thesis
      using Cons.prems Cons.IH [of EncodingTypeNone] Cons.IH [of EncodingTypeZstd] t_def by (elim disjE conjE) auto
  qed
qed auto

lemma prefer_headers_iff:
  "e \<in> {EncodingTypeNone, EncodingTypeZstd} \<Longrightarrow>
   prefer_headers vs e =
     (if e = EncodingTypeZstd \<or> (\<exists>v \<in> set vs. \<exists>vv \<in> set (Split (CHR '','') v). TrimSpace vv = EncodingTypeZstd)
      then EncodingTypeZstd else EncodingTypeNone)"
  by (induction vs arbitrary: e) (auto simp: prefer_tokens_iff)

text \<open>
  What a call holds when it returns: the body of a response that arrived, the decoder on it, and the
  context of the call.
\<close>

definition held :: "http_env \<Rightarrow> string \<Rightarrow> Option list \<Rightarrow> event list" where
  "held env url options =
     (case ev_Do env (request_of (fold (\<lambda>option c. option c) options config0) url) of
        Inl err \<Rightarrow> [] | Inr response \<Rightarrow> [BodyClosed])"

lemma HttpClient_request_events:
  "case HttpClient_request env url options of
     (Inl err, ev) \<Rightarrow> ev = held env url options
   | (Inr (header, rc), ev) \<Rightarrow> ev = [] \<and> filter (\<lambda>e. e \<noteq> ZstdReleased) (rc_close rc) = held env url options"
proof (cases "ev_Do env (request_of (fold (\<lambda>option c. option c) options config0) url)")
  case (Inl err)
  then show ?thesis by (simp add: HttpClient_request_def held_def)
next
  case (Inr response)
  let ?cfg = "fold (\<lambda>option c. option c) options config0"
  show ?thesis
    by (cases "checkContentType (rs_Header response) (cf_expectedContentType ?cfg)")
      (simp_all add: Inr HttpClient_request_def held_def NewEncodingReadCloser_def)
qed

end
