(* ===== verification/Go_Url.thy ===== *)
theory Go_Url
  imports Go_Strings
begin

text \<open>
  What the sources use of Go's packages \<open>net/url\<close> and \<open>net\<close>, as of Go 1.24: \<open>url.Parse\<close> with the
  scheme, the host and the path it finds and the errors it reports, and \<open>net.SplitHostPort\<close> and
  \<open>net.JoinHostPort\<close>. Strings are sequences of bytes.
\<close>

section \<open>Unescaping\<close>

definition hexval :: "char \<Rightarrow> nat option" where
  "hexval c =
     (let n = of_char c :: nat in
      if 48 \<le> n \<and> n \<le> 57 then Some (n - 48)
      else if 97 \<le> n \<and> n \<le> 102 then Some (n - 87)
      else if 65 \<le> n \<and> n \<le> 70 then Some (n - 55) else None)"

definition is_alpha :: "char \<Rightarrow> bool" where
  "is_alpha c \<longleftrightarrow> (let n = of_char c :: nat in 65 \<le> n \<and> n \<le> 90 \<or> 97 \<le> n \<and> n \<le> 122)"

definition is_num :: "char \<Rightarrow> bool" where
  "is_num c \<longleftrightarrow> digit_value c \<noteq> None"

text \<open>The bytes below 128 that may stand in a host.\<close>

definition host_char :: "char \<Rightarrow> bool" where
  "host_char c \<longleftrightarrow> is_alpha c \<or> is_num c \<or> c \<in> set ''-_.~!$&'()*+,;=:[]<>'' \<or> c = CHR 0x22 \<or> 128 \<le> (of_char c :: nat)"

text \<open>
  The modes of \<open>unescape\<close>: in a path, every escape is decoded; in a host, an escape may only stand
  for a byte that is not ASCII; in a zone, also for a few others; in a query component \<open>+\<close> is a space.
\<close>

datatype encoding = encodePath | encodeHost | encodeZone | encodeUserPassword | encodeQueryComponent

function unescape :: "encoding \<Rightarrow> string \<Rightarrow> string option" where
  "unescape mode [] = Some []"
| "unescape mode (c # cs) =
     (if c = CHR ''%'' then
        (case cs of
           a # b # rest \<Rightarrow>
             (case (hexval a, hexval b) of
                (Some x, Some y) \<Rightarrow>
                  if mode = encodeHost \<and> x < 8 \<and> \<not> (a = CHR ''2'' \<and> b = CHR ''5'') then None
                  else if mode = encodeZone \<and> \<not> (a = CHR ''2'' \<and> b = CHR ''5'') \<and> 16 * x + y \<noteq> 32 \<and>
                          (8 \<le> x \<or> \<not> host_char (char_of (16 * x + y))) then None
                  else map_option (\<lambda>t. char_of (16 * x + y) # t) (unescape mode rest)
              | _ \<Rightarrow> None)
         | _ \<Rightarrow> None)
      else if c = CHR ''+'' \<and> mode = encodeQueryComponent then map_option (\<lambda>t. CHR '' '' # t) (unescape mode cs)
      else if (mode = encodeHost \<or> mode = encodeZone) \<and> \<not> host_char c then None
      else map_option (\<lambda>t. c # t) (unescape mode cs))"
  by pat_completeness auto
termination by (relation "measure (\<lambda>(mode, s). length s)") auto

section \<open>url.Parse\<close>

record URL =
  url_Scheme :: string
  url_Host :: string
  url_Path :: string
  url_RawQuery :: string

definition cut_at :: "char \<Rightarrow> string \<Rightarrow> string \<times> string" where
  "cut_at sep s = (takeWhile (\<lambda>c. c \<noteq> sep) s, drop 1 (dropWhile (\<lambda>c. c \<noteq> sep) s))"

text \<open>
  \<open>getScheme\<close>: the part before the first colon if it is a scheme. \<open>None\<close> is the error of a colon in
  the first position.
\<close>

fun getScheme :: "string \<Rightarrow> string \<Rightarrow> string \<Rightarrow> (string \<times> string) option" where
  "getScheme raw acc [] = Some ([], raw)"
| "getScheme raw acc (c # cs) =
     (if is_alpha c then getScheme raw (acc @ [c]) cs
      else if is_num c \<or> c \<in> set ''+-.'' then
        (if acc = [] then Some ([], raw) else getScheme raw (acc @ [c]) cs)
      else if c = CHR '':'' then (if acc = [] then None else Some (acc, cs))
      else Some ([], raw))"

definition validOptionalPort :: "string \<Rightarrow> bool" where
  "validOptionalPort port \<longleftrightarrow>
     (case port of [] \<Rightarrow> True | c # cs \<Rightarrow> c = CHR '':'' \<and> (\<forall>d \<in> set cs. is_num d))"

text \<open>What follows the last occurrence of a character, and what precedes it.\<close>

definition after_last :: "char \<Rightarrow> string \<Rightarrow> string" where
  "after_last sep s = rev (takeWhile (\<lambda>c. c \<noteq> sep) (rev s))"

definition before_last :: "char \<Rightarrow> string \<Rightarrow> string" where
  "before_last sep s = rev (drop 1 (dropWhile (\<lambda>c. c \<noteq> sep) (rev s)))"

text \<open>The position of a zone, \<open>%25\<close>, in the part of a host up to its last bracket.\<close>

function split_zone :: "string \<Rightarrow> string \<Rightarrow> (string \<times> string) option" where
  "split_zone acc s =
     (if s = [] then None else if HasPrefix s ''%25'' then Some (acc, s) else split_zone (acc @ [hd s]) (tl s))"
  by pat_completeness auto
termination by (relation "measure (\<lambda>(acc, s). length s)") auto

declare split_zone.simps [simp del]

definition parseHost :: "string \<Rightarrow> string option" where
  "parseHost host =
     (if HasPrefix host ''['' then
        (if CHR '']'' \<notin> set host then None
         else if \<not> validOptionalPort (after_last (CHR '']'') host) then None
         else (case split_zone [] (before_last (CHR '']'') host) of
                 Some (a, z) \<Rightarrow>
                   (case (unescape encodeHost a, unescape encodeZone z,
                          unescape encodeHost (CHR '']'' # after_last (CHR '']'') host)) of
                      (Some h1, Some h2, Some h3) \<Rightarrow> Some (h1 @ h2 @ h3)
                    | _ \<Rightarrow> None)
               | None \<Rightarrow> unescape encodeHost host))
      else if CHR '':'' \<in> set host \<and> \<not> validOptionalPort (CHR '':'' # after_last (CHR '':'') host) then None
      else unescape encodeHost host)"

definition validUserinfo :: "string \<Rightarrow> bool" where
  "validUserinfo s \<longleftrightarrow> (\<forall>c \<in> set s. is_alpha c \<or> is_num c \<or> c \<in> set ''-._:~!$&'()*+,;=%@'')"

definition parseAuthority :: "string \<Rightarrow> string option" where
  "parseAuthority authority =
     (case parseHost (if CHR ''@'' \<in> set authority then after_last (CHR ''@'') authority else authority) of
        None \<Rightarrow> None
      | Some host \<Rightarrow>
          if CHR ''@'' \<notin> set authority then Some host
          else let userinfo = before_last (CHR ''@'') authority in
            if \<not> validUserinfo userinfo then None
            else if unescape encodeUserPassword (fst (cut_at (CHR '':'') userinfo)) = None \<or>
                    unescape encodeUserPassword (snd (cut_at (CHR '':'') userinfo)) = None then None
            else Some host)"

definition ctl_byte :: "char \<Rightarrow> bool" where
  "ctl_byte c \<longleftrightarrow> (of_char c :: nat) < 32 \<or> (of_char c :: nat) = 127"

text \<open>\<open>parse\<close> without the fragment.\<close>

definition parse_url :: "string \<Rightarrow> URL option" where
  "parse_url u =
     (if \<exists>c \<in> set u. ctl_byte c then None
      else if u = ''*'' then Some \<lparr>url_Scheme = [], url_Host = [], url_Path = ''*'', url_RawQuery = []\<rparr>
      else case getScheme u [] u of
        None \<Rightarrow> None
      | Some (sch, rest0) \<Rightarrow>
          let scheme = ToLower sch;
              (rest, query) = cut_at (CHR ''?'') rest0 in
          if \<not> HasPrefix rest ''/'' \<and> scheme \<noteq> [] then
            Some \<lparr>url_Scheme = scheme, url_Host = [], url_Path = [], url_RawQuery = query\<rparr>
          else if \<not> HasPrefix rest ''/'' \<and> CHR '':'' \<in> set (fst (cut_at (CHR ''/'') rest)) then None
          else if (scheme \<noteq> [] \<or> \<not> HasPrefix rest ''///'') \<and> HasPrefix rest ''//'' then
            (let authority = takeWhile (\<lambda>c. c \<noteq> CHR ''/'') (drop 2 rest);
                 path = dropWhile (\<lambda>c. c \<noteq> CHR ''/'') (drop 2 rest) in
             case (parseAuthority authority, unescape encodePath path) of
               (Some host, Some p) \<Rightarrow> Some \<lparr>url_Scheme = scheme, url_Host = host, url_Path = p, url_RawQuery = query\<rparr>
             | _ \<Rightarrow> None)
          else (case unescape encodePath rest of
                  None \<Rightarrow> None
                | Some p \<Rightarrow> Some \<lparr>url_Scheme = scheme, url_Host = [], url_Path = p, url_RawQuery = query\<rparr>))"

text \<open>\<open>url.Parse\<close>: the fragment is cut off and must be well escaped.\<close>

definition url_Parse :: "string \<Rightarrow> URL result" where
  "url_Parse rawURL =
     (let (u, frag) = cut_at (CHR ''#'') rawURL in
      case parse_url u of
        None \<Rightarrow> Inl (Error ''invalid URL'')
      | Some url \<Rightarrow> if unescape encodePath frag = None then Inl (Error ''invalid URL'') else Inr url)"

section \<open>net\<close>

text \<open>
  \<open>SplitHostPort\<close>: \<open>host:port\<close> or \<open>[host]:port\<close>; an error without a port, with too many colons, or
  with brackets in other places.
\<close>

definition SplitHostPort :: "string \<Rightarrow> (string \<times> string) result" where
  "SplitHostPort hostport =
     (if CHR '':'' \<notin> set hostport then Inl (Error ''missing port in address'')
      else
        let port = after_last (CHR '':'') hostport;
            front = before_last (CHR '':'') hostport in
        if HasPrefix hostport ''['' then
          (let inner = drop 1 hostport;
               host = takeWhile (\<lambda>c. c \<noteq> CHR '']'') inner;
               rest = dropWhile (\<lambda>c. c \<noteq> CHR '']'') inner in
           if rest = [] then Inl (Error ''missing ']' in address'')
           else if drop 1 rest = [] then Inl (Error ''missing port in address'')
           else if drop 1 rest \<noteq> CHR '':'' # port then
             Inl (Error (if hd (drop 1 rest) = CHR '':'' then ''too many colons in address'' else ''missing port in address''))
           else if CHR ''['' \<in> set host \<or> CHR ''['' \<in> set (drop 1 rest) then Inl (Error ''unexpected '[' in address'')
           else if CHR '']'' \<in> set (drop 1 rest) then Inl (Error ''unexpected ']' in address'')
           else Inr (host, port))
        else if CHR '':'' \<in> set front then Inl (Error ''too many colons in address'')
        else if CHR ''['' \<in> set hostport then Inl (Error ''unexpected '[' in address'')
        else if CHR '']'' \<in> set hostport then Inl (Error ''unexpected ']' in address'')
        else Inr (front, port))"

definition JoinHostPort :: "string \<Rightarrow> string \<Rightarrow> string" where
  "JoinHostPort host port =
     (if CHR '':'' \<in> set host then ''['' @ host @ '']:'' @ port else host @ '':'' @ port)"

section \<open>Queries\<close>

text \<open>\<open>url.QueryEscape\<close> and \<open>url.ParseQuery\<close>, the second without the errors, which \<open>Query\<close> drops.\<close>

definition unreserved :: "char \<Rightarrow> bool" where
  "unreserved c \<longleftrightarrow> is_alpha c \<or> is_num c \<or> c \<in> set ''-_.~''"

definition upper_hex :: "nat \<Rightarrow> char" where
  "upper_hex d = (if d < 10 then char_of (48 + d) else char_of (55 + d))"

definition QueryEscape :: "string \<Rightarrow> string" where
  "QueryEscape s =
     concat (map (\<lambda>c. if unreserved c then [c] else if c = CHR '' '' then ''+''
        else [CHR ''%'', upper_hex (of_char c div 16), upper_hex (of_char c mod 16)]) s)"

fun parse_pairs :: "string list \<Rightarrow> (string \<rightharpoonup> string list) \<Rightarrow> (string \<rightharpoonup> string list)" where
  "parse_pairs [] q = q"
| "parse_pairs (p # ps) q =
     (if p = [] \<or> CHR '';'' \<in> set p then parse_pairs ps q
      else case (unescape encodeQueryComponent (fst (cut_at (CHR ''='') p)),
                 unescape encodeQueryComponent (snd (cut_at (CHR ''='') p))) of
        (Some k, Some v) \<Rightarrow> parse_pairs ps (q(k \<mapsto> (case q k of None \<Rightarrow> [] | Some vs \<Rightarrow> vs) @ [v]))
      | _ \<Rightarrow> parse_pairs ps q)"

definition ParseQuery :: "string \<Rightarrow> (string \<rightharpoonup> string list)" where
  "ParseQuery query = parse_pairs (Split (CHR ''&'') query) Map.empty"

lemma hexval_upper [simp]: "d < 16 \<Longrightarrow> hexval (upper_hex d) = Some d"
  by (auto simp: hexval_def upper_hex_def Let_def)

lemma unreserved_not: "unreserved c \<Longrightarrow> c \<noteq> CHR ''%'' \<and> c \<noteq> CHR ''+'' \<and> c \<noteq> CHR ''&'' \<and> c \<noteq> CHR '';'' \<and> c \<noteq> CHR ''='' \<and> c \<noteq> CHR ''#''"
  by (rule ccontr) (auto simp: unreserved_def is_alpha_def is_num_def digit_value_def)

lemma unescape_QueryEscape: "unescape encodeQueryComponent (QueryEscape s) = Some s"
proof (induction s)
  case (Cons c s)
  have "(of_char c :: nat) < 256" by simp
  then have "(of_char c :: nat) < 16 * 16" by linarith
  then have lt: "(of_char c :: nat) div 16 < 16" by (rule less_mult_imp_div_less)
  consider "unreserved c" | "\<not> unreserved c" "c = CHR '' ''" | "\<not> unreserved c" "c \<noteq> CHR '' ''" by blast
  then show ?case
  proof cases
    case 1
    then show ?thesis using Cons unreserved_not [of c] by (simp add: QueryEscape_def)
  next
    case 2
    then show ?thesis using Cons by (simp add: QueryEscape_def)
  next
    case 3
    have "QueryEscape (c # s) = CHR ''%'' # upper_hex (of_char c div 16) # upper_hex (of_char c mod 16) # QueryEscape s"
      using 3 by (simp add: QueryEscape_def)
    then show ?thesis using Cons lt by simp
  qed
qed (simp add: QueryEscape_def)

end
