(* ===== verification/Peers.thy ===== *)
theory Peers
  imports Http_Client Go_Url
begin

text \<open>
  Package \<open>peers\<close>: the address normalisation and the factory (\<open>provider.go\<close>), the options
  (\<open>option.go\<close>) and the four providers of peer lists (\<open>static_provider.go\<close>, \<open>url_provider.go\<close>,
  \<open>a_record_provider.go\<close>, \<open>srv_record_provider.go\<close>). The interface \<open>Provider\<close> is a datatype with one
  constructor per implementation; the locale \<open>peer_provider\<close> states what its users rely on and is
  interpreted on the four implementations. The network and the DNS resolver are environments.
\<close>

section \<open>provider.go: addresses\<close>

text \<open>The brackets around an IPv6 address, which \<open>JoinHostPort\<close> adds again.\<close>

definition strip_brackets :: "string \<Rightarrow> string" where
  "strip_brackets host =
     (if 2 < length host \<and> hd host = CHR ''['' \<and> last host = CHR '']'' then butlast (tl host) else host)"

text \<open>The first half of \<open>normalizePeerAddress\<close>: the scheme is removed.\<close>

definition without_scheme :: "string \<Rightarrow> string result" where
  "without_scheme s =
     (case url_Parse s of
        Inr parsed \<Rightarrow>
          if url_Scheme parsed = ''http'' \<or> url_Scheme parsed = ''https'' then
            if url_Host parsed = [] then Inl (Error ''empty host in URL'')
            else Inr (url_Host parsed @ url_Path parsed)
          else Inr s
      | Inl err \<Rightarrow> Inr s)"

definition normalizePeerAddress :: "string \<Rightarrow> int \<Rightarrow> string result" where
  "normalizePeerAddress raw defaultPort =
     (let s0 = TrimSpace raw in
      if s0 = [] then Inl (Error ''empty peer address'')
      else case without_scheme s0 of
        Inl err \<Rightarrow> Inl err
      | Inr s \<Rightarrow>
          (case url_Parse (''http://'' @ s) of
             Inl err \<Rightarrow> Inl (Error ''invalid peer address'')
           | Inr u \<Rightarrow>
               if url_Path u \<noteq> [] then Inr (TrimSuffix s ''/'')
               else
                 let (host, port) = (case SplitHostPort (url_Host u) of
                        Inr hp \<Rightarrow> hp
                      | Inl err \<Rightarrow> (strip_brackets (url_Host u), FormatInt defaultPort)) in
                 if length host = 0 then Inl (Error ''empty host'') else Inr (JoinHostPort host port)))"

fun normalize_all :: "string list \<Rightarrow> int \<Rightarrow> string list result" where
  "normalize_all [] defaultPort = Inr []"
| "normalize_all (peer # raw) defaultPort =
     (case normalizePeerAddress peer defaultPort of
        Inl err \<Rightarrow> Inl err
      | Inr normalized \<Rightarrow> map_sum id (\<lambda>ps. normalized # ps) (normalize_all raw defaultPort))"

text \<open>The loop of \<open>deduplicatePeers\<close>, with its map and its array.\<close>

fun deduplicate_loop :: "string list \<Rightarrow> (string \<rightharpoonup> bool) \<Rightarrow> string list \<Rightarrow> string list" where
  "deduplicate_loop [] uniqueMap uniqueArray = uniqueArray"
| "deduplicate_loop (str # peers) uniqueMap uniqueArray =
     (if uniqueMap str = None
      then deduplicate_loop peers (uniqueMap(str \<mapsto> True)) (uniqueArray @ [str])
      else deduplicate_loop peers uniqueMap uniqueArray)"

definition deduplicatePeers :: "string list \<Rightarrow> string list" where
  "deduplicatePeers peers = deduplicate_loop peers Map.empty []"

section \<open>The providers\<close>

text \<open>
  The resolver: \<open>dns_LookupIP\<close> gives the addresses of a name (\<open>ip.String()\<close>), \<open>dns_LookupSRV\<close> the
  targets and ports of its service records. \<open>dns_server\<close> is the server the resolver dials.
\<close>

record dns_env =
  dns_LookupIP :: "string option \<Rightarrow> string \<Rightarrow> string list result"
  dns_LookupSRV :: "string option \<Rightarrow> string \<Rightarrow> (string \<times> int) list result"

record StaticProvider =
  sp_peers :: "string list"

record URLProvider =
  up_peers :: "string list"
  up_url :: string
  up_defaultPort :: int

record ARecordProvider =
  ap_peers :: "string list"
  ap_fqdn :: string
  ap_defaultPort :: int
  ap_dnsServer :: "string option"

record SRVRecordProvider =
  vp_peers :: "string list"
  vp_fqdn :: string
  vp_dnsServer :: "string option"

definition NewStaticProvider :: "string \<Rightarrow> int \<Rightarrow> StaticProvider result" where
  "NewStaticProvider sources defaultPort =
     (case normalize_all (Split (CHR '','') sources) defaultPort of
        Inl err \<Rightarrow> Inl err
      | Inr ps \<Rightarrow> Inr \<lparr>sp_peers = deduplicatePeers ps\<rparr>)"

definition StaticProvider_AddStaticPeers :: "string list \<Rightarrow> StaticProvider \<Rightarrow> StaticProvider" where
  "StaticProvider_AddStaticPeers peers p = p\<lparr>sp_peers := deduplicatePeers (sp_peers p @ peers)\<rparr>"

definition StaticProvider_GetPeers :: "StaticProvider \<Rightarrow> string list result" where
  "StaticProvider_GetPeers p = Inr (sp_peers p)"

definition NewURLProvider :: "string \<Rightarrow> int \<Rightarrow> URLProvider result" where
  "NewURLProvider rawURL defaultPort =
     (case url_Parse rawURL of
        Inl err \<Rightarrow> Inl (Error ''invalid URL format'')
      | Inr parsed \<Rightarrow>
          if url_Scheme parsed \<noteq> ''http'' \<and> url_Scheme parsed \<noteq> ''https''
          then Inl (Error ''-peer-list-url must start with http:// or https://'')
          else Inr \<lparr>up_peers = [], up_url = rawURL, up_defaultPort = defaultPort\<rparr>)"

definition URLProvider_AddStaticPeers :: "string list \<Rightarrow> URLProvider \<Rightarrow> URLProvider" where
  "URLProvider_AddStaticPeers peers p = p\<lparr>up_peers := deduplicatePeers (up_peers p @ peers)\<rparr>"

text \<open>The content as a string of bytes.\<close>

definition string_of :: "byte list \<Rightarrow> string" where
  "string_of bs = map (\<lambda>b. char_of (unat b)) bs"

definition bytes_of :: "string \<Rightarrow> byte list" where
  "bytes_of s = map (\<lambda>c. of_nat (of_char c)) s"

definition URLProvider_GetPeers :: "http_env \<Rightarrow> URLProvider \<Rightarrow> string list result" where
  "URLProvider_GetPeers env p =
     (case RequestWithContext env (up_url p) [] of
        Inl err \<Rightarrow> Inl (Error ''failed to get peers'')
      | Inr content \<Rightarrow>
          if length content = 0 then Inr (up_peers p)
          else (case normalize_all (Split (CHR '','') (string_of content)) (up_defaultPort p) of
                  Inl err \<Rightarrow> Inl err
                | Inr ps \<Rightarrow> Inr (deduplicatePeers (ps @ up_peers p))))"

definition NewARecordProvider :: "string \<Rightarrow> int \<Rightarrow> string \<Rightarrow> ARecordProvider result" where
  "NewARecordProvider fqdn0 defaultPort dnsServer =
     (let fqdn = TrimSpace fqdn0 in
      if fqdn = [] then Inl (Error ''empty FQDN for A record lookup'')
      else Inr \<lparr>ap_peers = [], ap_fqdn = fqdn, ap_defaultPort = defaultPort,
                ap_dnsServer = (if dnsServer \<noteq> [] then Some dnsServer else None)\<rparr>)"

definition ARecordProvider_AddStaticPeers :: "string list \<Rightarrow> ARecordProvider \<Rightarrow> ARecordProvider" where
  "ARecordProvider_AddStaticPeers peers p = p\<lparr>ap_peers := deduplicatePeers (ap_peers p @ peers)\<rparr>"

definition ARecordProvider_GetPeers :: "dns_env \<Rightarrow> ARecordProvider \<Rightarrow> string list result" where
  "ARecordProvider_GetPeers dns p =
     (case dns_LookupIP dns (ap_dnsServer p) (ap_fqdn p) of
        Inl err \<Rightarrow> Inl err
      | Inr ips \<Rightarrow>
          Inr (deduplicatePeers (map (\<lambda>ip. JoinHostPort ip (FormatInt (ap_defaultPort p))) ips @ ap_peers p)))"

definition NewSRVRecordProvider :: "string \<Rightarrow> string \<Rightarrow> SRVRecordProvider result" where
  "NewSRVRecordProvider fqdn0 dnsServer =
     (let fqdn = TrimSpace fqdn0 in
      if fqdn = [] then Inl (Error ''empty FQDN for SRV record lookup'')
      else Inr \<lparr>vp_peers = [], vp_fqdn = fqdn, vp_dnsServer = (if dnsServer \<noteq> [] then Some dnsServer else None)\<rparr>)"

definition SRVRecordProvider_AddStaticPeers :: "string list \<Rightarrow> SRVRecordProvider \<Rightarrow> SRVRecordProvider" where
  "SRVRecordProvider_AddStaticPeers peers p = p\<lparr>vp_peers := deduplicatePeers (vp_peers p @ peers)\<rparr>"

fun lookup_srvs :: "dns_env \<Rightarrow> string option \<Rightarrow> (string \<times> int) list \<Rightarrow> string list result" where
  "lookup_srvs dns server [] = Inr []"
| "lookup_srvs dns server ((target, port) # srvs) =
     (case dns_LookupIP dns server target of
        Inl err \<Rightarrow> Inl (Error ''host lookup failed'')
      | Inr ips \<Rightarrow>
          map_sum id (\<lambda>ps. map (\<lambda>ip. JoinHostPort ip (FormatInt port)) ips @ ps) (lookup_srvs dns server srvs))"

definition SRVRecordProvider_GetPeers :: "dns_env \<Rightarrow> SRVRecordProvider \<Rightarrow> string list result" where
  "SRVRecordProvider_GetPeers dns p =
     (case dns_LookupSRV dns (vp_dnsServer p) (vp_fqdn p) of
        Inl err \<Rightarrow> Inl (Error ''SRV lookup failed'')
      | Inr srvs \<Rightarrow>
          (case lookup_srvs dns (vp_dnsServer p) srvs of
             Inl err \<Rightarrow> Inl err
           | Inr ps \<Rightarrow> Inr (deduplicatePeers (ps @ vp_peers p))))"

text \<open>The interface \<open>Provider\<close>.\<close>

datatype Provider =
    PStatic StaticProvider
  | PURL URLProvider
  | PARecord ARecordProvider
  | PSRVRecord SRVRecordProvider

fun AddStaticPeers :: "string list \<Rightarrow> Provider \<Rightarrow> Provider" where
  "AddStaticPeers ps (PStatic p) = PStatic (StaticProvider_AddStaticPeers ps p)"
| "AddStaticPeers ps (PURL p) = PURL (URLProvider_AddStaticPeers ps p)"
| "AddStaticPeers ps (PARecord p) = PARecord (ARecordProvider_AddStaticPeers ps p)"
| "AddStaticPeers ps (PSRVRecord p) = PSRVRecord (SRVRecordProvider_AddStaticPeers ps p)"

fun GetPeers :: "http_env \<Rightarrow> dns_env \<Rightarrow> Provider \<Rightarrow> string list result" where
  "GetPeers env dns (PStatic p) = StaticProvider_GetPeers p"
| "GetPeers env dns (PURL p) = URLProvider_GetPeers env p"
| "GetPeers env dns (PARecord p) = ARecordProvider_GetPeers dns p"
| "GetPeers env dns (PSRVRecord p) = SRVRecordProvider_GetPeers dns p"

section \<open>option.go and the factory\<close>

record peers_Config =
  pc_aRecordFQDN :: string
  pc_srvRecordFQDN :: string
  pc_url :: string
  pc_dnsServer :: string

definition WithARecord :: "string \<Rightarrow> peers_Config \<Rightarrow> peers_Config" where
  "WithARecord fqdn c = c\<lparr>pc_aRecordFQDN := fqdn\<rparr>"

definition WithSRVRecord :: "string \<Rightarrow> peers_Config \<Rightarrow> peers_Config" where
  "WithSRVRecord fqdn c = c\<lparr>pc_srvRecordFQDN := fqdn\<rparr>"

definition WithURL :: "string \<Rightarrow> peers_Config \<Rightarrow> peers_Config" where
  "WithURL url c = c\<lparr>pc_url := url\<rparr>"

definition WithDNSServer :: "string \<Rightarrow> peers_Config \<Rightarrow> peers_Config" where
  "WithDNSServer dnsServer c = c\<lparr>pc_dnsServer := dnsServer\<rparr>"

record peers_Factory =
  pf_staticProvider :: "StaticProvider option"
  pf_defaultPort :: int

definition NewPeersFactory :: "string \<Rightarrow> int \<Rightarrow> peers_Factory result" where
  "NewPeersFactory staticPeers defaultPort =
     (if staticPeers = [] then Inr \<lparr>pf_staticProvider = None, pf_defaultPort = defaultPort\<rparr>
      else (case NewStaticProvider staticPeers defaultPort of
              Inl err \<Rightarrow> Inl err
            | Inr sp \<Rightarrow> Inr \<lparr>pf_staticProvider = Some sp, pf_defaultPort = defaultPort\<rparr>))"

text \<open>The value \<open>None\<close> is the nil provider.\<close>

definition PeersFactory_Create :: "peers_Factory \<Rightarrow> (peers_Config \<Rightarrow> peers_Config) list \<Rightarrow> Provider option result" where
  "PeersFactory_Create f options =
     (let c = fold (\<lambda>option c. option c) options
            \<lparr>pc_aRecordFQDN = [], pc_srvRecordFQDN = [], pc_url = [], pc_dnsServer = []\<rparr>;
          optionCount = length (filter (\<lambda>s. s \<noteq> []) [pc_aRecordFQDN c, pc_srvRecordFQDN c, pc_url c]) in
      if optionCount > 1 then Inl (Error ''cannot specify multiple remote peer list options'')
      else
        case (if pc_aRecordFQDN c \<noteq> [] then
                map_sum id (\<lambda>p. Some (PARecord p)) (NewARecordProvider (pc_aRecordFQDN c) (pf_defaultPort f) (pc_dnsServer c))
              else if pc_srvRecordFQDN c \<noteq> [] then
                map_sum id (\<lambda>p. Some (PSRVRecord p)) (NewSRVRecordProvider (pc_srvRecordFQDN c) (pc_dnsServer c))
              else if pc_url c \<noteq> [] then
                map_sum id (\<lambda>p. Some (PURL p)) (NewURLProvider (pc_url c) (pf_defaultPort f))
              else Inr None) of
          Inl err \<Rightarrow> Inl err
        | Inr None \<Rightarrow> Inr (map_option PStatic (pf_staticProvider f))
        | Inr (Some provider) \<Rightarrow>
            (case pf_staticProvider f of
               None \<Rightarrow> Inr (Some provider)
             | Some sp \<Rightarrow>
                 (case StaticProvider_GetPeers sp of
                    Inl err \<Rightarrow> Inl err
                  | Inr peers \<Rightarrow> Inr (Some (AddStaticPeers peers provider)))))"

end
