(* ===== verification/Peers_Props.thy ===== *)
theory Peers_Props
  imports Peers
begin

text \<open>
  What the peer lists promise: \<open>deduplicatePeers\<close> keeps the first occurrence of every address; the
  interface \<open>Provider\<close> as the locale \<open>peer_provider\<close>, interpreted on the four providers; the factory
  merges the static peers into any provider and refuses more than one dynamic source; and the
  normal form of addresses.
\<close>

section \<open>Deduplication\<close>

text \<open>The reference: an element is kept when it does not occur before.\<close>

fun first_occurrences :: "string list \<Rightarrow> string list \<Rightarrow> string list" where
  "first_occurrences seen [] = []"
| "first_occurrences seen (x # xs) =
     (if x \<in> set seen then first_occurrences seen xs else x # first_occurrences (seen @ [x]) xs)"

lemma deduplicate_loop_first:
  "dom m = set acc \<Longrightarrow> deduplicate_loop ps m acc = acc @ first_occurrences acc ps"
proof (induction ps arbitrary: m acc)
  case (Cons p ps)
  have "m p = None \<longleftrightarrow> p \<notin> set acc" using Cons.prems by (auto simp: domIff)
  moreover have "dom (m(p \<mapsto> True)) = set (acc @ [p])" using Cons.prems by auto
  ultimately show ?case
    using Cons.IH [OF Cons.prems] Cons.IH [of "m(p \<mapsto> True)" "acc @ [p]"] by (simp del: fun_upd_apply dom_fun_upd)
qed simp

lemma deduplicatePeers_first: "deduplicatePeers ps = first_occurrences [] ps"
  by (simp add: deduplicatePeers_def deduplicate_loop_first)

lemma first_occurrences_set: "set (first_occurrences seen xs) = set xs - set seen"
  by (induction seen xs rule: first_occurrences.induct) auto

lemma first_occurrences_distinct: "distinct (first_occurrences seen xs)"
  by (induction seen xs rule: first_occurrences.induct) (auto simp: first_occurrences_set)

lemma set_deduplicatePeers [simp]: "set (deduplicatePeers ps) = set ps"
  by (simp add: deduplicatePeers_first first_occurrences_set)

lemma distinct_deduplicatePeers [simp]: "distinct (deduplicatePeers ps)"
  by (simp add: deduplicatePeers_first first_occurrences_distinct)

lemma first_occurrences_same: "distinct xs \<Longrightarrow> set xs \<inter> set seen = {} \<Longrightarrow> first_occurrences seen xs = xs"
  by (induction xs arbitrary: seen) auto

section \<open>The interface Provider\<close>

text \<open>
  \<open>own env p\<close> are the addresses the provider finds by itself, \<open>static p\<close> those that were added. A
  list that is delivered has every address once, and it consists of both.
\<close>

locale peer_provider =
  fixes get :: "'p \<Rightarrow> string list result"
    and add :: "string list \<Rightarrow> 'p \<Rightarrow> 'p"
    and valid :: "'p \<Rightarrow> bool"
    and own :: "'p \<Rightarrow> string list result"
    and static :: "'p \<Rightarrow> string list"
  assumes get_own: "valid p \<Longrightarrow> get p = Inr ps \<Longrightarrow> \<exists>os. own p = Inr os \<and> set ps = set os \<union> set (static p)"
    and get_error: "valid p \<Longrightarrow> own p = Inr os \<Longrightarrow> \<exists>ps. get p = Inr ps"
    and get_distinct: "valid p \<Longrightarrow> get p = Inr ps \<Longrightarrow> distinct ps"
    and valid_add: "valid p \<Longrightarrow> valid (add qs p)"
    and own_add: "own (add qs p) = own p"
    and static_add: "set (static (add qs p)) = set (static p) \<union> set qs"
begin

lemma merged:
  assumes "valid p" and "own p = Inr os"
  shows "\<exists>ps. get (add qs p) = Inr ps \<and> distinct ps \<and> set ps = set os \<union> set (static p) \<union> set qs"
proof -
  obtain ps where "get (add qs p) = Inr ps" using get_error [of "add qs p"] assms valid_add own_add by fastforce
  then show ?thesis
    using get_own [of "add qs p" ps] get_distinct [of "add qs p" ps] assms valid_add own_add static_add by force
qed

lemma failed:
  assumes "valid p" and "own p = Inl err"
  shows "\<exists>err. get (add qs p) = Inl err"
  using get_own [of "add qs p"] assms valid_add own_add by (cases "get (add qs p)") auto

end

definition URLProvider_own :: "http_env \<Rightarrow> URLProvider \<Rightarrow> string list result" where
  "URLProvider_own env p =
     (case RequestWithContext env (up_url p) [] of
        Inl err \<Rightarrow> Inl err
      | Inr content \<Rightarrow>
          if content = [] then Inr [] else normalize_all (Split (CHR '','') (string_of content)) (up_defaultPort p))"

definition ARecordProvider_own :: "dns_env \<Rightarrow> ARecordProvider \<Rightarrow> string list result" where
  "ARecordProvider_own dns p =
     map_sum id (map (\<lambda>ip. JoinHostPort ip (FormatInt (ap_defaultPort p)))) (dns_LookupIP dns (ap_dnsServer p) (ap_fqdn p))"

definition SRVRecordProvider_own :: "dns_env \<Rightarrow> SRVRecordProvider \<Rightarrow> string list result" where
  "SRVRecordProvider_own dns p =
     (case dns_LookupSRV dns (vp_dnsServer p) (vp_fqdn p) of
        Inl err \<Rightarrow> Inl err | Inr srvs \<Rightarrow> lookup_srvs dns (vp_dnsServer p) srvs)"

interpretation static_provider: peer_provider StaticProvider_GetPeers StaticProvider_AddStaticPeers
  "\<lambda>p. distinct (sp_peers p)" "\<lambda>p. Inr []" sp_peers
  by unfold_locales (auto simp: StaticProvider_GetPeers_def StaticProvider_AddStaticPeers_def)

interpretation url_provider: peer_provider "URLProvider_GetPeers env" URLProvider_AddStaticPeers
  "\<lambda>p. distinct (up_peers p)" "URLProvider_own env" up_peers for env
  by unfold_locales
    (auto simp: URLProvider_GetPeers_def URLProvider_AddStaticPeers_def URLProvider_own_def split: sum.splits if_splits)

interpretation a_record_provider: peer_provider "ARecordProvider_GetPeers dns" ARecordProvider_AddStaticPeers
  "\<lambda>p. True" "ARecordProvider_own dns" ap_peers for dns
  by unfold_locales
    (auto simp: ARecordProvider_GetPeers_def ARecordProvider_AddStaticPeers_def ARecordProvider_own_def split: sum.splits)

interpretation srv_record_provider: peer_provider "SRVRecordProvider_GetPeers dns" SRVRecordProvider_AddStaticPeers
  "\<lambda>p. True" "SRVRecordProvider_own dns" vp_peers for dns
  by unfold_locales
    (auto simp: SRVRecordProvider_GetPeers_def SRVRecordProvider_AddStaticPeers_def SRVRecordProvider_own_def split: sum.splits)

text \<open>The interface itself is a provider, by its four implementations.\<close>

fun Provider_own :: "http_env \<Rightarrow> dns_env \<Rightarrow> Provider \<Rightarrow> string list result" where
  "Provider_own env dns (PStatic p) = Inr []"
| "Provider_own env dns (PURL p) = URLProvider_own env p"
| "Provider_own env dns (PARecord p) = ARecordProvider_own dns p"
| "Provider_own env dns (PSRVRecord p) = SRVRecordProvider_own dns p"

fun Provider_static :: "Provider \<Rightarrow> string list" where
  "Provider_static (PStatic p) = sp_peers p"
| "Provider_static (PURL p) = up_peers p"
| "Provider_static (PARecord p) = ap_peers p"
| "Provider_static (PSRVRecord p) = vp_peers p"

definition Provider_valid :: "Provider \<Rightarrow> bool" where
  "Provider_valid p \<longleftrightarrow> distinct (Provider_static p)"

interpretation any_provider: peer_provider "GetPeers env dns" AddStaticPeers Provider_valid
  "Provider_own env dns" Provider_static for env dns
proof (unfold_locales, goal_cases)
  case (1 p ps)
  then show ?case
  proof (cases p)
    case (PStatic x)
    then show ?thesis using 1 static_provider.get_own [where p = x] by (simp add: Provider_valid_def)
  next
    case (PURL x)
    then show ?thesis using 1 url_provider.get_own [where p = x] by (simp add: Provider_valid_def)
  next
    case (PARecord x)
    then show ?thesis using 1 a_record_provider.get_own [where p = x] by (simp add: Provider_valid_def)
  next
    case (PSRVRecord x)
    then show ?thesis using 1 srv_record_provider.get_own [where p = x] by (simp add: Provider_valid_def)
  qed
next
  case (2 p os)
  then show ?case
  proof (cases p)
    case (PStatic x)
    then show ?thesis using 2 static_provider.get_error [where p = x] by (simp add: Provider_valid_def)
  next
    case (PURL x)
    then show ?thesis using 2 url_provider.get_error [where p = x] by (simp add: Provider_valid_def)
  next
    case (PARecord x)
    then show ?thesis using 2 a_record_provider.get_error [where p = x] by (simp add: Provider_valid_def)
  next
    case (PSRVRecord x)
    then show ?thesis using 2 srv_record_provider.get_error [where p = x] by (simp add: Provider_valid_def)
  qed
next
  case (3 p ps)
  then show ?case
  proof (cases p)
    case (PStatic x)
    then show ?thesis using 3 static_provider.get_distinct [where p = x] by (simp add: Provider_valid_def)
  next
    case (PURL x)
    then show ?thesis using 3 url_provider.get_distinct [where p = x] by (simp add: Provider_valid_def)
  next
    case (PARecord x)
    then show ?thesis using 3 a_record_provider.get_distinct [where p = x] by (simp add: Provider_valid_def)
  next
    case (PSRVRecord x)
    then show ?thesis using 3 srv_record_provider.get_distinct [where p = x] by (simp add: Provider_valid_def)
  qed
next
  case (4 p qs)
  then show ?case
    by (cases p) (simp_all add: Provider_valid_def StaticProvider_AddStaticPeers_def URLProvider_AddStaticPeers_def
        ARecordProvider_AddStaticPeers_def SRVRecordProvider_AddStaticPeers_def)
next
  case (5 qs p)
  then show ?case
    by (cases p) (simp_all add: url_provider.own_add a_record_provider.own_add srv_record_provider.own_add)
next
  case (6 qs p)
  then show ?case
    by (cases p) (simp_all add: static_provider.static_add url_provider.static_add a_record_provider.static_add
        srv_record_provider.static_add)
qed

section \<open>The normal form of addresses\<close>

text \<open>Host names and IPv4 addresses, with decimal ports.\<close>

definition plain_host :: "string \<Rightarrow> bool" where
  "plain_host h \<longleftrightarrow> h \<noteq> [] \<and> (\<forall>c \<in> set h. is_alpha c \<or> is_num c \<or> c = CHR ''-'' \<or> c = CHR ''.'') \<and>
     ToLower h \<noteq> ''http'' \<and> ToLower h \<noteq> ''https''"

definition plain_port :: "string \<Rightarrow> bool" where
  "plain_port p \<longleftrightarrow> p \<noteq> [] \<and> (\<forall>c \<in> set p. is_num c)"

text \<open>The characters of a plain address, with the colon.\<close>

definition plain_char :: "char \<Rightarrow> bool" where
  "plain_char c \<longleftrightarrow> is_alpha c \<or> is_num c \<or> c = CHR ''-'' \<or> c = CHR ''.'' \<or> c = CHR '':''"

lemma plain_char_not:
  assumes "plain_char c"
  shows "c \<noteq> CHR ''/''" "c \<noteq> CHR ''?''" "c \<noteq> CHR ''#''" "c \<noteq> CHR ''%''" "c \<noteq> CHR ''@''" "c \<noteq> CHR ''[''" "c \<noteq> CHR '']''"
    and "\<not> ctl_byte c" and "\<not> is_space c" and "host_char c"
proof -
  show "c \<noteq> CHR ''/''" "c \<noteq> CHR ''?''" "c \<noteq> CHR ''#''" "c \<noteq> CHR ''%''" "c \<noteq> CHR ''@''" "c \<noteq> CHR ''[''" "c \<noteq> CHR '']''"
    by (rule notI, use assms in \<open>simp add: plain_char_def is_alpha_def is_num_def digit_value_def\<close>)+
  show "host_char c" using assms by (auto simp: plain_char_def host_char_def)
  have "c = CHR ''-'' \<or> c = CHR ''.'' \<or> c = CHR '':'' \<or> 48 \<le> (of_char c :: nat) \<and> (of_char c :: nat) \<le> 122"
    using assms by (auto simp: plain_char_def is_alpha_def is_num_def digit_value_def Let_def split: if_splits)
  then show "\<not> ctl_byte c" by (elim disjE) (simp_all add: ctl_byte_def)
  show "\<not> is_space c"
    by (rule notI, use \<open>c = _ \<or> _\<close> in \<open>auto simp: is_space_def\<close>)
qed

lemma not_plain [simp]:
  "\<not> plain_char (CHR ''/'')" "\<not> plain_char (CHR ''?'')" "\<not> plain_char (CHR ''#'')" "\<not> plain_char (CHR ''%'')"
  "\<not> plain_char (CHR ''@'')" "\<not> plain_char (CHR ''['')" "\<not> plain_char (CHR '']'')"
  using plain_char_not by blast+

lemma plain_notin: "\<forall>c \<in> set s. plain_char c \<Longrightarrow> \<not> plain_char x \<Longrightarrow> x \<notin> set s"
  by blast

lemma plain_port_chars: "plain_port p \<Longrightarrow> c \<in> set p \<Longrightarrow> plain_char c \<and> is_num c \<and> c \<noteq> CHR '':''"
  by (auto simp: plain_port_def plain_char_def is_num_def digit_value_def)

lemma plain_host_chars: "plain_host h \<Longrightarrow> c \<in> set h \<Longrightarrow> plain_char c \<and> c \<noteq> CHR '':''"
  by (auto simp: plain_host_def plain_char_def is_num_def is_alpha_def digit_value_def)

lemma cut_at_none: "sep \<notin> set s \<Longrightarrow> cut_at sep s = (s, [])"
  by (induction s) (auto simp: cut_at_def)

lemma TrimSpace_plain: "\<forall>c \<in> set s. \<not> is_space c \<Longrightarrow> TrimSpace s = s"
proof -
  assume s: "\<forall>c \<in> set s. \<not> is_space c"
  have "dropWhile is_space t = t" if "\<forall>c \<in> set t. \<not> is_space c" for t
    using that by (cases t) auto
  from this [of s] this [of "rev s"] show ?thesis using s by (simp add: TrimSpace_def)
qed

lemma unescape_plain: "\<forall>c \<in> set s. plain_char c \<Longrightarrow> mode \<noteq> encodeQueryComponent \<Longrightarrow> unescape mode s = Some s"
proof (induction s)
  case (Cons c cs)
  then show ?case using plain_char_not [of c] by auto
qed simp

lemma colon_not_name [simp]: "\<not> is_alpha (CHR '':'')" "\<not> is_num (CHR '':'')"
  by (simp_all add: is_alpha_def is_num_def digit_value_def)

lemma getScheme_before_colon: "getScheme raw acc s = Some (sch, rest) \<Longrightarrow> sch = [] \<or> sch = acc @ takeWhile (\<lambda>c. c \<noteq> CHR '':'') s"
  by (induction raw acc s rule: getScheme.induct) (auto split: if_splits)

lemma url_Parse_scheme:
  assumes "url_Parse s = Inr u" and "CHR ''#'' \<notin> set s"
  shows "url_Scheme u = [] \<or> url_Scheme u = ToLower (takeWhile (\<lambda>c. c \<noteq> CHR '':'') s)"
proof -
  have p: "parse_url s = Some u"
    using assms by (auto simp: url_Parse_def cut_at_none split: option.splits if_splits)
  show ?thesis
  proof (cases "getScheme s [] s")
    case None
    then show ?thesis using p by (auto simp: parse_url_def split: if_splits)
  next
    case (Some a)
    then obtain sch rest where a: "getScheme s [] s = Some (sch, rest)" by (cases a) auto
    have "url_Scheme u = ToLower sch \<or> url_Scheme u = []"
      using p by (auto simp: parse_url_def a Let_def split: if_splits option.splits prod.splits)
    then show ?thesis using getScheme_before_colon [OF a] by (auto simp: ToLower_def)
  qed
qed

lemma without_scheme_plain:
  assumes "\<forall>c \<in> set s. plain_char c" and "ToLower (takeWhile (\<lambda>c. c \<noteq> CHR '':'') s) \<notin> {''http'', ''https''}"
  shows "without_scheme s = Inr s"
proof -
  have "CHR ''#'' \<notin> set s" using assms(1) plain_char_not(3) by blast
  then show ?thesis
    using assms(2) url_Parse_scheme [of s] by (auto simp: without_scheme_def split: sum.splits)
qed

text \<open>A plain host with an optional plain port.\<close>

definition address :: "string \<Rightarrow> string option \<Rightarrow> string" where
  "address h p = (case p of None \<Rightarrow> h | Some port \<Rightarrow> h @ CHR '':'' # port)"

lemma address_chars:
  "plain_host h \<Longrightarrow> (\<forall>port. p = Some port \<longrightarrow> plain_port port) \<Longrightarrow> c \<in> set (address h p) \<Longrightarrow> plain_char c"
  using plain_host_chars plain_port_chars by (auto simp: address_def plain_char_def split: option.splits)

lemma address_before_colon:
  assumes "plain_host h"
  shows "takeWhile (\<lambda>c. c \<noteq> CHR '':'') (address h p) = h"
proof -
  have "\<forall>c \<in> set h. c \<noteq> CHR '':''" using plain_host_chars [OF assms] by blast
  then show ?thesis by (auto simp: address_def takeWhile_tail split: option.splits)
qed

lemma while_not_sep:
  "sep \<notin> set b \<Longrightarrow> takeWhile (\<lambda>c. c \<noteq> sep) (b @ sep # r) = b"
  "sep \<notin> set b \<Longrightarrow> dropWhile (\<lambda>c. c \<noteq> sep) (b @ sep # r) = sep # r"
  by (induction b) auto

lemma while_no_sep:
  "sep \<notin> set b \<Longrightarrow> takeWhile (\<lambda>c. c \<noteq> sep) b = b"
  "sep \<notin> set b \<Longrightarrow> dropWhile (\<lambda>c. c \<noteq> sep) b = []"
  by (induction b) auto

lemma after_last_app: "sep \<notin> set b \<Longrightarrow> after_last sep (a @ sep # b) = b"
  using while_not_sep(1) [of sep "rev b"] by (simp add: after_last_def)

lemma before_last_app: "sep \<notin> set b \<Longrightarrow> before_last sep (a @ sep # b) = a"
  using while_not_sep(2) [of sep "rev b"] by (simp add: before_last_def)

lemma parseHost_address:
  assumes h: "plain_host h" and p: "\<forall>port. p = Some port \<longrightarrow> plain_port port"
  shows "parseHost (address h p) = Some (address h p)"
proof -
  have chars: "\<forall>c \<in> set (address h p). plain_char c" using address_chars [OF h p] by blast
  then have u: "unescape encodeHost (address h p) = Some (address h p)" by (simp add: unescape_plain)
  have "\<not> HasPrefix (address h p) ''[''"
    using chars plain_char_not(6) by (cases "address h p") (auto simp: HasPrefix_def)
  moreover have "CHR '':'' \<notin> set h" using plain_host_chars [OF h] by blast
  moreover have "CHR '':'' \<notin> set port \<and> (\<forall>d \<in> set port. is_num d)" if "p = Some port" for port
    using plain_port_chars p that by blast
  ultimately show ?thesis
    using u by (cases p) (auto simp: parseHost_def address_def after_last_app validOptionalPort_def)
qed

lemma url_Parse_http:
  assumes h: "plain_host h" and p: "\<forall>port. p = Some port \<longrightarrow> plain_port port" and path: "path = [] \<or> path = ''/''"
  shows "url_Parse (''http://'' @ address h p @ path) =
    Inr \<lparr>url_Scheme = ''http'', url_Host = address h p, url_Path = path, url_RawQuery = []\<rparr>"
proof -
  let ?a = "address h p"
  have chars: "\<forall>c \<in> set ?a. plain_char c" using address_chars [OF h p] by blast
  have not_in: "CHR ''#'' \<notin> set ?a" "CHR ''?'' \<notin> set ?a" "CHR ''@'' \<notin> set ?a" "CHR ''/'' \<notin> set ?a"
    using plain_notin [OF chars] not_plain by simp_all
  have ctl: "\<forall>c \<in> set ?a. \<not> ctl_byte c" using chars plain_char_not(8) by blast
  have sch: "getScheme (''http://'' @ ?a @ path) [] (''http://'' @ ?a @ path) = Some (''http'', ''//'' @ ?a @ path)"
    by (simp add: is_alpha_def)
  have "parseAuthority ?a = Some ?a" using not_in(3) parseHost_address [OF h p] by (simp add: parseAuthority_def)
  moreover have "takeWhile (\<lambda>c. c \<noteq> CHR ''/'') (?a @ path) = ?a" "dropWhile (\<lambda>c. c \<noteq> CHR ''/'') (?a @ path) = path"
    using path while_no_sep [OF not_in(4)] while_not_sep [OF not_in(4), of "[]"] by (elim disjE; simp)+
  moreover have "unescape encodePath path = Some path" using path by auto
  moreover have "cut_at (CHR ''?'') (''//'' @ ?a @ path) = (''//'' @ ?a @ path, [])"
    using not_in(2) path by (intro cut_at_none) auto
  moreover have "ToLower ''http'' = ''http''" by (simp add: ToLower_def lower_def)
  moreover have "\<not> (\<exists>c \<in> set (''http://'' @ ?a @ path). ctl_byte c)" using ctl path by (auto simp: ctl_byte_def)
  ultimately have "parse_url (''http://'' @ ?a @ path) =
      Some \<lparr>url_Scheme = ''http'', url_Host = ?a, url_Path = path, url_RawQuery = []\<rparr>"
    using sch by (simp add: parse_url_def HasPrefix_def)
  moreover have "cut_at (CHR ''#'') (''http://'' @ ?a @ path) = (''http://'' @ ?a @ path, [])"
    using not_in(1) path by (intro cut_at_none) auto
  ultimately show ?thesis by (simp add: url_Parse_def)
qed

lemma SplitHostPort_plain:
  assumes h: "plain_host h"
  shows "\<exists>e. SplitHostPort h = Inl e" and "plain_port port \<Longrightarrow> SplitHostPort (h @ CHR '':'' # port) = Inr (h, port)"
    and "strip_brackets h = h"
proof -
  have hc: "\<forall>c \<in> set h. plain_char c" using plain_host_chars [OF h] by blast
  have c: "CHR ''['' \<notin> set h" "CHR '']'' \<notin> set h" using plain_notin [OF hc] not_plain by simp_all
  have c0: "CHR '':'' \<notin> set h" using plain_host_chars [OF h] by blast
  show "\<exists>e. SplitHostPort h = Inl e" using c0 by (simp add: SplitHostPort_def)
  obtain x xs where x: "h = x # xs" using h by (cases h) (auto simp: plain_host_def)
  show "strip_brackets h = h" using c(1) x by (auto simp: strip_brackets_def)
  assume p: "plain_port port"
  have pc: "\<forall>c \<in> set port. plain_char c" using plain_port_chars [OF p] by blast
  have d: "CHR ''['' \<notin> set port" "CHR '']'' \<notin> set port" using plain_notin [OF pc] not_plain by simp_all
  have d0: "CHR '':'' \<notin> set port" using plain_port_chars [OF p] by blast
  have "\<not> HasPrefix (h @ CHR '':'' # port) ''[''" using c(1) x by (auto simp: HasPrefix_def)
  then show "SplitHostPort (h @ CHR '':'' # port) = Inr (h, port)"
    using c c0 d d0 by (simp add: SplitHostPort_def after_last_app before_last_app Let_def)
qed

lemma normalize_address:
  assumes h: "plain_host h" and p: "\<forall>port. p = Some port \<longrightarrow> plain_port port"
    and raw: "TrimSpace raw \<noteq> []" "without_scheme (TrimSpace raw) = Inr (address h p)"
  shows "normalizePeerAddress raw defaultPort =
    Inr (h @ CHR '':'' # (case p of None \<Rightarrow> FormatInt defaultPort | Some port \<Rightarrow> port))"
proof -
  have "url_Parse (''http://'' @ address h p) =
      Inr \<lparr>url_Scheme = ''http'', url_Host = address h p, url_Path = [], url_RawQuery = []\<rparr>"
    using url_Parse_http [OF h p, of "[]"] by simp
  moreover obtain e where "SplitHostPort h = Inl e" using SplitHostPort_plain(1) [OF h] by blast
  moreover have "CHR '':'' \<notin> set h" "h \<noteq> []" using plain_host_chars [OF h] h by (auto simp: plain_host_def)
  ultimately show ?thesis
    using raw SplitHostPort_plain(2,3) [OF h] p
    by (cases p) (auto simp: normalizePeerAddress_def Let_def address_def JoinHostPort_def)
qed

lemma address_trim: "plain_host h \<Longrightarrow> \<forall>port. p = Some port \<longrightarrow> plain_port port \<Longrightarrow> TrimSpace (address h p) = address h p"
  using address_chars [of h p] plain_char_not(9) by (intro TrimSpace_plain ballI) simp

lemma address_not_Nil: "plain_host h \<Longrightarrow> address h p \<noteq> []"
  by (auto simp: address_def plain_host_def split: option.splits)

lemma without_scheme_address:
  assumes h: "plain_host h" and p: "\<forall>port. p = Some port \<longrightarrow> plain_port port"
  shows "without_scheme (address h p) = Inr (address h p)"
    and "path = [] \<or> path = ''/'' \<Longrightarrow> without_scheme (''http://'' @ address h p @ path) = Inr (address h p @ path)"
proof -
  show "without_scheme (address h p) = Inr (address h p)"
    using address_chars [OF h p] address_before_colon [OF h, of p] h
    by (intro without_scheme_plain) (auto simp: plain_host_def)
  show "path = [] \<or> path = ''/'' \<Longrightarrow> without_scheme (''http://'' @ address h p @ path) = Inr (address h p @ path)"
    using url_Parse_http [OF h p, of path] address_not_Nil [OF h, of p] by (simp add: without_scheme_def)
qed

lemma trim_http:
  assumes "plain_host h" and "\<forall>port. p = Some port \<longrightarrow> plain_port port" and "path = [] \<or> path = ''/''"
  shows "TrimSpace (''http://'' @ address h p @ path) = ''http://'' @ address h p @ path"
proof (rule TrimSpace_plain)
  have "\<forall>c \<in> set (address h p). \<not> is_space c" using address_chars [OF assms(1,2)] plain_char_not(9) by simp
  moreover have "\<forall>c \<in> set ''http://''. \<not> is_space c" by (simp add: is_space_def)
  moreover have "\<forall>c \<in> set path. \<not> is_space c" using assms(3) by (elim disjE) (simp_all add: is_space_def)
  ultimately show "\<forall>c \<in> set (''http://'' @ address h p @ path). \<not> is_space c"
    unfolding set_append by blast
qed

lemma normalize_slash:
  assumes h: "plain_host h" and p: "\<forall>port. p = Some port \<longrightarrow> plain_port port"
  shows "normalizePeerAddress (''http://'' @ address h p @ ''/'') defaultPort = Inr (address h p)"
proof -
  have "TrimSuffix (address h p @ ''/'') ''/'' = address h p" by (simp add: TrimSuffix_def)
  then show ?thesis
    using without_scheme_address(2) [OF h p, of "''/''"] url_Parse_http [OF h p, of "''/''"] trim_http [OF h p, of "''/''"]
    by (simp add: normalizePeerAddress_def Let_def)
qed



section \<open>Claims\<close>


lemma NewStaticProvider_distinct: "NewStaticProvider sources port = Inr sp \<Longrightarrow> distinct (sp_peers sp)"
  by (auto simp: NewStaticProvider_def split: sum.splits)

lemma factory_static_distinct:
  "NewPeersFactory sources port = Inr f \<Longrightarrow> pf_staticProvider f = Some sp \<Longrightarrow> distinct (sp_peers sp)"
  using NewStaticProvider_distinct by (auto simp: NewPeersFactory_def split: if_splits sum.splits)

text \<open>The options of the command line, as \<open>MainContext.Init\<close> passes them.\<close>

definition command_line :: "string \<Rightarrow> string \<Rightarrow> string \<Rightarrow> string \<Rightarrow> (peers_Config \<Rightarrow> peers_Config) list" where
  "command_line a srv url dns = [WithARecord a, WithSRVRecord srv, WithURL url, WithDNSServer dns]"

lemma fold_command_line:
  "fold (\<lambda>option c. option c) (command_line a srv url dnsServer)
     \<lparr>pc_aRecordFQDN = [], pc_srvRecordFQDN = [], pc_url = [], pc_dnsServer = []\<rparr> =
   \<lparr>pc_aRecordFQDN = a, pc_srvRecordFQDN = srv, pc_url = url, pc_dnsServer = dnsServer\<rparr>"
  by (simp add: command_line_def WithARecord_def WithSRVRecord_def WithURL_def WithDNSServer_def)

definition fresh_provider :: "Provider \<Rightarrow> bool" where
  "fresh_provider p \<longleftrightarrow> Provider_static p = [] \<and> (\<forall>sp. p \<noteq> PStatic sp)"

lemma Create_cases:
  assumes "PeersFactory_Create f (command_line a srv url dnsServer) = Inr (Some p)"
  shows "length (filter (\<lambda>s. s \<noteq> []) [a, srv, url]) \<le> 1"
    and "(\<exists>sp. pf_staticProvider f = Some sp \<and> p = PStatic sp) \<or>
         (\<exists>q. fresh_provider q \<and> p = (case pf_staticProvider f of None \<Rightarrow> q | Some sp \<Rightarrow> AddStaticPeers (sp_peers sp) q))"
proof -
  note c = assms [unfolded PeersFactory_Create_def fold_command_line Let_def, simplified]
  show "length (filter (\<lambda>s. s \<noteq> []) [a, srv, url]) \<le> 1"
    using c by (simp split: if_splits)
  let ?made = "if a \<noteq> [] then map_sum id (\<lambda>p. Some (PARecord p)) (NewARecordProvider a (pf_defaultPort f) dnsServer)
     else if srv \<noteq> [] then map_sum id (\<lambda>p. Some (PSRVRecord p)) (NewSRVRecordProvider srv dnsServer)
     else if url \<noteq> [] then map_sum id (\<lambda>p. Some (PURL p)) (NewURLProvider url (pf_defaultPort f)) else Inr None"
  have made: "fresh_provider q" if "?made = Inr (Some q)" for q
    using that
    by (auto simp: fresh_provider_def NewARecordProvider_def NewSRVRecordProvider_def NewURLProvider_def Let_def
        split: if_splits sum.splits)
  have run: "case ?made of Inl err \<Rightarrow> False
      | Inr None \<Rightarrow> map_option PStatic (pf_staticProvider f) = Some p
      | Inr (Some q) \<Rightarrow> p = (case pf_staticProvider f of None \<Rightarrow> q | Some sp \<Rightarrow> AddStaticPeers (sp_peers sp) q)"
    using assms
    by (simp add: PeersFactory_Create_def fold_command_line Let_def StaticProvider_GetPeers_def
        split: if_splits sum.splits option.splits)
  then show "(\<exists>sp. pf_staticProvider f = Some sp \<and> p = PStatic sp) \<or>
         (\<exists>q. fresh_provider q \<and> p = (case pf_staticProvider f of None \<Rightarrow> q | Some sp \<Rightarrow> AddStaticPeers (sp_peers sp) q))"
    using made by (cases ?made; cases "projr ?made") (auto simp del: not_Cons_self split: sum.splits option.splits)
qed

lemma Create_provider:
  assumes f: "NewPeersFactory staticPeers port = Inr f"
    and c: "PeersFactory_Create f (command_line a srv url dnsServer) = Inr (Some p)"
  shows "Provider_valid p" and "set (Provider_static p) = (case pf_staticProvider f of None \<Rightarrow> {} | Some sp \<Rightarrow> set (sp_peers sp))"
proof -
  have q: "Provider_valid q \<and> Provider_static q = []" if "fresh_provider q" for q
    using that by (simp add: fresh_provider_def Provider_valid_def)
  show "Provider_valid p"
    using Create_cases(2) [OF c] q any_provider.valid_add factory_static_distinct [OF f]
    by (auto simp: Provider_valid_def split: option.splits)
  show "set (Provider_static p) = (case pf_staticProvider f of None \<Rightarrow> {} | Some sp \<Rightarrow> set (sp_peers sp))"
    using Create_cases(2) [OF c] q any_provider.static_add by (auto split: option.splits)
qed

text \<open>Claim C21.
  The provider that the factory makes from the command line merges the static peers into the dynamic
  source: at most one dynamic source was named; whenever the source answers, the list that is
  delivered has every address once and consists of the addresses of the source and the normalised
  static peers, whatever the kind of the provider; and when the source fails, no list is delivered.\<close>

theorem factory_merges_static:
  assumes "NewPeersFactory staticPeers port = Inr f"
    and "PeersFactory_Create f (command_line a srv url dnsServer) = Inr (Some p)"
  shows "length (filter (\<lambda>s. s \<noteq> []) [a, srv, url]) \<le> 1 \<and>
    (case Provider_own env dns p of
       Inl err \<Rightarrow> \<exists>err. GetPeers env dns p = Inl err
     | Inr os \<Rightarrow> \<exists>ps. GetPeers env dns p = Inr ps \<and> distinct ps \<and>
         set ps = set os \<union> (case pf_staticProvider f of None \<Rightarrow> {} | Some sp \<Rightarrow> set (sp_peers sp)))"
proof (cases "Provider_own env dns p")
  case (Inl err)
  then have "\<exists>err. GetPeers env dns p = Inl err"
    using any_provider.get_own [OF Create_provider(1) [OF assms], of env dns] by (cases "GetPeers env dns p") auto
  then show ?thesis using Create_cases(1) [OF assms(2)] Inl by simp
next
  case (Inr os)
  obtain ps where ps: "GetPeers env dns p = Inr ps"
    using any_provider.get_error [OF Create_provider(1) [OF assms] Inr] by blast
  then show ?thesis
    using any_provider.get_own [OF Create_provider(1) [OF assms] ps]
      any_provider.get_distinct [OF Create_provider(1) [OF assms] ps]
      Create_provider(2) [OF assms] Create_cases(1) [OF assms(2)] Inr by auto
qed

definition demo_dns :: dns_env where
  "demo_dns = \<lparr>dns_LookupIP = (\<lambda>server name. if name = ''svc'' then Inr [''10.0.0.1'', ''10.0.0.2''] else Inl (Error ''no such host'')),
     dns_LookupSRV = (\<lambda>server name. Inl (Error ''no such host''))\<rparr>"

definition demo_http :: http_env where
  "demo_http = \<lparr>ev_Do = (\<lambda>rq. Inl (Error ''connection refused'')), ev_unzstd = id, ev_zstd = Inr, ev_zstd_stream = id\<rparr>"

theorem factory_merges_static_witness:
  "\<exists>f p ps. NewPeersFactory ''10.0.0.2:7,seeder'' 7 = Inr f \<and>
     PeersFactory_Create f (command_line ''svc'' [] [] []) = Inr (Some p) \<and>
     GetPeers demo_http demo_dns p = Inr ps \<and> set ps = {''10.0.0.1:7'', ''10.0.0.2:7'', ''seeder:7''}"
proof -
  let ?f = "\<lparr>pf_staticProvider = Some \<lparr>sp_peers = [''10.0.0.2:7'', ''seeder:7'']\<rparr>, pf_defaultPort = 7\<rparr>"
  let ?p = "PARecord \<lparr>ap_peers = [''10.0.0.2:7'', ''seeder:7''], ap_fqdn = ''svc'', ap_defaultPort = 7, ap_dnsServer = None\<rparr>"
  have f: "NewPeersFactory ''10.0.0.2:7,seeder'' 7 = Inr ?f" by code_simp
  have c: "PeersFactory_Create ?f (command_line ''svc'' [] [] []) = Inr (Some ?p)" by code_simp
  have o: "Provider_own demo_http demo_dns ?p = Inr [''10.0.0.1:7'', ''10.0.0.2:7'']" by code_simp
  obtain ps where "GetPeers demo_http demo_dns ?p = Inr ps" "set ps = {''10.0.0.1:7'', ''10.0.0.2:7'', ''seeder:7''}"
    using factory_merges_static [OF f c, of demo_http demo_dns] o by (auto simp: insert_commute)
  then show ?thesis using f c by blast
qed

end
