(* ===== verification/Peer_Controller.thy ===== *)
theory Peer_Controller
  imports Peers_Props
begin

text \<open>
  Package \<open>peers\<close>, file \<open>controller.go\<close>, which polls the provider and starts and stops one worker
  per peer through two callbacks, and \<open>PeerDownloaders\<close> of \<open>downloader.go\<close>, whose \<open>Add\<close> and
  \<open>Remove\<close> are these callbacks. The locale \<open>peer_callbacks\<close> is what the controller relies on; its
  interpretation on \<open>PeerDownloaders\<close> gives that the two tables of peers always agree.
\<close>

section \<open>controller.go\<close>

text \<open>The keys of \<open>peers\<close>; the poll interval and the timeout are times between the rounds.\<close>

record Controller =
  ct_peers :: "string list"

definition NewController :: Controller where
  "NewController = \<lparr>ct_peers = []\<rparr>"

datatype callback = onPeerAdded string | onPeerRemoved string

text \<open>
  \<open>reconcile\<close> starts one goroutine for every callback and waits for all of them: they run in any
  order, which is the argument \<open>order\<close>, a rearrangement of the calls. The loops over maps visit
  their keys in an order that Go leaves open; here it is that of the lists.
\<close>

definition reconcile_calls :: "string list \<Rightarrow> Controller \<Rightarrow> callback list" where
  "reconcile_calls desired c =
     map onPeerAdded (filter (\<lambda>h. h \<notin> set (ct_peers c)) (remdups desired)) @
     map onPeerRemoved (filter (\<lambda>h. h \<notin> set desired) (ct_peers c))"

definition reconcile_peers :: "string list \<Rightarrow> Controller \<Rightarrow> Controller" where
  "reconcile_peers desired c =
     c\<lparr>ct_peers := filter (\<lambda>h. h \<in> set desired) (ct_peers c @ filter (\<lambda>h. h \<notin> set (ct_peers c)) (remdups desired))\<rparr>"

fun run_callback :: "(string \<Rightarrow> 's \<Rightarrow> 's) \<Rightarrow> (string \<Rightarrow> 's \<Rightarrow> 's) \<Rightarrow> callback \<Rightarrow> 's \<Rightarrow> 's" where
  "run_callback added removed (onPeerAdded h) s = added h s"
| "run_callback added removed (onPeerRemoved h) s = removed h s"

definition reconcile ::
  "(string \<Rightarrow> 's \<Rightarrow> 's) \<Rightarrow> (string \<Rightarrow> 's \<Rightarrow> 's) \<Rightarrow> (callback list \<Rightarrow> callback list) \<Rightarrow> string list \<Rightarrow>
     Controller \<times> 's \<Rightarrow> Controller \<times> 's" where
  "reconcile added removed order desired = (\<lambda>(c, s).
     (reconcile_peers desired c, fold (run_callback added removed) (order (reconcile_calls desired c)) s))"

definition stopAll ::
  "(string \<Rightarrow> 's \<Rightarrow> 's) \<Rightarrow> (string \<Rightarrow> 's \<Rightarrow> 's) \<Rightarrow> (callback list \<Rightarrow> callback list) \<Rightarrow> Controller \<times> 's \<Rightarrow> Controller \<times> 's" where
  "stopAll added removed order = reconcile added removed order []"

text \<open>
  \<open>Run\<close>: one poll per round with the answer of the provider, until the context is done, which is
  seen after a round; then every worker is stopped. \<open>polls\<close> are the answers of the rounds.
\<close>

fun Controller_rounds ::
  "(string \<Rightarrow> 's \<Rightarrow> 's) \<Rightarrow> (string \<Rightarrow> 's \<Rightarrow> 's) \<Rightarrow> (callback list \<Rightarrow> callback list) \<Rightarrow> string list result list \<Rightarrow>
     Controller \<times> 's \<Rightarrow> Controller \<times> 's" where
  "Controller_rounds added removed order [] cs = cs"
| "Controller_rounds added removed order (Inl err # polls) cs = Controller_rounds added removed order polls cs"
| "Controller_rounds added removed order (Inr peers # polls) cs =
     Controller_rounds added removed order polls (reconcile added removed order peers cs)"

definition Controller_Run ::
  "(string \<Rightarrow> 's \<Rightarrow> 's) \<Rightarrow> (string \<Rightarrow> 's \<Rightarrow> 's) \<Rightarrow> (callback list \<Rightarrow> callback list) \<Rightarrow> string list result list \<Rightarrow>
     Controller \<times> 's \<Rightarrow> Controller \<times> 's" where
  "Controller_Run added removed order polls cs = stopAll added removed order (Controller_rounds added removed order polls cs)"

section \<open>PeerDownloaders\<close>

text \<open>
  The table of downloaders, the hosts whose goroutine \<open>execDownloader\<close> was started (with its
  downloader), the downloaders that were told to finish, and the messages of refused calls.
  \<open>new\<close> stands for \<open>NewPeerDownloader\<close>.
\<close>

record 'd PeerDownloaders =
  pd_downloaders :: "string \<rightharpoonup> 'd"
  pd_started :: "(string \<times> 'd) list"
  pd_finished :: "(string \<times> 'd) list"
  pd_errors :: "string list"

definition NewPeerDownloaders :: "'d PeerDownloaders" where
  "NewPeerDownloaders = \<lparr>pd_downloaders = Map.empty, pd_started = [], pd_finished = [], pd_errors = []\<rparr>"

definition PeerDownloaders_Add :: "(string \<Rightarrow> 'd) \<Rightarrow> string \<Rightarrow> 'd PeerDownloaders \<Rightarrow> 'd PeerDownloaders" where
  "PeerDownloaders_Add new host p =
     (if pd_downloaders p host \<noteq> None then p\<lparr>pd_errors := pd_errors p @ [host @ '' already exists, skipping add'']\<rparr>
      else p\<lparr>pd_downloaders := (pd_downloaders p)(host \<mapsto> new host), pd_started := pd_started p @ [(host, new host)]\<rparr>)"

definition PeerDownloaders_Remove :: "string \<Rightarrow> 'd PeerDownloaders \<Rightarrow> 'd PeerDownloaders" where
  "PeerDownloaders_Remove host p =
     (case pd_downloaders p host of
        None \<Rightarrow> p\<lparr>pd_errors := pd_errors p @ [host @ '' not found, skipping remove'']\<rparr>
      | Some d \<Rightarrow> p\<lparr>pd_downloaders := (pd_downloaders p)(host := None), pd_finished := pd_finished p @ [(host, d)]\<rparr>)"

text \<open>\<open>Fin\<close>: the number of downloaders it complains about; then it waits for all goroutines.\<close>

definition PeerDownloaders_Fin :: "'d PeerDownloaders \<Rightarrow> nat" where
  "PeerDownloaders_Fin p = card (dom (pd_downloaders p))"

section \<open>What the controller relies on\<close>

text \<open>
  \<open>members s\<close> are the peers with a worker, and \<open>clean s\<close> says that no call was refused: adding a
  peer that has no worker and removing one that has are never refused and change only that peer.
\<close>

locale peer_callbacks =
  fixes added :: "string \<Rightarrow> 's \<Rightarrow> 's"
    and removed :: "string \<Rightarrow> 's \<Rightarrow> 's"
    and members :: "'s \<Rightarrow> string set"
    and clean :: "'s \<Rightarrow> bool"
  assumes add_new: "h \<notin> members s \<Longrightarrow> members (added h s) = insert h (members s)"
    and add_clean: "h \<notin> members s \<Longrightarrow> clean s \<Longrightarrow> clean (added h s)"
    and remove_old: "h \<in> members s \<Longrightarrow> members (removed h s) = members s - {h}"
    and remove_clean: "h \<in> members s \<Longrightarrow> clean s \<Longrightarrow> clean (removed h s)"
begin

lemma callbacks_any_order:
  assumes "distinct (calls :: callback list)"
    and "\<forall>h. onPeerAdded h \<in> set calls \<longrightarrow> h \<notin> members s \<and> onPeerRemoved h \<notin> set calls"
    and "\<forall>h. onPeerRemoved h \<in> set calls \<longrightarrow> h \<in> members s"
    and "clean s"
  shows "members (fold (run_callback added removed) calls s) =
      members s \<union> {h. onPeerAdded h \<in> set calls} - {h. onPeerRemoved h \<in> set calls} \<and>
    clean (fold (run_callback added removed) calls s)"
  using assms
proof (induction calls arbitrary: s)
  case (Cons c calls)
  show ?case
  proof (cases c)
    case (onPeerAdded h)
    then have h: "h \<notin> members s" "onPeerAdded h \<notin> set calls" using Cons.prems by auto
    have "members (fold (run_callback added removed) calls (added h s)) =
        members (added h s) \<union> {h. onPeerAdded h \<in> set calls} - {h. onPeerRemoved h \<in> set calls} \<and>
      clean (fold (run_callback added removed) calls (added h s))"
      using Cons.prems onPeerAdded h by (intro Cons.IH) (auto simp: add_new add_clean)
    then show ?thesis using onPeerAdded h Cons.prems by (auto simp: add_new)
  next
    case (onPeerRemoved h)
    then have h: "h \<in> members s" "onPeerRemoved h \<notin> set calls" "onPeerAdded h \<notin> set calls" using Cons.prems by auto
    have "members (fold (run_callback added removed) calls (removed h s)) =
        members (removed h s) \<union> {h. onPeerAdded h \<in> set calls} - {h. onPeerRemoved h \<in> set calls} \<and>
      clean (fold (run_callback added removed) calls (removed h s))"
      using Cons.prems onPeerRemoved h by (intro Cons.IH) (auto simp: remove_old remove_clean)
    then show ?thesis using onPeerRemoved h by (auto simp: remove_old)
  qed
qed simp

definition agree :: "Controller \<times> 's \<Rightarrow> bool" where
  "agree cs \<longleftrightarrow> distinct (ct_peers (fst cs)) \<and> members (snd cs) = set (ct_peers (fst cs)) \<and> clean (snd cs)"

lemma reconcile_agree:
  assumes "agree (c, s)" and order: "\<And>xs. mset (order xs) = mset xs"
  shows "agree (reconcile added removed order desired (c, s))"
    and "set (ct_peers (fst (reconcile added removed order desired (c, s)))) = set desired"
proof -
  let ?calls = "order (reconcile_calls desired c)"
  have a: "distinct (ct_peers c)" "members s = set (ct_peers c)" "clean s" using assms(1) by (simp_all add: agree_def)
  have "distinct (reconcile_calls desired c)"
    using a(1) by (auto simp: reconcile_calls_def distinct_map inj_on_def)
  then have calls: "distinct ?calls" "set ?calls = set (reconcile_calls desired c)"
    using mset_eq_imp_distinct_iff [OF order] mset_eq_setD [OF order] by simp_all
  have "members (fold (run_callback added removed) ?calls s) =
      members s \<union> {h. onPeerAdded h \<in> set ?calls} - {h. onPeerRemoved h \<in> set ?calls} \<and>
    clean (fold (run_callback added removed) ?calls s)"
    using a calls by (intro callbacks_any_order) (auto simp: reconcile_calls_def)
  then show "agree (reconcile added removed order desired (c, s))"
    using a calls(2) by (auto simp: agree_def reconcile_def reconcile_peers_def reconcile_calls_def)
  show "set (ct_peers (fst (reconcile added removed order desired (c, s)))) = set desired"
    by (auto simp: reconcile_def reconcile_peers_def)
qed

lemma rounds_agree:
  "agree cs \<Longrightarrow> (\<And>xs. mset (order xs) = mset xs) \<Longrightarrow> agree (Controller_rounds added removed order polls cs)"
proof (induction polls arbitrary: cs)
  case (Cons poll polls)
  then show ?case
    using reconcile_agree(1) [of "fst cs" "snd cs" order] by (cases poll) simp_all
qed simp

end

section \<open>The controller with the downloaders of peers\<close>

text \<open>
  No call was refused, and every downloader that was started either was told to finish or is still
  in the table.
\<close>

definition accounted :: "'d PeerDownloaders \<Rightarrow> bool" where
  "accounted p \<longleftrightarrow> pd_errors p = [] \<and> finite (dom (pd_downloaders p)) \<and>
     mset (pd_started p) = mset (pd_finished p) + mset_set (Map.graph (pd_downloaders p))"

lemma finite_graph [simp]: "finite (dom m) \<Longrightarrow> finite (Map.graph m)"
  by (simp add: finite_graph_iff_finite_dom)

lemma graph_new: "m h = None \<Longrightarrow> Map.graph (m(h \<mapsto> d)) = insert (h, d) (Map.graph m) \<and> (h, d) \<notin> Map.graph m"
  by (auto simp: Map.graph_def split: if_splits)

lemma graph_del: "m h = Some d \<Longrightarrow> Map.graph (m(h := None)) = Map.graph m - {(h, d)} \<and> (h, d) \<in> Map.graph m"
  by (auto simp: Map.graph_def split: if_splits)

interpretation downloaders: peer_callbacks "PeerDownloaders_Add new" PeerDownloaders_Remove
  "\<lambda>p. dom (pd_downloaders p)" accounted for new :: "string \<Rightarrow> 'd"
proof unfold_locales
  fix h and p :: "'d PeerDownloaders"
  assume h: "h \<notin> dom (pd_downloaders p)"
  then have n: "pd_downloaders p h = None" by (simp add: domIff)
  then show "dom (pd_downloaders (PeerDownloaders_Add new h p)) = insert h (dom (pd_downloaders p))"
    by (simp add: PeerDownloaders_Add_def)
  show "accounted (PeerDownloaders_Add new h p)" if "accounted p"
    using that n graph_new [of "pd_downloaders p" h "new h"] by (simp add: accounted_def PeerDownloaders_Add_def)
next
  fix h and p :: "'d PeerDownloaders"
  assume "h \<in> dom (pd_downloaders p)"
  then obtain d where d: "pd_downloaders p h = Some d" by auto
  then show "dom (pd_downloaders (PeerDownloaders_Remove h p)) = dom (pd_downloaders p) - {h}"
    by (simp add: PeerDownloaders_Remove_def)
  show "accounted (PeerDownloaders_Remove h p)" if "accounted p"
    using that d graph_del [of "pd_downloaders p" h d]
    by (simp add: accounted_def PeerDownloaders_Remove_def mset_set_Diff)
qed

lemma start_agree: "downloaders.agree (NewController, NewPeerDownloaders)"
  by (simp add: downloaders.agree_def NewController_def NewPeerDownloaders_def accounted_def)

lemma rounds_snoc:
  "Controller_rounds a r order (xs @ [Inr peers]) cs = reconcile a r order peers (Controller_rounds a r order xs cs)"
proof (induction xs arbitrary: cs)
  case (Cons x xs)
  then show ?case by (cases x) simp_all
qed simp

text \<open>Claim C22.
  The controller and the table of downloaders always agree: whatever the polls answer, errors
  included, and in whatever order the callbacks of a round run, after every round exactly the peers
  of the last list that was delivered have a downloader, no call of \<open>Add\<close> or \<open>Remove\<close> is ever
  refused, and when \<open>Run\<close> returns every downloader that was started has been told to finish, exactly
  once, so that \<open>Fin\<close> has nothing to complain about.\<close>

theorem controller_keeps_downloaders:
  fixes new :: "string \<Rightarrow> 'd" and order polls
  defines "start \<equiv> (NewController, NewPeerDownloaders :: 'd PeerDownloaders)"
    and "stopped \<equiv> snd (Controller_Run (PeerDownloaders_Add new) PeerDownloaders_Remove order polls
           (NewController, NewPeerDownloaders))"
  assumes "\<And>xs. mset (order xs) = mset xs"
  shows "dom (pd_downloaders (snd (Controller_rounds (PeerDownloaders_Add new) PeerDownloaders_Remove order
           (polls @ [Inr peers]) start))) = set peers \<and>
    pd_errors stopped = [] \<and> PeerDownloaders_Fin stopped = 0 \<and> mset (pd_finished stopped) = mset (pd_started stopped)"
proof -
  let ?rounds = "\<lambda>ps. Controller_rounds (PeerDownloaders_Add new) PeerDownloaders_Remove order ps start"
  let ?step = "\<lambda>ps cs. reconcile (PeerDownloaders_Add new) PeerDownloaders_Remove order ps cs"
  have rounds: "downloaders.agree (?rounds ps)" for ps
    using downloaders.rounds_agree [OF start_agree assms(3)] by (simp add: start_def)
  have after: "downloaders.agree (?step ps cs)" "dom (pd_downloaders (snd (?step ps cs))) = set ps"
    if "downloaders.agree cs" for ps and cs :: "Controller \<times> 'd PeerDownloaders"
    using downloaders.reconcile_agree [of "fst cs" "snd cs" order new ps] that assms(3)
    by (auto simp: downloaders.agree_def)
  have "dom (pd_downloaders (snd (?rounds (polls @ [Inr peers])))) = set peers"
    using after(2) [OF rounds] by (simp add: rounds_snoc)
  moreover have stopped: "stopped = snd (?step [] (?rounds polls))"
    by (simp add: Controller_Run_def stopAll_def stopped_def start_def)
  moreover have "downloaders.agree (?step [] (?rounds polls))" "dom (pd_downloaders stopped) = {}"
    using after [OF rounds, of "[]" polls] by (simp_all add: stopped)
  then have "accounted stopped" "Map.graph (pd_downloaders stopped) = {}"
    by (auto simp: downloaders.agree_def stopped)
  ultimately show ?thesis using \<open>dom (pd_downloaders stopped) = {}\<close>
    by (simp add: accounted_def PeerDownloaders_Fin_def)
qed

theorem controller_keeps_downloaders_witness:
  "pd_finished (snd (Controller_Run (PeerDownloaders_Add length) PeerDownloaders_Remove rev
      [Inr [''a'', ''bb''], Inl EOF, Inr [''bb'', ''c'']] (NewController, NewPeerDownloaders))) =
     [(''a'', 1), (''c'', 1), (''bb'', 2)] \<and>
   pd_errors (snd (Controller_Run (PeerDownloaders_Add length) PeerDownloaders_Remove rev
      [Inr [''a'', ''bb''], Inl EOF, Inr [''bb'', ''c'']] (NewController, NewPeerDownloaders))) = []"
  using controller_keeps_downloaders [of rev length "[Inr [''a'', ''bb''], Inl EOF, Inr [''bb'', ''c'']]" "[]"]
  by (simp add: Controller_Run_def stopAll_def reconcile_def reconcile_calls_def reconcile_peers_def NewController_def
      NewPeerDownloaders_def PeerDownloaders_Add_def PeerDownloaders_Remove_def)

end
