(* ===== verification/Go_Json.thy ===== *)
theory Go_Json
  imports Go_Strings
begin

text \<open>
  What the sources use of Go's package \<open>encoding/json\<close>: the text \<open>Marshal\<close> writes for a tree of
  values, and the tree \<open>Unmarshal\<close> reads from a text, on strings as sequences of bytes. Marshalling
  a string escapes quotes, control characters, the characters that are special in HTML and the two
  Unicode line separators, and replaces every byte that is not part of valid UTF-8 by \<open>\ufffd\<close>.
  The main fact is \<open>Unmarshal_Marshal\<close>: reading back what was written gives the same tree, as long
  as its strings are valid UTF-8.
\<close>

section \<open>UTF-8\<close>

abbreviation byte_in :: "char \<Rightarrow> nat \<Rightarrow> nat \<Rightarrow> bool" where
  "byte_in c lo hi \<equiv> lo \<le> of_char c \<and> of_char c \<le> hi"

text \<open>
  \<open>utf8_tail c cs\<close> is the number of continuation bytes of the valid sequence of two to four bytes that
  starts with \<open>c\<close> and goes on in \<open>cs\<close>, or 0 if there is none.
\<close>

definition conts :: "nat \<Rightarrow> string \<Rightarrow> bool" where
  "conts n cs \<longleftrightarrow> n \<le> length cs \<and> (\<forall>c \<in> set (take n cs). byte_in c 128 191)"

definition second_ok :: "nat \<Rightarrow> string \<Rightarrow> bool" where
  "second_ok b cs \<longleftrightarrow>
     (case cs of [] \<Rightarrow> False
      | d # _ \<Rightarrow> if b = 224 then byte_in d 160 191 else if b = 237 then byte_in d 128 159
                else if b = 240 then byte_in d 144 191 else if b = 244 then byte_in d 128 143
                else byte_in d 128 191)"

definition utf8_tail :: "char \<Rightarrow> string \<Rightarrow> nat" where
  "utf8_tail c cs =
     (let b = of_char c :: nat in
      if 194 \<le> b \<and> b \<le> 223 \<and> conts 1 cs then 1
      else if 224 \<le> b \<and> b \<le> 239 \<and> conts 2 cs \<and> second_ok b cs then 2
      else if 240 \<le> b \<and> b \<le> 244 \<and> conts 3 cs \<and> second_ok b cs then 3
      else 0)"

function valid_utf8 :: "string \<Rightarrow> bool" where
  "valid_utf8 [] = True"
| "valid_utf8 (c # cs) =
     (if (of_char c :: nat) < 128 then valid_utf8 cs
      else utf8_tail c cs \<noteq> 0 \<and> valid_utf8 (drop (utf8_tail c cs) cs))"
  by pat_completeness auto
termination by (relation "measure length") auto

text \<open>The bytes of a code point, and those of the replacement character.\<close>

definition EncodeRune :: "nat \<Rightarrow> string" where
  "EncodeRune r =
     (if r < 128 then [char_of r]
      else if r < 2048 then [char_of (192 + r div 64), char_of (128 + r mod 64)]
      else if r < 65536 then [char_of (224 + r div 4096), char_of (128 + r div 64 mod 64), char_of (128 + r mod 64)]
      else [char_of (240 + r div 262144), char_of (128 + r div 4096 mod 64),
            char_of (128 + r div 64 mod 64), char_of (128 + r mod 64)])"

definition RuneError :: nat where
  "RuneError = 65533"

text \<open>The string with every byte that is not part of valid UTF-8 replaced.\<close>

function to_utf8 :: "string \<Rightarrow> string" where
  "to_utf8 [] = []"
| "to_utf8 (c # cs) =
     (if (of_char c :: nat) < 128 then c # to_utf8 cs
      else if utf8_tail c cs = 0 then EncodeRune RuneError @ to_utf8 cs
      else (c # take (utf8_tail c cs) cs) @ to_utf8 (drop (utf8_tail c cs) cs))"
  by pat_completeness auto
termination by (relation "measure length") auto

section \<open>Strings\<close>

definition hex_digit :: "nat \<Rightarrow> char" where
  "hex_digit d = (if d < 10 then char_of (48 + d) else char_of (87 + d))"

definition hex_value :: "char \<Rightarrow> nat option" where
  "hex_value c =
     (let n = of_char c :: nat in
      if 48 \<le> n \<and> n \<le> 57 then Some (n - 48)
      else if 97 \<le> n \<and> n \<le> 102 then Some (n - 87)
      else if 65 \<le> n \<and> n \<le> 70 then Some (n - 55) else None)"

abbreviation quote :: char where "quote \<equiv> CHR 0x22"
abbreviation backslash :: char where "backslash \<equiv> CHR 0x5C"

definition escape_ascii :: "char \<Rightarrow> string" where
  "escape_ascii c =
     (let n = of_char c :: nat in
      if c = quote \<or> c = backslash then [backslash, c]
      else if c = CHR 0x08 then [backslash, CHR ''b'']
      else if c = CHR 0x0C then [backslash, CHR ''f'']
      else if c = CHR 0x0A then [backslash, CHR ''n'']
      else if c = CHR 0x0D then [backslash, CHR ''r'']
      else if c = CHR 0x09 then [backslash, CHR ''t'']
      else if n < 32 \<or> c = CHR ''<'' \<or> c = CHR ''>'' \<or> c = CHR ''&''
      then [backslash, CHR ''u'', CHR ''0'', CHR ''0'', hex_digit (n div 16), hex_digit (n mod 16)]
      else [c])"

text \<open>A valid multi-byte sequence is copied, except the two line separators.\<close>

definition escape_rune :: "string \<Rightarrow> string" where
  "escape_rune s =
     (if s = EncodeRune 8232 then backslash # ''u2028''
      else if s = EncodeRune 8233 then backslash # ''u2029'' else s)"

function escape :: "string \<Rightarrow> string" where
  "escape [] = []"
| "escape (c # cs) =
     (if (of_char c :: nat) < 128 then escape_ascii c @ escape cs
      else if utf8_tail c cs = 0 then backslash # ''ufffd'' @ escape cs
      else escape_rune (c # take (utf8_tail c cs) cs) @ escape (drop (utf8_tail c cs) cs))"
  by pat_completeness auto
termination by (relation "measure length") auto

definition Marshal_string :: "string \<Rightarrow> string" where
  "Marshal_string s = quote # escape s @ [quote]"

fun getu4 :: "string \<Rightarrow> nat option" where
  "getu4 (a # b # c # d # _) =
     (case (hex_value a, hex_value b, hex_value c, hex_value d) of
        (Some w, Some x, Some y, Some z) \<Rightarrow> Some (4096 * w + 256 * x + 16 * y + z)
      | _ \<Rightarrow> None)"
| "getu4 _ = None"

text \<open>
  The low surrogate of a pair, when the text goes on with one (\<open>utf16.DecodeRune\<close>).
\<close>

definition low_surrogate :: "string \<Rightarrow> nat option" where
  "low_surrogate cs =
     (case cs of
        b # u # hs \<Rightarrow>
          if b = backslash \<and> u = CHR ''u''
          then (case getu4 hs of Some r \<Rightarrow> if 56320 \<le> r \<and> r < 57344 then Some r else None | None \<Rightarrow> None)
          else None
      | _ \<Rightarrow> None)"

text \<open>The code point of an escape \<open>\u....\<close>, and the number of characters it takes after the \<open>u\<close>.\<close>

definition unescape_u :: "string \<Rightarrow> (nat \<times> nat) option" where
  "unescape_u hs =
     (case getu4 hs of
        None \<Rightarrow> None
      | Some r \<Rightarrow>
          if 55296 \<le> r \<and> r < 56320 then
            (case low_surrogate (drop 4 hs) of
               Some r1 \<Rightarrow> Some ((r - 55296) * 1024 + (r1 - 56320) + 65536, 10)
             | None \<Rightarrow> Some (RuneError, 4))
          else if 56320 \<le> r \<and> r < 57344 then Some (RuneError, 4)
          else Some (r, 4))"

definition unescape_char :: "char \<Rightarrow> char option" where
  "unescape_char e =
     (if e = quote \<or> e = backslash \<or> e = CHR ''/'' then Some e
      else if e = CHR ''b'' then Some (CHR 0x08)
      else if e = CHR ''f'' then Some (CHR 0x0C)
      else if e = CHR ''n'' then Some (CHR 0x0A)
      else if e = CHR ''r'' then Some (CHR 0x0D)
      else if e = CHR ''t'' then Some (CHR 0x09) else None)"

definition emit :: "string \<Rightarrow> (string \<times> string) option \<Rightarrow> (string \<times> string) option" where
  "emit s r = map_option (\<lambda>(t, rest). (s @ t, rest)) r"

text \<open>What follows an opening quote: the string, and the text after the closing quote.\<close>

function parse_string :: "string \<Rightarrow> (string \<times> string) option" where
  "parse_string [] = None"
| "parse_string (c # cs) =
     (if c = quote then Some ([], cs)
      else if c = backslash then
        (case cs of
           [] \<Rightarrow> None
         | e # es \<Rightarrow>
             if e = CHR ''u'' then
               (case unescape_u es of
                  None \<Rightarrow> None
                | Some (r, n) \<Rightarrow> emit (EncodeRune r) (parse_string (drop n es)))
             else (case unescape_char e of
                     None \<Rightarrow> None
                   | Some e' \<Rightarrow> emit [e'] (parse_string es)))
      else if (of_char c :: nat) < 32 then None
      else if (of_char c :: nat) < 128 then emit [c] (parse_string cs)
      else if utf8_tail c cs = 0 then emit (EncodeRune RuneError) (parse_string cs)
      else emit (c # take (utf8_tail c cs) cs) (parse_string (drop (utf8_tail c cs) cs)))"
  by pat_completeness auto
termination by (relation "measure length") auto

section \<open>Values\<close>

text \<open>The literal of a number is kept as it stands; a string is the string it denotes.\<close>

datatype json =
    JNull
  | JBool bool
  | JNum string
  | JStr string
  | JArr "json list"
  | JObj "(string \<times> json) list"

fun Marshal :: "json \<Rightarrow> string"
  and Marshal_array :: "json list \<Rightarrow> string"
  and Marshal_object :: "(string \<times> json) list \<Rightarrow> string" where
  "Marshal JNull = ''null''"
| "Marshal (JBool b) = (if b then ''true'' else ''false'')"
| "Marshal (JNum n) = n"
| "Marshal (JStr s) = Marshal_string s"
| "Marshal (JArr js) = CHR ''['' # (if js = [] then '']'' else Marshal_array js)"
| "Marshal (JObj fs) = CHR ''{'' # (if fs = [] then ''}'' else Marshal_object fs)"
| "Marshal_array [] = []"
| "Marshal_array (j # js) = Marshal j @ (if js = [] then '']'' else CHR '','' # Marshal_array js)"
| "Marshal_object [] = []"
| "Marshal_object ((k, j) # fs) =
     Marshal_string k @ CHR '':'' # Marshal j @ (if fs = [] then ''}'' else CHR '','' # Marshal_object fs)"

definition json_space :: "char \<Rightarrow> bool" where
  "json_space c \<longleftrightarrow> c \<in> {CHR '' '', CHR 0x09, CHR 0x0A, CHR 0x0D}"

abbreviation skip :: "string \<Rightarrow> string" where
  "skip s \<equiv> dropWhile json_space s"

definition is_digit :: "char \<Rightarrow> bool" where
  "is_digit c \<longleftrightarrow> byte_in c 48 57"

text \<open>
  The grammar of number literals: an optional sign, \<open>0\<close> or digits that do not start with \<open>0\<close>, an
  optional fraction and an optional exponent. \<open>scan_number\<close> splits a text after the literal.
\<close>

definition scan_digits :: "string \<Rightarrow> (string \<times> string) option" where
  "scan_digits s = (if takeWhile is_digit s = [] then None else Some (takeWhile is_digit s, dropWhile is_digit s))"

definition scan_int :: "string \<Rightarrow> (string \<times> string) option" where
  "scan_int s =
     (case s of [] \<Rightarrow> None | c # cs \<Rightarrow> if c = CHR ''0'' then Some ([c], cs) else scan_digits s)"

definition scan_frac :: "string \<Rightarrow> (string \<times> string) option" where
  "scan_frac s =
     (case s of [] \<Rightarrow> Some ([], [])
      | c # cs \<Rightarrow> if c = CHR ''.'' then map_option (\<lambda>(ds, rest). (c # ds, rest)) (scan_digits cs) else Some ([], s))"

definition scan_exp :: "string \<Rightarrow> (string \<times> string) option" where
  "scan_exp s =
     (case s of [] \<Rightarrow> Some ([], [])
      | c # cs \<Rightarrow>
          if c = CHR ''e'' \<or> c = CHR ''E'' then
            (case cs of
               [] \<Rightarrow> None
             | d # ds \<Rightarrow>
                 if d = CHR ''+'' \<or> d = CHR ''-'' then map_option (\<lambda>(es, rest). (c # d # es, rest)) (scan_digits ds)
                 else map_option (\<lambda>(es, rest). (c # es, rest)) (scan_digits cs))
          else Some ([], s))"

definition scan_number :: "string \<Rightarrow> (string \<times> string) option" where
  "scan_number s =
     (let (sign, s1) = (case s of [] \<Rightarrow> ([], []) | c # cs \<Rightarrow> if c = CHR ''-'' then ([c], cs) else ([], s)) in
      case scan_int s1 of None \<Rightarrow> None | Some (a, s2) \<Rightarrow>
      case scan_frac s2 of None \<Rightarrow> None | Some (b, s3) \<Rightarrow>
      case scan_exp s3 of None \<Rightarrow> None | Some (c, s4) \<Rightarrow> Some (sign @ a @ b @ c, s4))"

definition scan_literal :: "string \<Rightarrow> 'a \<Rightarrow> string \<Rightarrow> ('a \<times> string) option" where
  "scan_literal lit j s = (if HasPrefix s lit then Some (j, drop (length lit) s) else None)"

text \<open>
  A value, the elements of an array after an element is due, and the fields of an object after a
  field is due. The fuel bounds the number of nested calls; the length of the text is enough.
\<close>

fun parse_value :: "nat \<Rightarrow> string \<Rightarrow> (json \<times> string) option"
  and parse_elems :: "nat \<Rightarrow> string \<Rightarrow> (json list \<times> string) option"
  and parse_fields :: "nat \<Rightarrow> string \<Rightarrow> ((string \<times> json) list \<times> string) option" where
  "parse_value 0 s = None"
| "parse_value (Suc k) s =
     (case skip s of
        [] \<Rightarrow> None
      | c # cs \<Rightarrow>
          if c = quote then map_option (\<lambda>(t, rest). (JStr t, rest)) (parse_string cs)
          else if c = CHR ''['' then
            (case skip cs of
               [] \<Rightarrow> None
             | d # ds \<Rightarrow> if d = CHR '']'' then Some (JArr [], ds)
                        else map_option (\<lambda>(js, rest). (JArr js, rest)) (parse_elems k cs))
          else if c = CHR ''{'' then
            (case skip cs of
               [] \<Rightarrow> None
             | d # ds \<Rightarrow> if d = CHR ''}'' then Some (JObj [], ds)
                        else map_option (\<lambda>(fs, rest). (JObj fs, rest)) (parse_fields k cs))
          else if c = CHR ''n'' then scan_literal ''null'' JNull (c # cs)
          else if c = CHR ''t'' then scan_literal ''true'' (JBool True) (c # cs)
          else if c = CHR ''f'' then scan_literal ''false'' (JBool False) (c # cs)
          else map_option (\<lambda>(n, rest). (JNum n, rest)) (scan_number (c # cs)))"
| "parse_elems 0 s = None"
| "parse_elems (Suc k) s =
     (case parse_value k s of
        None \<Rightarrow> None
      | Some (j, s') \<Rightarrow>
          (case skip s' of
             [] \<Rightarrow> None
           | c # cs \<Rightarrow>
               if c = CHR '']'' then Some ([j], cs)
               else if c = CHR '','' then map_option (\<lambda>(js, rest). (j # js, rest)) (parse_elems k cs)
               else None))"
| "parse_fields 0 s = None"
| "parse_fields (Suc k) s =
     (case skip s of
        [] \<Rightarrow> None
      | q # qs \<Rightarrow>
          if q \<noteq> quote then None
          else (case parse_string qs of
             None \<Rightarrow> None
           | Some (key, s1) \<Rightarrow>
               (case skip s1 of
                  [] \<Rightarrow> None
                | c # cs \<Rightarrow>
                    if c \<noteq> CHR '':'' then None
                    else (case parse_value k cs of
                       None \<Rightarrow> None
                     | Some (j, s2) \<Rightarrow>
                         (case skip s2 of
                            [] \<Rightarrow> None
                          | d # ds \<Rightarrow>
                              if d = CHR ''}'' then Some ([(key, j)], ds)
                              else if d = CHR '','' then map_option (\<lambda>(fs, rest). ((key, j) # fs, rest)) (parse_fields k ds)
                              else None)))))"

definition parse_json :: "string \<Rightarrow> json option" where
  "parse_json s =
     (case parse_value (2 * length s + 2) s of
        None \<Rightarrow> None
      | Some (j, rest) \<Rightarrow> if skip rest = [] then Some j else None)"

section \<open>Reading what was written: strings\<close>

declare parse_string.simps [simp del]

lemma emit_simps [simp]:
  "emit s None = None" "emit s (Some (t, r)) = Some (s @ t, r)" "emit [] p = p"
  by (auto simp: emit_def split_def intro: option.map_ident_strong)

lemma second_ok_app: "0 < m \<Longrightarrow> m \<le> length cs \<Longrightarrow> second_ok b (take m cs @ r) = second_ok b cs"
  by (cases cs; cases m) (auto simp: second_ok_def)

lemma conts_app: "m \<le> length cs \<Longrightarrow> n \<le> m \<Longrightarrow> conts n (take m cs @ r) = conts n cs"
  by (auto simp: conts_def min_def)

lemma conts_le: "conts n cs \<Longrightarrow> n \<le> length cs"
  by (simp add: conts_def)

lemma utf8_tail_le: "utf8_tail c cs \<le> length cs"
  using conts_le [of 1 cs] conts_le [of 2 cs] conts_le [of 3 cs] by (auto simp: utf8_tail_def Let_def)

lemma utf8_tail_app: "utf8_tail c cs = m \<Longrightarrow> m \<noteq> 0 \<Longrightarrow> utf8_tail c (take m cs @ r) = m"
  using utf8_tail_le [of c cs]
  by (auto simp: utf8_tail_def Let_def conts_app second_ok_app split: if_splits)

lemma hex_value_digit [simp]: "d < 16 \<Longrightarrow> hex_value (hex_digit d) = Some d"
  by (auto simp: hex_value_def hex_digit_def Let_def)

lemma parse_raw_ascii:
  assumes "32 \<le> (of_char c :: nat)" "(of_char c :: nat) < 128" "c \<noteq> quote" "c \<noteq> backslash"
  shows "parse_string (c # r) = emit [c] (parse_string r)"
  using assms by (simp add: parse_string.simps(2))

lemma parse_escaped: "e \<noteq> CHR ''u'' \<Longrightarrow> unescape_char e = Some e' \<Longrightarrow> parse_string (backslash # e # r) = emit [e'] (parse_string r)"
  by (simp add: parse_string.simps(2))

lemma parse_u:
  "unescape_u (hs @ r) = Some (n, length hs) \<Longrightarrow>
     parse_string (backslash # CHR ''u'' # hs @ r) = emit (EncodeRune n) (parse_string r)"
  by (simp add: parse_string.simps(2))

lemma unescape_u_ascii:
  assumes "n < 128"
  shows "unescape_u ([CHR ''0'', CHR ''0'', hex_digit (n div 16), hex_digit (n mod 16)] @ r) = Some (n, 4)"
proof -
  have "hex_value (CHR ''0'') = Some 0" by (simp add: hex_value_def)
  moreover have "n div 16 < 16" using assms by auto
  ultimately show ?thesis using assms by (simp add: unescape_u_def)
qed


lemma parse_escape_ascii:
  assumes "(of_char c :: nat) < 128"
  shows "parse_string (escape_ascii c @ r) = emit [c] (parse_string r)"
proof -
  let ?n = "of_char c :: nat"
  consider (special) "c \<in> {quote, backslash, CHR 0x08, CHR 0x09, CHR 0x0A, CHR 0x0C, CHR 0x0D}"
    | (hex) "c \<notin> {quote, backslash, CHR 0x08, CHR 0x09, CHR 0x0A, CHR 0x0C, CHR 0x0D}"
        "?n < 32 \<or> c = CHR ''<'' \<or> c = CHR ''>'' \<or> c = CHR ''&''"
    | (plain) "32 \<le> ?n" "c \<noteq> quote" "c \<noteq> backslash" "c \<noteq> CHR ''<''" "c \<noteq> CHR ''>''" "c \<noteq> CHR ''&''"
    by (cases "?n < 32") auto
  then show ?thesis
  proof cases
    case special
    then show ?thesis
      by (elim insertE emptyE) (simp_all add: escape_ascii_def parse_string.simps(2) unescape_char_def)
  next
    case hex
    then have "escape_ascii c @ r = backslash # CHR ''u'' # [CHR ''0'', CHR ''0'', hex_digit (?n div 16), hex_digit (?n mod 16)] @ r"
      by (simp add: escape_ascii_def Let_def)
    moreover have "EncodeRune ?n = [c]" using assms by (simp add: EncodeRune_def)
    ultimately show ?thesis
      using parse_u [of "[CHR ''0'', CHR ''0'', hex_digit (?n div 16), hex_digit (?n mod 16)]" r ?n]
        unescape_u_ascii [OF assms, of r] by simp
  next
    case plain
    have ne: "c \<noteq> CHR 0x08" "c \<noteq> CHR 0x09" "c \<noteq> CHR 0x0A" "c \<noteq> CHR 0x0C" "c \<noteq> CHR 0x0D"
      by (rule notI, use plain(1) in simp)+
    have big: "\<not> ?n < 32" using plain(1) by linarith
    have "escape_ascii c = [c]"
      by (simp only: escape_ascii_def Let_def ne big plain(2-6) if_False simp_thms)
    then show ?thesis using parse_raw_ascii [OF plain(1) assms plain(2,3), of r] by simp
  qed
qed

lemma unescape_u_line: "unescape_u (''2028'' @ r) = Some (8232, 4)" "unescape_u (''2029'' @ r) = Some (8233, 4)"
  by (simp_all add: unescape_u_def hex_value_def)

lemma parse_escape_rune:
  assumes "128 \<le> (of_char c :: nat)" and m: "utf8_tail c cs = m" "m \<noteq> 0"
  shows "parse_string (escape_rune (c # take m cs) @ r) = emit (c # take m cs) (parse_string r)"
proof -
  have l: "m \<le> length cs" using utf8_tail_le m(1) by blast
  have "parse_string (c # take m cs @ r) = emit (c # take m cs) (parse_string r)"
    using assms(1) utf8_tail_app [OF m] m(2) l
    by (auto simp: parse_string.simps(2) min_def)
  then show ?thesis
    using parse_u [of "''2028''" r 8232] parse_u [of "''2029''" r 8233] unescape_u_line [of r] by (auto simp: escape_rune_def)
qed

lemma emit_emit [simp]: "emit s (emit t p) = emit (s @ t) p"
  by (cases p) auto

lemma parse_escape: "parse_string (escape s @ r) = emit (to_utf8 s) (parse_string r)"
proof (induction s rule: escape.induct)
  case (2 c cs)
  consider "(of_char c :: nat) < 128" | "128 \<le> (of_char c :: nat)" "utf8_tail c cs = 0"
    | "128 \<le> (of_char c :: nat)" "utf8_tail c cs \<noteq> 0" by linarith
  then show ?case
  proof cases
    case 1
    then show ?thesis using 2 parse_escape_ascii [OF 1] by simp
  next
    case 2
    have "unescape_u (''fffd'' @ t) = Some (RuneError, 4)" for t
      by (simp add: unescape_u_def hex_value_def RuneError_def)
    then show ?thesis using 2 "2.IH"(2) parse_u [of "''fffd''" "escape cs @ r" RuneError] by simp
  next
    case 3
    then show ?thesis using "2.IH"(3) parse_escape_rune [of c cs "utf8_tail c cs"] by (simp add: utf8_tail_le)
  qed
qed simp

lemma parse_Marshal_string [simp]: "parse_string (escape s @ quote # r) = Some (to_utf8 s, r)"
  by (simp add: parse_escape parse_string.simps(2))

lemma to_utf8_valid: "valid_utf8 s \<Longrightarrow> to_utf8 s = s"
  by (induction s rule: valid_utf8.induct) (auto simp: utf8_tail_le split: if_splits)

text \<open>A string that is not valid UTF-8 is not written like the string it is read as.\<close>

lemma replacement_bytes: "EncodeRune RuneError = [CHR 0xEF, CHR 0xBF, CHR 0xBD]"
proof -
  have "of_char (CHR 0xEF) = (239 :: nat)" "of_char (CHR 0xBF) = (191 :: nat)" "of_char (CHR 0xBD) = (189 :: nat)"
    by simp_all
  then have "char_of (239 :: nat) = CHR 0xEF" "char_of (191 :: nat) = CHR 0xBF" "char_of (189 :: nat) = CHR 0xBD"
    using char_of_char by metis+
  then show ?thesis by (simp add: EncodeRune_def RuneError_def)
qed

lemma replacement_escape: "escape (EncodeRune RuneError @ s) = EncodeRune RuneError @ escape s"
proof -
  have t: "utf8_tail (CHR 0xEF) (CHR 0xBF # CHR 0xBD # s) = 2"
    by (simp add: utf8_tail_def conts_def second_ok_def)
  have "EncodeRune 8232 ! 1 = char_of (128 :: nat)" "EncodeRune 8233 ! 1 = char_of (128 :: nat)"
    by (simp_all add: EncodeRune_def)
  moreover have "CHR 0xBF \<noteq> char_of (128 :: nat)" by (rule notI, drule arg_cong [where f = "of_char :: char \<Rightarrow> nat"]) simp
  ultimately have "escape_rune [CHR 0xEF, CHR 0xBF, CHR 0xBD] = [CHR 0xEF, CHR 0xBF, CHR 0xBD]"
    by (auto simp: escape_rune_def dest: arg_cong [where f = "\<lambda>s. s ! 1"])
  then show ?thesis using t by (simp add: replacement_bytes)
qed

lemma escape_to_utf8: "\<not> valid_utf8 s \<Longrightarrow> escape (to_utf8 s) \<noteq> escape s"
proof (induction s rule: escape.induct)
  case (2 c cs)
  consider "(of_char c :: nat) < 128" | "128 \<le> (of_char c :: nat)" "utf8_tail c cs = 0"
    | "128 \<le> (of_char c :: nat)" "utf8_tail c cs \<noteq> 0" by linarith
  then show ?case
  proof cases
    case 1
    then show ?thesis using 2 by simp
  next
    case 2
    then have "escape (to_utf8 (c # cs)) = EncodeRune RuneError @ escape (to_utf8 cs)"
      by (simp add: replacement_escape)
    then show ?thesis using 2 by (simp add: replacement_bytes)
  next
    case 3
    have t: "utf8_tail c (take (utf8_tail c cs) cs @ x) = utf8_tail c cs" for x
      using utf8_tail_app [of c cs "utf8_tail c cs"] 3 by simp
    have "escape (c # take (utf8_tail c cs) cs @ x) = escape_rune (c # take (utf8_tail c cs) cs) @ escape x" for x
      using 3 t [of x] by (simp add: utf8_tail_le min_absorb2)
    then show ?thesis using 3 "2.IH"(3) "2.prems" by simp
  qed
qed simp

section \<open>Reading what was written: numbers\<close>

text \<open>A text after a number literal that does not prolong it.\<close>

definition ends_number :: "string \<Rightarrow> bool" where
  "ends_number r \<longleftrightarrow> (case r of [] \<Rightarrow> True | c # _ \<Rightarrow> \<not> is_digit c \<and> c \<notin> {CHR ''.'', CHR ''e'', CHR ''E''})"

definition number_literal :: "string \<Rightarrow> bool" where
  "number_literal n \<longleftrightarrow>
     (\<exists>c cs. n = c # cs \<and> (is_digit c \<or> c = CHR ''-'')) \<and> (\<forall>r. ends_number r \<longrightarrow> scan_number (n @ r) = Some (n, r))"

lemma digits_take: "\<forall>c \<in> set ds. is_digit c \<Longrightarrow> ends_number r \<Longrightarrow>
    takeWhile is_digit (ds @ r) = ds \<and> dropWhile is_digit (ds @ r) = r"
  by (cases r) (auto simp: ends_number_def)

lemma scan_number_ends [simp]: "ends_number r \<Longrightarrow> scan_frac r = Some ([], r)" "ends_number r \<Longrightarrow> scan_exp r = Some ([], r)"
  by (cases r; simp add: ends_number_def scan_frac_def scan_exp_def)+

lemma FormatNat_digits: "c \<in> set (FormatNat n) \<Longrightarrow> is_digit c"
  using FormatNat_chars by (simp add: is_digit_def)

lemma FormatNat_hd: "n \<noteq> 0 \<Longrightarrow> hd (FormatNat n) \<noteq> CHR ''0''"
proof (induction n rule: FormatNat.induct)
  case (1 n)
  show ?case
  proof (cases "n < 10")
    case True
    have "(of_char (digit n) :: nat) = 48 + n" using True by (simp add: digit_chars)
    then have "digit n \<noteq> CHR ''0''" using 1(2) by auto
    then show ?thesis using True by (subst FormatNat.simps) simp
  next
    case False
    then show ?thesis using 1(1) by (subst FormatNat.simps) simp
  qed
qed

lemma scan_int_FormatNat: "ends_number r \<Longrightarrow> scan_int (FormatNat n @ r) = Some (FormatNat n, r)"
proof (cases "n = 0")
  case True
  have "of_char (digit 0) = (of_char (CHR ''0'') :: nat)" by (simp add: digit_chars)
  then have "FormatNat 0 = [CHR ''0'']" by (subst FormatNat.simps) (simp only: of_char_eq_iff, simp)
  then show ?thesis using True by (simp add: scan_int_def)
next
  case False
  assume r: "ends_number r"
  obtain c cs where s: "FormatNat n = c # cs" by (cases "FormatNat n") simp
  have "c \<noteq> CHR ''0''" using FormatNat_hd [OF False] s by simp
  then have "scan_int (FormatNat n @ r) = scan_digits (FormatNat n @ r)" by (simp add: scan_int_def s)
  then show ?thesis
    using digits_take [OF _ r, of "FormatNat n"] FormatNat_digits by (simp add: scan_digits_def)
qed

lemma FormatNat_no_sign: "FormatNat n = c # cs \<Longrightarrow> c \<noteq> CHR ''-'' \<and> is_digit c"
  using FormatNat_chars [of c n] FormatNat_digits [of c n] by auto

lemma number_FormatNat [simp]: "number_literal (FormatNat n)"
proof -
  obtain c cs where s: "FormatNat n = c # cs" by (cases "FormatNat n") simp
  have "scan_number (FormatNat n @ r) = Some (FormatNat n, r)" if "ends_number r" for r
    using FormatNat_no_sign [OF s] scan_int_FormatNat [OF that, of n] that by (simp add: scan_number_def s)
  then show ?thesis using FormatNat_no_sign [OF s] s by (auto simp: number_literal_def)
qed

lemma number_FormatInt [simp]: "number_literal (FormatInt i)"
proof (cases "i < 0")
  case True
  have "scan_number (CHR ''-'' # FormatNat n @ r) = Some (CHR ''-'' # FormatNat n, r)" if "ends_number r" for r n
    using scan_int_FormatNat [OF that] that by (simp add: scan_number_def)
  then show ?thesis using True by (simp add: FormatInt_def number_literal_def)
qed (simp add: FormatInt_def)

lemma number_FormatUint [simp]: "number_literal (FormatUint w)"
  by (simp add: FormatUint_def)

section \<open>Reading what was written: values\<close>

text \<open>
  Trees whose numbers are literals, those whose strings are also valid UTF-8, the tree as it is read,
  and the fuel to read it.
\<close>

fun wf_json :: "json \<Rightarrow> bool" and wf_elems :: "json list \<Rightarrow> bool" and wf_fields :: "(string \<times> json) list \<Rightarrow> bool" where
  "wf_json JNull = True"
| "wf_json (JBool b) = True"
| "wf_json (JNum n) = number_literal n"
| "wf_json (JStr s) = True"
| "wf_json (JArr js) = wf_elems js"
| "wf_json (JObj fs) = wf_fields fs"
| "wf_elems [] = True"
| "wf_elems (j # js) = (wf_json j \<and> wf_elems js)"
| "wf_fields [] = True"
| "wf_fields ((k, j) # fs) = (wf_json j \<and> wf_fields fs)"

fun utf8_json :: "json \<Rightarrow> bool" and utf8_elems :: "json list \<Rightarrow> bool" and utf8_fields :: "(string \<times> json) list \<Rightarrow> bool" where
  "utf8_json (JStr s) = valid_utf8 s"
| "utf8_json (JArr js) = utf8_elems js"
| "utf8_json (JObj fs) = utf8_fields fs"
| "utf8_json _ = True"
| "utf8_elems [] = True"
| "utf8_elems (j # js) = (utf8_json j \<and> utf8_elems js)"
| "utf8_fields [] = True"
| "utf8_fields ((k, j) # fs) = (valid_utf8 k \<and> utf8_json j \<and> utf8_fields fs)"

fun repair :: "json \<Rightarrow> json" and repair_elems :: "json list \<Rightarrow> json list"
  and repair_fields :: "(string \<times> json) list \<Rightarrow> (string \<times> json) list" where
  "repair (JStr s) = JStr (to_utf8 s)"
| "repair (JArr js) = JArr (repair_elems js)"
| "repair (JObj fs) = JObj (repair_fields fs)"
| "repair j = j"
| "repair_elems [] = []"
| "repair_elems (j # js) = repair j # repair_elems js"
| "repair_fields [] = []"
| "repair_fields ((k, j) # fs) = (to_utf8 k, repair j) # repair_fields fs"

lemma repair_utf8:
  "utf8_json j \<Longrightarrow> repair j = j" "utf8_elems js \<Longrightarrow> repair_elems js = js" "utf8_fields fs \<Longrightarrow> repair_fields fs = fs"
  by (induction j and js and fs rule: repair_repair_elems_repair_fields.induct) (auto simp: to_utf8_valid)

fun need :: "json \<Rightarrow> nat" and need_elems :: "json list \<Rightarrow> nat" and need_fields :: "(string \<times> json) list \<Rightarrow> nat" where
  "need (JArr js) = Suc (need_elems js)"
| "need (JObj fs) = Suc (need_fields fs)"
| "need j = 1"
| "need_elems [] = 1"
| "need_elems (j # js) = Suc (max (need j) (need_elems js))"
| "need_fields [] = 1"
| "need_fields ((k, j) # fs) = Suc (max (need j) (need_fields fs))"

lemma ends_numberI [simp]:
  "ends_number []" "ends_number (CHR '','' # r)" "ends_number (CHR '']'' # r)" "ends_number (CHR ''}'' # r)"
  by (simp_all add: ends_number_def is_digit_def)

lemma digit_not_special:
  assumes "is_digit c \<or> c = CHR ''-''"
  shows "c \<notin> {quote, CHR ''['', CHR ''{'', CHR ''n'', CHR ''t'', CHR ''f'', CHR '']'', CHR ''}''}" and "\<not> json_space c"
  using assms by (auto simp: is_digit_def json_space_def)

lemma Marshal_start: "wf_json j \<Longrightarrow> \<exists>c cs. Marshal j = c # cs \<and> \<not> json_space c \<and> c \<noteq> CHR '']''"
  using digit_not_special
  by (cases j) (auto simp: json_space_def number_literal_def Marshal_string_def)

lemma skip_Marshal [simp]: "wf_json j \<Longrightarrow> skip (Marshal j @ r) = Marshal j @ r"
  using Marshal_start [of j] by auto

lemma skip_quote [simp]: "skip (quote # r) = quote # r"
  by (simp add: json_space_def)

lemma json_space_punct [simp]:
  "\<not> json_space quote" "\<not> json_space (CHR '','')" "\<not> json_space (CHR '']'')" "\<not> json_space (CHR ''}'')" "\<not> json_space (CHR '':'')"
  by (simp_all add: json_space_def)

lemma parse_number:
  assumes "number_literal n" and "ends_number r"
  shows "parse_value (Suc k) (n @ r) = Some (JNum n, r)"
proof -
  obtain c cs where n: "n = c # cs" and c: "is_digit c \<or> c = CHR ''-''"
    using assms(1) by (auto simp: number_literal_def)
  have "scan_number (n @ r) = Some (n, r)" using assms by (simp add: number_literal_def)
  then show ?thesis using digit_not_special [OF c] by (simp add: n)
qed

lemma parse_Marshal:
  "wf_json j \<Longrightarrow> ends_number r \<Longrightarrow> need j \<le> k \<Longrightarrow> parse_value k (Marshal j @ r) = Some (repair j, r)"
  "js \<noteq> [] \<Longrightarrow> wf_elems js \<Longrightarrow> need_elems js \<le> k \<Longrightarrow> parse_elems k (Marshal_array js @ r) = Some (repair_elems js, r)"
  "fs \<noteq> [] \<Longrightarrow> wf_fields fs \<Longrightarrow> need_fields fs \<le> k \<Longrightarrow> parse_fields k (Marshal_object fs @ r) = Some (repair_fields fs, r)"
proof (induction j and js and fs arbitrary: k r and k r and k r rule: Marshal_Marshal_array_Marshal_object.induct)
  case (3 n)
  then show ?case using parse_number by (cases k) auto
next
  case (5 js)
  then obtain k' where k: "k = Suc k'" by (cases k) auto
  show ?case
  proof (cases js)
    case Nil
    then show ?thesis by (simp add: k json_space_def)
  next
    case (Cons j js')
    obtain c cs where c: "Marshal j = c # cs" "\<not> json_space c" "c \<noteq> CHR '']''"
      using Marshal_start [of j] "5.prems"(1) Cons by auto
    have "parse_elems k' (Marshal_array js @ r) = Some (repair_elems js, r)"
      using 5 Cons k by simp
    moreover obtain t where "Marshal_array js @ r = c # t" using Cons c(1) by simp
    ultimately show ?thesis using c(2,3) Cons by (simp add: k json_space_def)
  qed
next
  case (6 fs)
  then obtain k' where k: "k = Suc k'" by (cases k) auto
  show ?case
  proof (cases fs)
    case Nil
    then show ?thesis by (simp add: k json_space_def)
  next
    case (Cons f fs')
    have "parse_fields k' (Marshal_object fs @ r) = Some (repair_fields fs, r)"
      using 6 Cons k by simp
    moreover obtain t where "Marshal_object fs @ r = quote # t"
      using Cons by (cases f) (simp add: Marshal_string_def)
    ultimately show ?thesis using Cons by (simp add: k json_space_def)
  qed
next
  case (8 j js)
  then obtain k' where k: "k = Suc k'" by (cases k) auto
  show ?case
  proof (cases "js = []")
    case True
    then show ?thesis using "8.IH"(1) [of "CHR '']'' # r" k'] "8.prems" k by simp
  next
    case False
    have "parse_value k' (Marshal j @ CHR '','' # Marshal_array js @ r) = Some (repair j, CHR '','' # Marshal_array js @ r)"
      using 8 k by simp
    moreover have "parse_elems k' (Marshal_array js @ r) = Some (repair_elems js, r)"
      using 8 k False by simp
    ultimately show ?thesis using False by (simp add: k)
  qed
next
  case (10 key j fs)
  then obtain k' where k: "k = Suc k'" by (cases k) auto
  show ?case
  proof (cases "fs = []")
    case True
    then show ?thesis using "10.IH"(1) [of "CHR ''}'' # r" k'] "10.prems" k
      by (simp add: Marshal_string_def)
  next
    case False
    have "parse_value k' (Marshal j @ CHR '','' # Marshal_object fs @ r) = Some (repair j, CHR '','' # Marshal_object fs @ r)"
      using 10 k by simp
    moreover have "parse_fields k' (Marshal_object fs @ r) = Some (repair_fields fs, r)"
      using 10 k False by simp
    ultimately show ?thesis using False "10.prems"(2) by (simp add: k Marshal_string_def)
  qed
qed (auto simp: Marshal_string_def scan_literal_def HasPrefix_def json_space_def gr0_conv_Suc Suc_le_eq)

lemma need_bound:
  "wf_json j \<Longrightarrow> need j \<le> 2 * length (Marshal j)"
  "wf_elems js \<Longrightarrow> need_elems js \<le> 2 * length (Marshal_array js) + 1"
  "wf_fields fs \<Longrightarrow> need_fields fs \<le> 2 * length (Marshal_object fs) + 1"
proof (induction j and js and fs rule: Marshal_Marshal_array_Marshal_object.induct)
  case (3 n)
  then show ?case by (cases n) (auto simp: number_literal_def)
qed (auto simp: Marshal_string_def)

lemma Unmarshal_repairs: "wf_json j \<Longrightarrow> parse_json (Marshal j) = Some (repair j)"
  using parse_Marshal(1) [of j "[]" "2 * length (Marshal j) + 2"] need_bound(1) [of j]
  by (simp add: parse_json_def)

lemma Unmarshal_Marshal: "wf_json j \<Longrightarrow> utf8_json j \<Longrightarrow> parse_json (Marshal j) = Some j"
  by (simp add: Unmarshal_repairs repair_utf8)

end
