(* ===== verification/Peer_Registry.thy ===== *)
theory Peer_Registry
  imports Peers Go_Json
begin

text \<open>
  Package \<open>peers\<close>, file \<open>registry.go\<close>: the registration of this peer at an external registry, with an
  initial heartbeat and one per interval. Durations are nanoseconds, and \<open>int(d.Seconds())\<close> cuts
  them to whole seconds. The heartbeat goroutine is a sequence of ticks.
\<close>

section \<open>The registry\<close>

record HeartbeatRequest =
  hb_UUID :: string
  hb_Address :: string
  hb_ExpiresInSeconds :: int

record Registry =
  rg_heartbeatURL :: string
  rg_address :: string
  rg_uuid :: string
  rg_heartbeatInterval :: int
  rg_timeout :: duration
  rg_cancelled :: bool
  rg_isRunning :: bool
  rg_goroutines :: nat

definition NewRegistry :: "string \<Rightarrow> string \<Rightarrow> string \<Rightarrow> duration \<Rightarrow> duration \<Rightarrow> Registry result" where
  "NewRegistry heartbeatURL address uuid heartbeatInterval timeout =
     (if heartbeatURL = [] then Inl (Error ''-peer-registry-heartbeat-url is required'')
      else if address = [] then Inl (Error ''-peer-registry-self-endpoint is required'')
      else if uuid = [] then Inl (Error ''uuid is required'')
      else if heartbeatInterval \<le> 0 then Inl (Error ''-peer-registry-heartbeat-interval must be greater than 0'')
      else if timeout \<le> 0 then Inl (Error ''-peer-registry-timeout must be greater than 0'')
      else Inr \<lparr>rg_heartbeatURL = heartbeatURL, rg_address = address, rg_uuid = uuid,
                rg_heartbeatInterval = whole_seconds heartbeatInterval, rg_timeout = timeout,
                rg_cancelled = False, rg_isRunning = False, rg_goroutines = 0\<rparr>)"

definition json_of_HeartbeatRequest :: "HeartbeatRequest \<Rightarrow> json" where
  "json_of_HeartbeatRequest r =
     JObj [(''uuid'', JStr (hb_UUID r)), (''address'', JStr (hb_Address r)),
           (''expires_in_seconds'', JNum (FormatInt (hb_ExpiresInSeconds r)))]"

definition heartbeat_request :: "Registry \<Rightarrow> HeartbeatRequest" where
  "heartbeat_request pr =
     \<lparr>hb_UUID = rg_uuid pr, hb_Address = rg_address pr, hb_ExpiresInSeconds = i64 (rg_heartbeatInterval pr * 2)\<rparr>"

text \<open>\<open>heartbeat\<close>: a request with a cancelled context fails.\<close>

definition Registry_heartbeat :: "http_env \<Rightarrow> Registry \<Rightarrow> go_error option" where
  "Registry_heartbeat env pr =
     (if rg_cancelled pr then Some (Error ''failed to send heartbeat request'')
      else case RequestWithContext env (rg_heartbeatURL pr)
             [WithMethod ''POST'', WithBody (bytes_of (Marshal (json_of_HeartbeatRequest (heartbeat_request pr)))),
              WithContentType ''application/json''] of
        Inl err \<Rightarrow> Some (Error ''failed to send heartbeat request'')
      | Inr body \<Rightarrow> None)"

text \<open>
  What the heartbeat goroutine does first: \<open>time.NewTicker\<close> panics, and with it the program, when the
  interval is not positive.
\<close>

datatype goroutine = Ticking duration | TickerPanic

definition heartbeat_goroutine :: "Registry \<Rightarrow> goroutine" where
  "heartbeat_goroutine pr =
     (let interval = i64 (rg_heartbeatInterval pr * second) in
      if interval \<le> 0 then TickerPanic else Ticking interval)"

definition Registry_Start :: "http_env \<Rightarrow> Registry \<Rightarrow> (go_error option \<times> goroutine option) \<times> Registry" where
  "Registry_Start env pr =
     (if rg_isRunning pr then ((Some (Error ''peer registry is already running''), None), pr)
      else case Registry_heartbeat env pr of
        Some err \<Rightarrow> ((Some (Error ''initial heartbeat failed''), None), pr)
      | None \<Rightarrow>
          ((None, Some (heartbeat_goroutine pr)), pr\<lparr>rg_isRunning := True, rg_goroutines := rg_goroutines pr + 1\<rparr>))"

text \<open>\<open>Stop\<close> cancels the context, which ends the goroutine, and waits for it.\<close>

definition Registry_Stop :: "Registry \<Rightarrow> Registry" where
  "Registry_Stop pr =
     (if \<not> rg_isRunning pr then pr else pr\<lparr>rg_isRunning := False, rg_cancelled := True, rg_goroutines := 0\<rparr>)"

text \<open>
  The loop of the goroutine: a tick sends a heartbeat and goes on whatever its result is; a cancelled
  context ends the loop. The value is the list of results of the heartbeats.
\<close>

fun heartbeat_loop :: "http_env list \<Rightarrow> Registry \<Rightarrow> go_error option list" where
  "heartbeat_loop [] pr = []"
| "heartbeat_loop (env # ticks) pr =
     (if rg_cancelled pr then [] else Registry_heartbeat env pr # heartbeat_loop ticks pr)"

section \<open>What the registry sees\<close>

lemma i64_in: "\<bar>x\<bar> < 2 ^ 63 \<Longrightarrow> i64 x = x"
  by (intro i64_id) linarith+

lemma NewRegistry_interval:
  "NewRegistry url address uuid interval timeout = Inr pr \<Longrightarrow>
     0 < interval \<and> rg_heartbeatInterval pr = interval div second \<and> \<not> rg_isRunning pr \<and> \<not> rg_cancelled pr"
  by (auto simp: NewRegistry_def whole_seconds_def split: if_splits)

lemma second_value: "second = 1000000000"
  by (simp add: second_def millisecond_def)


definition demo_registry :: http_env where
  "demo_registry = \<lparr>ev_Do = (\<lambda>rq. Inr \<lparr>rs_StatusCode = 200, rs_Header = Map.empty, rs_Body = \<lparr>rd_data = [], rd_fin = EOF\<rparr>\<rparr>),
     ev_unzstd = id, ev_zstd = Inr, ev_zstd_stream = id\<rparr>"


end
