(* ===== verification/Manifest_Json.thy ===== *)
theory Manifest_Json
  imports Manifest_Data Go_Json
begin

text \<open>
  The JSON of the data that peers exchange or hash: the entries and chunks of package \<open>types\<close>, by the
  tags of their fields, and the manifest of package \<open>transfer\<close>, in both directions. Decoding works
  like \<open>json.Unmarshal\<close>: the fields of an object are assigned one after the other, names are matched
  without regard to case, unknown names and \<open>null\<close> are ignored, and a value of another type is an
  error. The main fact is that decoding the JSON of a manifest gives the manifest, with the counters
  of its files, which are not exported, at zero.
\<close>

section \<open>Encoding\<close>

definition json_of_DirEntry :: "DirEntry \<Rightarrow> json" where
  "json_of_DirEntry e = JObj [(''name'', JStr (de_Name e)), (''perm'', JNum (FormatNat (unat (de_Perm e))))]"

definition json_of_SymlinkEntry :: "SymlinkEntry \<Rightarrow> json" where
  "json_of_SymlinkEntry e = JObj [(''name'', JStr (se_Name e)), (''symlinkTo'', JStr (se_SymlinkTo e))]"

definition json_of_EmptyFileEntry :: "EmptyFileEntry \<Rightarrow> json" where
  "json_of_EmptyFileEntry e = JObj [(''name'', JStr (ee_Name e)), (''perm'', JNum (FormatNat (unat (ee_Perm e))))]"

definition json_of_FileEntry :: "FileEntry \<Rightarrow> json" where
  "json_of_FileEntry e =
     JObj [(''name'', JStr (fe_Name e)), (''size'', JNum (FormatInt (fe_Size e))),
           (''perm'', JNum (FormatNat (unat (fe_Perm e))))]"

definition json_of_FileRange :: "FileRange \<Rightarrow> json" where
  "json_of_FileRange r =
     JObj [(''index'', JNum (FormatNat (FileIndex r))), (''from'', JNum (FormatInt (StartOffset r))),
           (''to'', JNum (FormatInt (EndOffset r)))]"

definition json_of_Chunk :: "Chunk \<Rightarrow> json" where
  "json_of_Chunk c = JObj [(''fileChunks'', JArr (map json_of_FileRange (FileRanges c)))]"

definition json_of_Manifest :: "Manifest \<Rightarrow> json" where
  "json_of_Manifest m =
     JObj [(''majorVersion'', JStr (mf_MajorVersion m)), (''minorVersion'', JStr (mf_MinorVersion m)),
           (''chunkSize'', JNum (FormatInt (mf_ChunkSize m))), (''checksum'', JNum (FormatUint (mf_ChunkChecksum m))),
           (''transferChunkCount'', JNum (FormatInt (mf_TransferChunkCount m))),
           (''dirs'', JArr (map json_of_DirEntry (mf_Dirs m))),
           (''symlinks'', JArr (map json_of_SymlinkEntry (mf_Symlinks m))),
           (''emptyFiles'', JArr (map json_of_EmptyFileEntry (mf_EmptyFiles m))),
           (''files'', JArr (map json_of_FileEntry (mf_Files m)))]"

section \<open>Decoding\<close>

definition type_error :: "'a result" where
  "type_error = Inl (Error ''json: cannot unmarshal value into Go value'')"

text \<open>Scalars: \<open>null\<close> leaves the old value.\<close>

fun decode_string :: "json \<Rightarrow> string \<Rightarrow> string result" where
  "decode_string JNull old = Inr old"
| "decode_string (JStr s) old = Inr s"
| "decode_string _ old = type_error"

fun decode_int64 :: "json \<Rightarrow> int \<Rightarrow> int result" where
  "decode_int64 JNull old = Inr old"
| "decode_int64 (JNum n) old = (case Atoi n of Inl e \<Rightarrow> type_error | Inr i \<Rightarrow> Inr i)"
| "decode_int64 _ old = type_error"

fun decode_uint64 :: "json \<Rightarrow> uint64 \<Rightarrow> uint64 result" where
  "decode_uint64 JNull old = Inr old"
| "decode_uint64 (JNum n) old = (case ParseUint n of Inl e \<Rightarrow> type_error | Inr i \<Rightarrow> Inr i)"
| "decode_uint64 _ old = type_error"

fun decode_uint32 :: "json \<Rightarrow> 32 word \<Rightarrow> 32 word result" where
  "decode_uint32 JNull old = Inr old"
| "decode_uint32 (JNum n) old =
     (case ParseUint n of
        Inl e \<Rightarrow> type_error
      | Inr i \<Rightarrow> if unat i < 2 ^ 32 then Inr (of_nat (unat i)) else type_error)"
| "decode_uint32 _ old = type_error"

fun decode_bool :: "json \<Rightarrow> bool \<Rightarrow> bool result" where
  "decode_bool JNull old = Inr old"
| "decode_bool (JBool b) old = Inr b"
| "decode_bool _ old = type_error"

text \<open>
  Structures and slices. An error in one field leaves the other fields to be decoded, but the value is
  an error all the same.
\<close>

fun decode_fields :: "(string \<Rightarrow> json \<Rightarrow> 'r \<Rightarrow> 'r result) \<Rightarrow> (string \<times> json) list \<Rightarrow> 'r \<Rightarrow> 'r result" where
  "decode_fields f [] r = Inr r"
| "decode_fields f ((k, j) # fs) r = (case f (ToLower k) j r of Inl e \<Rightarrow> Inl e | Inr r' \<Rightarrow> decode_fields f fs r')"

fun decode_struct :: "(string \<Rightarrow> json \<Rightarrow> 'r \<Rightarrow> 'r result) \<Rightarrow> json \<Rightarrow> 'r \<Rightarrow> 'r result" where
  "decode_struct f JNull r = Inr r"
| "decode_struct f (JObj fs) r = decode_fields f fs r"
| "decode_struct f _ r = type_error"

fun decode_elems :: "(json \<Rightarrow> 'a result) \<Rightarrow> json list \<Rightarrow> 'a list result" where
  "decode_elems f [] = Inr []"
| "decode_elems f (j # js) = (case f j of Inl e \<Rightarrow> Inl e | Inr x \<Rightarrow> map_sum id (\<lambda>xs. x # xs) (decode_elems f js))"

fun decode_slice :: "(json \<Rightarrow> 'a result) \<Rightarrow> json \<Rightarrow> 'a list result" where
  "decode_slice f JNull = Inr []"
| "decode_slice f (JArr js) = decode_elems f js"
| "decode_slice f _ = type_error"

text \<open>The fields by the tags; a name is compared in lower case.\<close>

definition DirEntry_field :: "string \<Rightarrow> json \<Rightarrow> DirEntry \<Rightarrow> DirEntry result" where
  "DirEntry_field k j e =
     (if k = ''name'' then map_sum id (\<lambda>s. e\<lparr>de_Name := s\<rparr>) (decode_string j (de_Name e))
      else if k = ''perm'' then map_sum id (\<lambda>p. e\<lparr>de_Perm := p\<rparr>) (decode_uint32 j (de_Perm e))
      else Inr e)"

definition SymlinkEntry_field :: "string \<Rightarrow> json \<Rightarrow> SymlinkEntry \<Rightarrow> SymlinkEntry result" where
  "SymlinkEntry_field k j e =
     (if k = ''name'' then map_sum id (\<lambda>s. e\<lparr>se_Name := s\<rparr>) (decode_string j (se_Name e))
      else if k = ''symlinkto'' then map_sum id (\<lambda>s. e\<lparr>se_SymlinkTo := s\<rparr>) (decode_string j (se_SymlinkTo e))
      else Inr e)"

definition EmptyFileEntry_field :: "string \<Rightarrow> json \<Rightarrow> EmptyFileEntry \<Rightarrow> EmptyFileEntry result" where
  "EmptyFileEntry_field k j e =
     (if k = ''name'' then map_sum id (\<lambda>s. e\<lparr>ee_Name := s\<rparr>) (decode_string j (ee_Name e))
      else if k = ''perm'' then map_sum id (\<lambda>p. e\<lparr>ee_Perm := p\<rparr>) (decode_uint32 j (ee_Perm e))
      else Inr e)"

definition FileEntry_field :: "string \<Rightarrow> json \<Rightarrow> FileEntry \<Rightarrow> FileEntry result" where
  "FileEntry_field k j e =
     (if k = ''name'' then map_sum id (\<lambda>s. e\<lparr>fe_Name := s\<rparr>) (decode_string j (fe_Name e))
      else if k = ''size'' then map_sum id (\<lambda>n. e\<lparr>fe_Size := n\<rparr>) (decode_int64 j (fe_Size e))
      else if k = ''perm'' then map_sum id (\<lambda>p. e\<lparr>fe_Perm := p\<rparr>) (decode_uint32 j (fe_Perm e))
      else Inr e)"

definition decode_DirEntry :: "json \<Rightarrow> DirEntry result" where
  "decode_DirEntry j = decode_struct DirEntry_field j \<lparr>de_Name = [], de_Perm = 0\<rparr>"

definition decode_SymlinkEntry :: "json \<Rightarrow> SymlinkEntry result" where
  "decode_SymlinkEntry j = decode_struct SymlinkEntry_field j \<lparr>se_Name = [], se_SymlinkTo = []\<rparr>"

definition decode_EmptyFileEntry :: "json \<Rightarrow> EmptyFileEntry result" where
  "decode_EmptyFileEntry j = decode_struct EmptyFileEntry_field j \<lparr>ee_Name = [], ee_Perm = 0\<rparr>"

definition decode_FileEntry :: "json \<Rightarrow> FileEntry result" where
  "decode_FileEntry j =
     decode_struct FileEntry_field j \<lparr>fe_Name = [], fe_Size = 0, fe_Perm = 0, fe_remainingChunkCount = 0\<rparr>"

definition Manifest0 :: Manifest where
  "Manifest0 = \<lparr>mf_MajorVersion = [], mf_MinorVersion = [], mf_ChunkSize = 0, mf_ChunkChecksum = 0,
     mf_TransferChunkCount = 0, mf_Dirs = [], mf_Symlinks = [], mf_EmptyFiles = [], mf_Files = []\<rparr>"

definition Manifest_field :: "string \<Rightarrow> json \<Rightarrow> Manifest \<Rightarrow> Manifest result" where
  "Manifest_field k j m =
     (if k = ''majorversion'' then map_sum id (\<lambda>s. m\<lparr>mf_MajorVersion := s\<rparr>) (decode_string j (mf_MajorVersion m))
      else if k = ''minorversion'' then map_sum id (\<lambda>s. m\<lparr>mf_MinorVersion := s\<rparr>) (decode_string j (mf_MinorVersion m))
      else if k = ''chunksize'' then map_sum id (\<lambda>n. m\<lparr>mf_ChunkSize := n\<rparr>) (decode_int64 j (mf_ChunkSize m))
      else if k = ''checksum'' then map_sum id (\<lambda>n. m\<lparr>mf_ChunkChecksum := n\<rparr>) (decode_uint64 j (mf_ChunkChecksum m))
      else if k = ''transferchunkcount''
      then map_sum id (\<lambda>n. m\<lparr>mf_TransferChunkCount := n\<rparr>) (decode_int64 j (mf_TransferChunkCount m))
      else if k = ''dirs'' then map_sum id (\<lambda>es. m\<lparr>mf_Dirs := es\<rparr>) (decode_slice decode_DirEntry j)
      else if k = ''symlinks'' then map_sum id (\<lambda>es. m\<lparr>mf_Symlinks := es\<rparr>) (decode_slice decode_SymlinkEntry j)
      else if k = ''emptyfiles'' then map_sum id (\<lambda>es. m\<lparr>mf_EmptyFiles := es\<rparr>) (decode_slice decode_EmptyFileEntry j)
      else if k = ''files'' then map_sum id (\<lambda>es. m\<lparr>mf_Files := es\<rparr>) (decode_slice decode_FileEntry j)
      else Inr m)"

definition decode_Manifest :: "json \<Rightarrow> Manifest \<Rightarrow> Manifest result" where
  "decode_Manifest j m = decode_struct Manifest_field j m"

text \<open>\<open>json.Unmarshal(content, &receivedManifest)\<close>.\<close>

definition Unmarshal_Manifest :: "string \<Rightarrow> Manifest result" where
  "Unmarshal_Manifest content =
     (case parse_json content of
        None \<Rightarrow> Inl (Error ''invalid JSON'')
      | Some j \<Rightarrow> decode_Manifest j Manifest0)"

section \<open>Decoding what was encoded\<close>

text \<open>Manifests whose strings are valid UTF-8 and whose numbers fit their types.\<close>

definition int64_range :: "int \<Rightarrow> bool" where
  "int64_range i \<longleftrightarrow> - (2 ^ 63) \<le> i \<and> i < 2 ^ 63"

definition wf_names :: "Manifest \<Rightarrow> bool" where
  "wf_names m \<longleftrightarrow> valid_utf8 (mf_MajorVersion m) \<and> valid_utf8 (mf_MinorVersion m) \<and>
     (\<forall>e \<in> set (mf_Dirs m). valid_utf8 (de_Name e)) \<and>
     (\<forall>e \<in> set (mf_Symlinks m). valid_utf8 (se_Name e) \<and> valid_utf8 (se_SymlinkTo e)) \<and>
     (\<forall>e \<in> set (mf_EmptyFiles m). valid_utf8 (ee_Name e)) \<and>
     (\<forall>e \<in> set (mf_Files m). valid_utf8 (fe_Name e))"

definition wf_numbers :: "Manifest \<Rightarrow> bool" where
  "wf_numbers m \<longleftrightarrow> int64_range (mf_ChunkSize m) \<and> int64_range (mf_TransferChunkCount m) \<and>
     (\<forall>e \<in> set (mf_Files m). int64_range (fe_Size e))"

lemma wf_elems_map: "wf_elems (map f xs) \<longleftrightarrow> (\<forall>x \<in> set xs. wf_json (f x))"
  by (induction xs) auto

lemma ascii_utf8: "\<forall>c \<in> set s. (of_char c :: nat) < 128 \<Longrightarrow> valid_utf8 s"
  by (induction s) auto

lemma utf8_elems_map: "utf8_elems (map f xs) \<longleftrightarrow> (\<forall>x \<in> set xs. utf8_json (f x))"
  by (induction xs) auto

lemma repair_elems_map: "repair_elems (map f xs) = map (\<lambda>x. repair (f x)) xs"
  by (induction xs) auto

lemma wf_json_entries [simp]:
  "wf_json (json_of_DirEntry d)" "wf_json (json_of_SymlinkEntry s)" "wf_json (json_of_EmptyFileEntry e)"
  "wf_json (json_of_FileEntry f)"
  by (simp_all add: json_of_DirEntry_def json_of_SymlinkEntry_def json_of_EmptyFileEntry_def json_of_FileEntry_def)

lemma wf_json_Manifest: "wf_json (json_of_Manifest m)"
  by (simp add: json_of_Manifest_def wf_elems_map)

lemma utf8_json_Manifest: "wf_names m \<Longrightarrow> utf8_json (json_of_Manifest m)"
  by (simp add: json_of_Manifest_def wf_names_def utf8_elems_map json_of_DirEntry_def json_of_SymlinkEntry_def
      json_of_EmptyFileEntry_def json_of_FileEntry_def)

lemma Atoi_FormatInt: "int64_range i \<Longrightarrow> Atoi (FormatInt i) = Inr i"
proof (cases "i < 0")
  case True
  assume "int64_range i"
  then have "int (nat (- i)) \<le> 2 ^ 63" by (simp add: int64_range_def)
  then show ?thesis using True by (simp add: FormatInt_def Atoi_def Let_def)
next
  case False
  assume "int64_range i"
  then have "int (nat i) < 2 ^ 63" by (simp add: int64_range_def)
  then show ?thesis using False Atoi_FormatNat [of "nat i"] by (simp add: FormatInt_def)
qed

lemma ParseUint_FormatNat: "n < 2 ^ 64 \<Longrightarrow> ParseUint (FormatNat n) = Inr (of_nat n)"
  by (simp add: ParseUint_def)

lemma decode_scalars [simp]:
  "int64_range i \<Longrightarrow> decode_int64 (JNum (FormatInt i)) old = Inr i"
  "decode_uint64 (JNum (FormatUint w)) old' = Inr w"
  "decode_uint32 (JNum (FormatNat (unat p))) old'' = Inr p"
proof -
  have p: "unat p < 2 ^ 32" using unsigned_less [of p] by simp
  then have "unat (of_nat (unat p) :: uint64) = unat p"
    by (simp add: unsigned_ucast_eq take_bit_nat_eq_self)
  then show "decode_uint32 (JNum (FormatNat (unat p))) old'' = Inr p"
    using p by (simp add: ParseUint_FormatNat)
qed (simp_all add: Atoi_FormatInt)

declare decode_int64.simps(2) [simp del] decode_uint64.simps(2) [simp del] decode_uint32.simps(2) [simp del]

lemma decode_elems_map: "\<forall>x \<in> set xs. f (g x) = Inr (h x) \<Longrightarrow> decode_elems f (map g xs) = Inr (map h xs)"
  by (induction xs) auto

lemma ToLower_fields [simp]:
  "ToLower ''name'' = ''name''" "ToLower ''perm'' = ''perm''" "ToLower ''size'' = ''size''"
  "ToLower ''symlinkTo'' = ''symlinkto''" "ToLower ''majorVersion'' = ''majorversion''"
  "ToLower ''minorVersion'' = ''minorversion''" "ToLower ''chunkSize'' = ''chunksize''"
  "ToLower ''checksum'' = ''checksum''" "ToLower ''transferChunkCount'' = ''transferchunkcount''"
  "ToLower ''dirs'' = ''dirs''" "ToLower ''symlinks'' = ''symlinks''" "ToLower ''emptyFiles'' = ''emptyfiles''"
  "ToLower ''files'' = ''files''"
  by code_simp+

lemma decode_entries [simp]:
  "decode_DirEntry (json_of_DirEntry d) = Inr d"
  "decode_SymlinkEntry (json_of_SymlinkEntry s) = Inr s"
  "decode_EmptyFileEntry (json_of_EmptyFileEntry e) = Inr e"
  by (simp_all add: decode_DirEntry_def json_of_DirEntry_def DirEntry_field_def decode_SymlinkEntry_def
      json_of_SymlinkEntry_def SymlinkEntry_field_def decode_EmptyFileEntry_def json_of_EmptyFileEntry_def
      EmptyFileEntry_field_def)

lemma decode_FileEntry_json: "int64_range (fe_Size f) \<Longrightarrow> decode_FileEntry (json_of_FileEntry f) = Inr (FileEntry_Copy f)"
  by (simp add: decode_FileEntry_def json_of_FileEntry_def FileEntry_field_def FileEntry_Copy_def)

lemma decode_slices [simp]:
  "decode_slice decode_DirEntry (JArr (map json_of_DirEntry ds)) = Inr ds"
  "decode_slice decode_SymlinkEntry (JArr (map json_of_SymlinkEntry ss)) = Inr ss"
  "decode_slice decode_EmptyFileEntry (JArr (map json_of_EmptyFileEntry es)) = Inr es"
  by (simp_all add: decode_elems_map [where h = id, simplified])

lemma decode_files:
  "\<forall>e \<in> set fs. int64_range (fe_Size e) \<Longrightarrow>
     decode_slice decode_FileEntry (JArr (map json_of_FileEntry fs)) = Inr (map FileEntry_Copy fs)"
  by (simp add: decode_elems_map decode_FileEntry_json)

definition exported :: "Manifest \<Rightarrow> Manifest" where
  "exported m = m\<lparr>mf_Files := map FileEntry_Copy (mf_Files m)\<rparr>"

lemma decode_Manifest_json:
  "wf_numbers m \<Longrightarrow> decode_Manifest (json_of_Manifest m) m0 = Inr (exported m)"
  by (simp add: decode_Manifest_def json_of_Manifest_def Manifest_field_def wf_numbers_def decode_files exported_def
      del: decode_slice.simps)

section \<open>Names that are not UTF-8\<close>

text \<open>The manifest as it is read: every name is repaired.\<close>

definition repaired :: "Manifest \<Rightarrow> Manifest" where
  "repaired m = m\<lparr>mf_MajorVersion := to_utf8 (mf_MajorVersion m), mf_MinorVersion := to_utf8 (mf_MinorVersion m),
     mf_Dirs := map (\<lambda>e. e\<lparr>de_Name := to_utf8 (de_Name e)\<rparr>) (mf_Dirs m),
     mf_Symlinks := map (\<lambda>e. e\<lparr>se_Name := to_utf8 (se_Name e), se_SymlinkTo := to_utf8 (se_SymlinkTo e)\<rparr>) (mf_Symlinks m),
     mf_EmptyFiles := map (\<lambda>e. e\<lparr>ee_Name := to_utf8 (ee_Name e)\<rparr>) (mf_EmptyFiles m),
     mf_Files := map (\<lambda>e. e\<lparr>fe_Name := to_utf8 (fe_Name e)\<rparr>) (mf_Files m)\<rparr>"

lemma to_utf8_ascii: "\<forall>c \<in> set s. (of_char c :: nat) < 128 \<Longrightarrow> to_utf8 s = s"
  by (simp add: ascii_utf8 to_utf8_valid)

lemma is_digit_ascii: "is_digit c \<Longrightarrow> (of_char c :: nat) < 128"
  by (simp add: is_digit_def)

lemma repair_entries [simp]:
  "repair (json_of_DirEntry d) = json_of_DirEntry (d\<lparr>de_Name := to_utf8 (de_Name d)\<rparr>)"
  "repair (json_of_SymlinkEntry s) = json_of_SymlinkEntry (s\<lparr>se_Name := to_utf8 (se_Name s), se_SymlinkTo := to_utf8 (se_SymlinkTo s)\<rparr>)"
  "repair (json_of_EmptyFileEntry e) = json_of_EmptyFileEntry (e\<lparr>ee_Name := to_utf8 (ee_Name e)\<rparr>)"
  "repair (json_of_FileEntry f) = json_of_FileEntry (f\<lparr>fe_Name := to_utf8 (fe_Name f)\<rparr>)"
  by (simp_all add: json_of_DirEntry_def json_of_SymlinkEntry_def json_of_EmptyFileEntry_def json_of_FileEntry_def)

lemma repair_Manifest: "repair (json_of_Manifest m) = json_of_Manifest (repaired m)"
  by (simp add: json_of_Manifest_def repaired_def repair_elems_map comp_def)

lemma repaired_valid: "wf_names m \<Longrightarrow> repaired m = m"
  by (cases m) (auto simp: repaired_def wf_names_def to_utf8_valid intro!: map_idI)

lemma wf_numbers_repaired [simp]: "wf_numbers (repaired m) = wf_numbers m"
  by (simp add: wf_numbers_def repaired_def)

lemma Unmarshal_Manifest_repaired:
  "wf_numbers m \<Longrightarrow> Unmarshal_Manifest (Marshal (json_of_Manifest m)) = Inr (exported (repaired m))"
  by (simp add: Unmarshal_Manifest_def Unmarshal_repairs wf_json_Manifest repair_Manifest decode_Manifest_json)

text \<open>Claim C24.
  The manifest survives its JSON: what \<open>Unmarshal\<close> reads from what \<open>Marshal\<close> wrote of a manifest is the
  same manifest, versions, sizes, checksum, entries and their order, with the unexported counters at
  zero, when its names are valid UTF-8; for other names every byte that is not part of valid UTF-8
  arrives as the replacement character.\<close>

theorem manifest_json_roundtrip:
  assumes "wf_numbers m"
  shows "Unmarshal_Manifest (Marshal (json_of_Manifest m)) = Inr (exported (repaired m)) \<and>
    (wf_names m \<longrightarrow> Unmarshal_Manifest (Marshal (json_of_Manifest m)) = Inr (exported m))"
  using Unmarshal_Manifest_repaired [OF assms] repaired_valid [of m] by simp

theorem manifest_json_roundtrip_witness:
  "Unmarshal_Manifest (Marshal (json_of_Manifest (Manifest0\<lparr>mf_ChunkSize := 9,
      mf_Dirs := [\<lparr>de_Name = ''a<b'', de_Perm = 493\<rparr>]\<rparr>))) =
     Inr (Manifest0\<lparr>mf_ChunkSize := 9, mf_Dirs := [\<lparr>de_Name = ''a<b'', de_Perm = 493\<rparr>]\<rparr>)"
  using manifest_json_roundtrip [of "Manifest0\<lparr>mf_ChunkSize := 9, mf_Dirs := [\<lparr>de_Name = ''a<b'', de_Perm = 493\<rparr>]\<rparr>"]
  by (simp add: wf_numbers_def wf_names_def int64_range_def Manifest0_def exported_def repaired_def to_utf8_valid)

end
