(* ===== verification/Manifest_Build.thy ===== *)
theory Manifest_Build
  imports Manifest_Json Peers Chunk_Manager
begin

text \<open>
  Package \<open>transfer\<close>, file \<open>manifest.go\<close>, and \<open>NewChunkManager\<close> of \<open>chunk_manager.go\<close>: a manifest is made
  from the entries of the source storage, or fetched from a peer and accepted after four checks. The
  hash xxh3 is the parameter \<open>hash\<close>; the network and the resolver are environments. The outer
  \<open>None\<close> of a result is a \<open>BuildChunks\<close> that does not return.
\<close>

section \<open>manifest.go\<close>

definition json_files :: "FileEntry list \<Rightarrow> byte list" where
  "json_files fs = bytes_of (Marshal (JArr (map json_of_FileEntry fs)))"

definition json_chunks :: "Chunk list \<Rightarrow> byte list" where
  "json_chunks cs = bytes_of (Marshal (JArr (map json_of_Chunk cs)))"

definition computeChecksum :: "(byte list \<Rightarrow> uint64) \<Rightarrow> Manifest \<Rightarrow> Chunk list \<Rightarrow> uint64" where
  "computeChecksum hash manifest chunks = hash (json_files (mf_Files manifest) @ json_chunks chunks)"

text \<open>The visitor that \<open>getManifestFromStorage\<close> passes to \<open>Walk\<close>; it never fails.\<close>

fun add_entry :: "Entry \<Rightarrow> Manifest \<Rightarrow> Manifest" where
  "add_entry (EDir e) m = m\<lparr>mf_Dirs := mf_Dirs m @ [e]\<rparr>"
| "add_entry (ESymlink e) m = m\<lparr>mf_Symlinks := mf_Symlinks m @ [e]\<rparr>"
| "add_entry (EEmptyFile e) m = m\<lparr>mf_EmptyFiles := mf_EmptyFiles m @ [e]\<rparr>"
| "add_entry (EFile e) m = m\<lparr>mf_Files := mf_Files m @ [FileEntry_Copy e]\<rparr>"

text \<open>
  \<open>err\<close> is overwritten by the result of \<open>computeChecksum\<close> before it is looked at. \<open>BuildChunks\<close> sorts
  and counts in the slice of the manifest.
\<close>

definition getManifestFromStorage ::
  "(byte list \<Rightarrow> uint64) \<Rightarrow> 'w Storage \<Rightarrow> 'w \<Rightarrow> int \<Rightarrow> Manifest \<Rightarrow> (Chunk list \<times> Manifest) option" where
  "getManifestFromStorage hash storage w maxFileCountPerChunk manifest =
     (let m0 = manifest\<lparr>mf_Dirs := [], mf_Symlinks := [], mf_EmptyFiles := [], mf_Files := []\<rparr>;
          (entries, walk_err) = st_Walk storage [] w;
          (err, m1) = visit (\<lambda>entry m. (None, add_entry entry m)) entries walk_err m0 in
      case BuildChunks (mf_Files m1) (mf_ChunkSize m1) maxFileCountPerChunk of
        None \<Rightarrow> None
      | Some (sorted_files, chunks) \<Rightarrow>
          let m2 = m1\<lparr>mf_Files := sorted_files\<rparr>;
              checksum = computeChecksum hash m2 chunks in
          Some (chunks, m2\<lparr>mf_ChunkChecksum := checksum, mf_TransferChunkCount := int (length chunks)\<rparr>))"

definition getManifestFromPeer ::
  "(byte list \<Rightarrow> uint64) \<Rightarrow> http_env \<Rightarrow> string \<Rightarrow> int \<Rightarrow> Manifest \<Rightarrow> (Chunk list \<times> Manifest) result option" where
  "getManifestFromPeer hash env peerHost maxFileCountPerChunk manifest =
     (case Request_default env (''http://'' @ peerHost @ ''/manifest'') [WithExpectedContentType ''application/json''] of
        Inl err \<Rightarrow> Some (Inl err)
      | Inr content \<Rightarrow>
      case Unmarshal_Manifest (string_of content) of
        Inl err \<Rightarrow> Some (Inl err)
      | Inr received \<Rightarrow>
          if mf_MajorVersion received \<noteq> mf_MajorVersion manifest
          then Some (Inl (Error ''peer has different major version''))
          else if mf_ChunkSize received \<noteq> mf_ChunkSize manifest
          then Some (Inl (Error ''peer has different chunk size''))
          else
            case BuildChunks (mf_Files received) (mf_ChunkSize manifest) maxFileCountPerChunk of
              None \<Rightarrow> None
            | Some (sorted_files, chunks) \<Rightarrow>
                let received' = received\<lparr>mf_Files := sorted_files\<rparr>;
                    checksum = computeChecksum hash received' chunks in
                if mf_ChunkChecksum received' \<noteq> checksum
                then Some (Inl (Error ''peer has different checksum''))
                else if mf_TransferChunkCount received' \<noteq> int (length chunks)
                then Some (Inl (Error ''peer has different chunk count''))
                else Some (Inr (chunks,
                  manifest\<lparr>mf_ChunkChecksum := mf_ChunkChecksum received',
                    mf_TransferChunkCount := mf_TransferChunkCount received',
                    mf_Dirs := mf_Dirs received', mf_Symlinks := mf_Symlinks received',
                    mf_EmptyFiles := mf_EmptyFiles received', mf_Files := mf_Files received'\<rparr>)))"

text \<open>The peers of one list, until one is accepted.\<close>

fun try_peers ::
  "(byte list \<Rightarrow> uint64) \<Rightarrow> http_env \<Rightarrow> string list \<Rightarrow> int \<Rightarrow> Manifest \<Rightarrow> (Chunk list \<times> Manifest) option option" where
  "try_peers hash env [] maxFileCountPerChunk manifest = Some None"
| "try_peers hash env (peer # peers) maxFileCountPerChunk manifest =
     (case getManifestFromPeer hash env peer maxFileCountPerChunk manifest of
        None \<Rightarrow> None
      | Some (Inr r) \<Rightarrow> Some (Some r)
      | Some (Inl err) \<Rightarrow> try_peers hash env peers maxFileCountPerChunk manifest)"

text \<open>
  The rounds of \<open>getManifestFromPeerList\<close> before its context times out, each with the state of the
  network at that time; a round that finds no manifest is followed by a pause.
\<close>

fun getManifestFromPeerList ::
  "(byte list \<Rightarrow> uint64) \<Rightarrow> (http_env \<times> dns_env) list \<Rightarrow> Provider \<Rightarrow> int \<Rightarrow> Manifest \<Rightarrow>
     (Chunk list \<times> Manifest) result option" where
  "getManifestFromPeerList hash [] provider maxFileCountPerChunk manifest =
     Some (Inl (Error ''failed to get manifest from peer''))"
| "getManifestFromPeerList hash ((env, dns) # rounds) provider maxFileCountPerChunk manifest =
     (case GetPeers env dns provider of
        Inl err \<Rightarrow> getManifestFromPeerList hash rounds provider maxFileCountPerChunk manifest
      | Inr peerList \<Rightarrow>
          (case try_peers hash env peerList maxFileCountPerChunk manifest of
             None \<Rightarrow> None
           | Some (Some r) \<Rightarrow> Some (Inr r)
           | Some None \<Rightarrow> getManifestFromPeerList hash rounds provider maxFileCountPerChunk manifest))"

text \<open>\<open>newManifest\<close>; the absent storage and the absent provider are \<open>None\<close>.\<close>

definition newManifest ::
  "(byte list \<Rightarrow> uint64) \<Rightarrow> Version \<Rightarrow> (http_env \<times> dns_env) list \<Rightarrow> ('w Storage \<times> 'w) option \<Rightarrow> Provider option \<Rightarrow>
     int \<Rightarrow> int \<Rightarrow> (Manifest \<times> Chunk list) result option" where
  "newManifest hash v rounds dirSrc peerListProvider chunkSize maxFileCountPerChunk =
     (let manifest = Manifest0\<lparr>mf_MajorVersion := v_Major v, mf_MinorVersion := v_Minor v, mf_ChunkSize := chunkSize\<rparr> in
      case dirSrc of
        Some (storage, w) \<Rightarrow>
          map_option (\<lambda>(chunks, m). Inr (m, chunks)) (getManifestFromStorage hash storage w maxFileCountPerChunk manifest)
      | None \<Rightarrow>
          (case peerListProvider of
             Some provider \<Rightarrow>
               map_option (\<lambda>r. case r of
                   Inl err \<Rightarrow> Inl (Error ''failed to create a file list from the peer list'')
                 | Inr (chunks, m) \<Rightarrow> Inr (m, chunks))
                 (getManifestFromPeerList hash rounds provider maxFileCountPerChunk manifest)
           | None \<Rightarrow> Some (Inl (Error ''at least one of local source directory or peer list required''))))"

section \<open>chunk_manager.go: NewChunkManager\<close>

definition NewChunkManager ::
  "(byte list \<Rightarrow> uint64) \<Rightarrow> Version \<Rightarrow> (http_env \<times> dns_env) list \<Rightarrow> ('w Storage \<times> 'w) option \<Rightarrow> Provider option \<Rightarrow>
     int \<Rightarrow> int \<Rightarrow> ChunkManager result option" where
  "NewChunkManager hash v rounds dirSrc peerListProvider chunkSize maxFileCountPerChunk =
     map_option (map_sum id (\<lambda>(manifest, chunks).
         \<lparr>cm_manifest = manifest, cm_manifestJson = bytes_of (Marshal (json_of_Manifest manifest)), cm_chunks = chunks,
          cm_chunkChecksums = replicate (length chunks) 0\<rparr>))
       (newManifest hash v rounds dirSrc peerListProvider chunkSize maxFileCountPerChunk)"

section \<open>Lemmas\<close>

lemma string_of_bytes_of [simp]: "string_of (bytes_of s) = s"
proof -
  have "char_of (unat (of_nat (of_char c) :: byte)) = c" for c
  proof -
    have "(of_char c :: nat) < 256" by simp
    then have "unat (of_nat (of_char c) :: byte) = of_char c" by (simp add: unat_of_nat)
    then show ?thesis by simp
  qed
  then show ?thesis by (simp add: string_of_def bytes_of_def comp_def)
qed

text \<open>\<open>BuildChunks\<close> touches only the counters.\<close>

lemma Copy_count [simp]: "FileEntry_Copy (f\<lparr>fe_remainingChunkCount := n\<rparr>) = FileEntry_Copy f"
  by (simp add: FileEntry_Copy_def)

lemma BuildChunks_file_copy:
  "BuildChunks_file C m i start remain fl st = Some (fl', st') \<Longrightarrow> FileEntry_Copy fl' = FileEntry_Copy fl"
proof -
  have "FileEntry_Copy (fst r) = FileEntry_Copy fl" if "BuildChunks_file C m i start remain fl st = Some r" for r
    using that
  proof (rule BuildChunks_file.raw_induct [rotated], goal_cases)
    case (1 bc C m i start remain fl st r)
    then show ?case by (auto simp: Let_def split: if_splits)
  qed
  then show "BuildChunks_file C m i start remain fl st = Some (fl', st') \<Longrightarrow> ?thesis" by force
qed

lemma BuildChunks_files_copy:
  "BuildChunks_files C m i files0 st = Some (files', st') \<Longrightarrow> map FileEntry_Copy files' = map FileEntry_Copy files0"
proof (induction C m i files0 st arbitrary: files' st' rule: BuildChunks_files.induct)
  case (2 C m i fl files0 st)
  then show ?case using BuildChunks_file_copy by (fastforce split: option.splits prod.splits)
qed simp

lemma BuildChunks_copy:
  "BuildChunks files0 C m = Some (files', cs) \<Longrightarrow> map FileEntry_Copy files' = map FileEntry_Copy (sort_key fe_Name files0)"
  using BuildChunks_files_copy by (fastforce simp: BuildChunks_def split: if_splits option.splits prod.splits)

lemma Copy_uncounted: "\<forall>f \<in> set fs. fe_remainingChunkCount f = 0 \<Longrightarrow> map FileEntry_Copy fs = fs"
  by (induction fs) (auto simp: FileEntry_Copy_def)

lemma BuildChunks_again:
  assumes run: "BuildChunks files0 C m = Some (files', cs)" and zero: "\<forall>f \<in> set files0. fe_remainingChunkCount f = 0"
  shows "BuildChunks (map FileEntry_Copy files') C m = Some (files', cs)"
proof -
  have "map FileEntry_Copy files' = sort_key fe_Name files0"
    using BuildChunks_copy [OF run] Copy_uncounted [of "sort_key fe_Name files0"] zero by simp
  then show ?thesis using run by (auto simp: BuildChunks_def sort_key_id_if_sorted split: if_splits)
qed

text \<open>The manifest before the chunks are made: the entries of the walk, by kind.\<close>

lemma fold_add_entry_fields [simp]:
  "mf_ChunkSize (fold add_entry es m) = mf_ChunkSize m"
  "mf_MajorVersion (fold add_entry es m) = mf_MajorVersion m"
  "mf_MinorVersion (fold add_entry es m) = mf_MinorVersion m"
proof (induction es arbitrary: m)
  case (Cons e es)
  case 1 then show ?case using Cons by (cases e) simp_all
  case 2 then show ?case using Cons by (cases e) simp_all
  case 3 then show ?case using Cons by (cases e) simp_all
qed simp_all

lemma fold_add_entry_files:
  "mf_Files (fold add_entry es m) = mf_Files m @ [FileEntry_Copy f. EFile f \<leftarrow> es]"
proof (induction es arbitrary: m)
  case (Cons e es)
  then show ?case by (cases e) simp_all
qed simp

definition listed :: "Entry list \<Rightarrow> Manifest \<Rightarrow> Manifest" where
  "listed es m = fold add_entry es (m\<lparr>mf_Dirs := [], mf_Symlinks := [], mf_EmptyFiles := [], mf_Files := []\<rparr>)"

lemma getManifestFromStorage_listed:
  "getManifestFromStorage hash storage w mfc m =
     (case BuildChunks (mf_Files (listed (fst (st_Walk storage [] w)) m)) (mf_ChunkSize m) mfc of
        None \<Rightarrow> None
      | Some (sorted_files, chunks) \<Rightarrow>
          let m2 = (listed (fst (st_Walk storage [] w)) m)\<lparr>mf_Files := sorted_files\<rparr> in
          Some (chunks, m2\<lparr>mf_ChunkChecksum := computeChecksum hash m2 chunks,
                           mf_TransferChunkCount := int (length chunks)\<rparr>))"
proof -
  have "visit (\<lambda>entry m. (None, add_entry entry m)) es err m' = (err, fold add_entry es m')" for es err m'
    by (rule visit_total) simp
  then show ?thesis
    by (cases "st_Walk storage [] w") (simp add: getManifestFromStorage_def listed_def Let_def split: option.splits)
qed

lemma listed_uncounted: "f \<in> set (mf_Files (listed es m)) \<Longrightarrow> fe_remainingChunkCount f = 0"
  by (auto simp: listed_def fold_add_entry_files)

lemma listed_fields [simp]:
  "mf_ChunkSize (listed es m) = mf_ChunkSize m" "mf_MajorVersion (listed es m) = mf_MajorVersion m"
  "mf_MinorVersion (listed es m) = mf_MinorVersion m"
  by (simp_all add: listed_def)

text \<open>The manifest a peer starts from.\<close>

definition bare_manifest :: "Version \<Rightarrow> int \<Rightarrow> Manifest" where
  "bare_manifest v chunkSize = Manifest0\<lparr>mf_MajorVersion := v_Major v, mf_MinorVersion := v_Minor v, mf_ChunkSize := chunkSize\<rparr>"

lemma Unmarshal_served:
  "wf_names m \<Longrightarrow> wf_numbers m \<Longrightarrow> Unmarshal_Manifest (Marshal (json_of_Manifest m)) = Inr (exported m)"
  by (simp add: Unmarshal_Manifest_def Unmarshal_Marshal wf_json_Manifest utf8_json_Manifest decode_Manifest_json)

text \<open>A peer with the same configuration that receives the manifest of a source accepts it as it is.\<close>

lemma fetched_manifest_agrees:
  assumes src: "getManifestFromStorage hash storage w mfc (bare_manifest v C) = Some (chunks, m)"
    and names: "wf_names m" and numbers: "wf_numbers m"
    and fetch: "Request_default env (''http://'' @ host @ ''/manifest'') [WithExpectedContentType ''application/json''] =
      Inr (bytes_of (Marshal (json_of_Manifest m)))"
  shows "getManifestFromPeer hash env host mfc (bare_manifest v C) = Some (Inr (chunks, m))"
proof -
  let ?l = "listed (fst (st_Walk storage [] w)) (bare_manifest v C)"
  obtain fs where run: "BuildChunks (mf_Files ?l) C mfc = Some (fs, chunks)"
    and m: "m = (?l\<lparr>mf_Files := fs\<rparr>)\<lparr>mf_ChunkChecksum := computeChecksum hash (?l\<lparr>mf_Files := fs\<rparr>) chunks,
               mf_TransferChunkCount := int (length chunks)\<rparr>"
    using src by (auto simp: getManifestFromStorage_listed bare_manifest_def Let_def split: option.splits prod.splits)
  have "BuildChunks (mf_Files (exported m)) C mfc = Some (fs, chunks)"
    using BuildChunks_again [OF run] listed_uncounted by (simp add: exported_def m)
  moreover have "mf_MajorVersion m = v_Major v" "mf_MinorVersion m = v_Minor v" "mf_ChunkSize m = C" "mf_Files m = fs"
    by (simp_all add: m bare_manifest_def)
  ultimately show ?thesis
    using fetch Unmarshal_served [OF names numbers]
    by (simp add: getManifestFromPeer_def exported_def bare_manifest_def Let_def computeChecksum_def)
      (simp add: m computeChecksum_def Manifest0_def)
qed

end
