(* ===== verification/Statistics.thy ===== *)
theory Statistics
  imports Manifest_Data Go_Strings
begin

text \<open>
  File \<open>statistics.go\<close>: the counters of a run and what is printed of them. The counters are atomic
  and every update is one step; the map of the downloaders is guarded by its lock.
\<close>

section \<open>Durations as text\<close>

text \<open>
  \<open>Duration.String\<close>: hours, minutes and seconds, or one of the smaller units below a second; the
  fraction is printed without trailing zeros.
\<close>

definition fraction :: "nat \<Rightarrow> nat \<Rightarrow> string" where
  "fraction digits v =
     (let ds = FormatNat (v mod 10 ^ digits);
          padded = replicate (digits - length ds) (CHR ''0'') @ ds;
          cut = rev (dropWhile (\<lambda>c. c = CHR ''0'') (rev padded))
      in if v mod 10 ^ digits = 0 then [] else CHR ''.'' # cut)"

definition decimal :: "nat \<Rightarrow> nat \<Rightarrow> string" where
  "decimal digits v = FormatNat (v div 10 ^ digits) @ fraction digits v"

definition DurationString :: "duration \<Rightarrow> string" where
  "DurationString d =
     (let u = nat \<bar>d\<bar>;
          secs = u div 10 ^ 9;
          text = (if u = 0 then ''0s''
                  else if u < 10 ^ 3 then FormatNat u @ ''ns''
                  else if u < 10 ^ 6 then decimal 3 u @ [CHR 0xC2, CHR 0xB5, CHR ''s'']
                  else if u < 10 ^ 9 then decimal 6 u @ ''ms''
                  else (if 3600 \<le> secs then FormatNat (secs div 3600) @ ''h'' else []) @
                       (if 60 \<le> secs then FormatNat (secs div 60 mod 60) @ ''m'' else []) @
                       FormatNat (secs mod 60) @ fraction 9 u @ ''s'')
      in if d < 0 then CHR ''-'' # text else text)"

section \<open>statistics.go\<close>

record Statistics =
  stt_IsUse :: bool
  stt_Data :: "(string \<times> string) list"
  stt_IsSetBytesTransmittedTotal :: bool
  stt_IsSetBytesReceivedTotal :: bool
  stt_BytesTransmittedTotal :: int
  stt_BytesReceivedTotal :: int
  stt_ChunksReceivedTotal :: int
  stt_CumulativeDurationTotal :: AtomicDuration
  stt_Elapsed :: duration

definition NewStatistics :: "bool \<Rightarrow> Statistics" where
  "NewStatistics isUse =
     \<lparr>stt_IsUse = isUse, stt_Data = [], stt_IsSetBytesTransmittedTotal = False, stt_IsSetBytesReceivedTotal = False,
      stt_BytesTransmittedTotal = 0, stt_BytesReceivedTotal = 0, stt_ChunksReceivedTotal = 0,
      stt_CumulativeDurationTotal = 0, stt_Elapsed = 0\<rparr>"

definition GetBytesReceivedTotal :: "Statistics \<Rightarrow> int" where
  "GetBytesReceivedTotal stat = stt_BytesReceivedTotal stat"

definition AddBytesTransmittedTotal :: "int \<Rightarrow> Statistics \<Rightarrow> Statistics" where
  "AddBytesTransmittedTotal n stat =
     stat\<lparr>stt_IsSetBytesTransmittedTotal := True, stt_BytesTransmittedTotal := i64 (stt_BytesTransmittedTotal stat + n)\<rparr>"

text \<open>The map is an association list with one entry per key.\<close>

fun put :: "string \<Rightarrow> string \<Rightarrow> (string \<times> string) list \<Rightarrow> (string \<times> string) list" where
  "put k v [] = [(k, v)]"
| "put k v ((k', v') # kvs) = (if k = k' then (k, v) # kvs else (k', v') # put k v kvs)"

definition AddDownloader :: "string \<Rightarrow> int \<Rightarrow> int \<Rightarrow> duration \<Rightarrow> Statistics \<Rightarrow> Statistics" where
  "AddDownloader name bytesReceivedTotal chunksReceivedTotal cumulativeDurationTotal stat =
     (let s1 = stat\<lparr>stt_IsSetBytesReceivedTotal := True,
            stt_BytesReceivedTotal := i64 (stt_BytesReceivedTotal stat + bytesReceivedTotal),
            stt_ChunksReceivedTotal := i64 (stt_ChunksReceivedTotal stat + chunksReceivedTotal),
            stt_CumulativeDurationTotal := snd (AtomicDuration_Add cumulativeDurationTotal (stt_CumulativeDurationTotal stat))\<rparr> in
      if stt_IsUse stat then
        s1\<lparr>stt_Data :=
            put (''['' @ name @ ''] cumulative_transfer_time'') (DurationString cumulativeDurationTotal)
              (put (''['' @ name @ ''] received_chunks'') (FormatInt chunksReceivedTotal)
                (put (''['' @ name @ ''] received_bytes'') (FormatInt bytesReceivedTotal) (stt_Data stat)))\<rparr>
      else s1)"

definition SetElapsed :: "duration \<Rightarrow> Statistics \<Rightarrow> Statistics" where
  "SetElapsed elapsed stat = stat\<lparr>stt_Elapsed := elapsed\<rparr>"

text \<open>The lines of one map in the order of its keys, and those of \<open>PrintAll\<close>.\<close>

definition Print :: "(string \<times> string) list \<Rightarrow> string list" where
  "Print kvs = map (\<lambda>(k, v). k @ '' = '' @ v) (sort_key fst kvs)"

definition elapsedSeconds :: "Statistics \<Rightarrow> int" where
  "elapsedSeconds stat = (let s = whole_seconds (stt_Elapsed stat) in if s = 0 then 1 else s)"

text \<open>Division of \<open>int64\<close> values, which truncates.\<close>

definition div64 :: "int \<Rightarrow> int \<Rightarrow> int" where
  "div64 a b = i64 (if (a < 0) = (b < 0) then \<bar>a\<bar> div \<bar>b\<bar> else - (\<bar>a\<bar> div \<bar>b\<bar>))"

definition PrintAll :: "Version \<Rightarrow> Statistics \<Rightarrow> string list" where
  "PrintAll v stat =
     (if \<not> stt_IsUse stat then []
      else [GetVersion v @ '' download statistics information:''] @ Print (stt_Data stat) @
        Print ((if stt_IsSetBytesReceivedTotal stat then
                  [(''[Total] received_bytes'', FormatInt (stt_BytesReceivedTotal stat)),
                   (''[Total] received_chunks'', FormatInt (stt_ChunksReceivedTotal stat)),
                   (''[Total] cumulative_transfer_time'', DurationString (AtomicDuration_Load (stt_CumulativeDurationTotal stat))),
                   (''[Total] elapsed_time'', DurationString (stt_Elapsed stat)),
                   (''[Total] transfer_bytes_per_seconds'',
                      FormatInt (div64 (stt_BytesReceivedTotal stat) (elapsedSeconds stat)))]
                else []) @
               (if stt_IsSetBytesTransmittedTotal stat
                then [(''[Total] transmitted_bytes'', FormatInt (stt_BytesTransmittedTotal stat))] else [])))"

section \<open>Totals\<close>

lemma AddDownloader_totals [simp]:
  "stt_BytesReceivedTotal (AddDownloader n b c d stat) = i64 (stt_BytesReceivedTotal stat + b)"
  "stt_ChunksReceivedTotal (AddDownloader n b c d stat) = i64 (stt_ChunksReceivedTotal stat + c)"
  "stt_BytesTransmittedTotal (AddDownloader n b c d stat) = stt_BytesTransmittedTotal stat"
  by (simp_all add: AddDownloader_def Let_def)

lemma put_keys: "fst ` set (put k v kvs) = insert k (fst ` set kvs)"
  by (induction k v kvs rule: put.induct) auto

lemma put_distinct: "distinct (map fst kvs) \<Longrightarrow> distinct (map fst (put k v kvs))"
  by (induction k v kvs rule: put.induct) (auto simp: put_keys)

lemma elapsedSeconds_not_zero: "elapsedSeconds stat \<noteq> 0"
  by (simp add: elapsedSeconds_def Let_def)

text \<open>The reports of all downloaders, in whatever order they come.\<close>

definition report :: "string \<times> int \<times> int \<times> duration \<Rightarrow> Statistics \<Rightarrow> Statistics" where
  "report = (\<lambda>(name, bytes, chunks, d) stat. AddDownloader name bytes chunks d stat)"

lemma reports_total:
  "i64 (stt_BytesReceivedTotal (fold report rs stat)) = i64 (stt_BytesReceivedTotal stat + (\<Sum>(n, b, c, d) \<leftarrow> rs. b))"
  "i64 (stt_ChunksReceivedTotal (fold report rs stat)) = i64 (stt_ChunksReceivedTotal stat + (\<Sum>(n, b, c, d) \<leftarrow> rs. c))"
proof (induction rs arbitrary: stat)
  case (Cons r rs)
  obtain n b c d where r: "r = (n, b, c, d)" by (cases r)
  case 1
  show ?case using Cons(1) [of "report r stat"] by (simp add: r report_def i64_add_left add.assoc)
  case 2
  show ?case using Cons(2) [of "report r stat"] by (simp add: r report_def i64_add_left add.assoc)
qed simp_all

end
