(* ===== verification/Http_Server.thy ===== *)
theory Http_Server
  imports Manifest_Build Statistics
begin

text \<open>
  Files \<open>http_server.go\<close> and \<open>available_list.go\<close>: the answers to the requests of peers. A handler is
  a function of the server's state and the request to the response writer and the new state. A write
  to the connection succeeds here; what a peer receives over a broken connection is the reader of
  its client. Time stamps are formatted and parsed by a codec, which stands for
  \<open>time.Time\<close>'s RFC 3339 functions.
\<close>

section \<open>Requests and responses\<close>

record ServerRequest =
  sr_path :: string
  sr_query :: "string \<rightharpoonup> string list"
  sr_header :: Header

text \<open>The header is sent, with the status, by the first \<open>WriteHeader\<close> or \<open>Write\<close>.\<close>

record ResponseWriter =
  w_header :: Header
  w_sent :: "(int \<times> Header) option"
  w_body :: "byte list"

definition NewResponseWriter :: ResponseWriter where
  "NewResponseWriter = \<lparr>w_header = Map.empty, w_sent = None, w_body = []\<rparr>"

definition w_Set :: "string \<Rightarrow> string \<Rightarrow> ResponseWriter \<Rightarrow> ResponseWriter" where
  "w_Set key value w = w\<lparr>w_header := Header_Set key value (w_header w)\<rparr>"

definition w_WriteHeader :: "int \<Rightarrow> ResponseWriter \<Rightarrow> ResponseWriter" where
  "w_WriteHeader status w = (case w_sent w of None \<Rightarrow> w\<lparr>w_sent := Some (status, w_header w)\<rparr> | Some _ \<Rightarrow> w)"

definition w_Write :: "byte list \<Rightarrow> ResponseWriter \<Rightarrow> ResponseWriter" where
  "w_Write bs w = (let w' = w_WriteHeader 200 w in w'\<lparr>w_body := w_body w' @ bs\<rparr>)"

text \<open>
  What the client receives when the handler has returned. A body that is shorter than its declared
  length ends in an error, for the connection is closed; bytes beyond that length are not sent.
\<close>

definition response_body :: "Header \<Rightarrow> byte list \<Rightarrow> Reader" where
  "response_body h bs =
     (case Atoi (Header_Get h ''Content-Length'') of
        Inl err \<Rightarrow> \<lparr>rd_data = bs, rd_fin = EOF\<rparr>
      | Inr n \<Rightarrow>
          if n < 0 then \<lparr>rd_data = bs, rd_fin = EOF\<rparr>
          else if int (length bs) < n then \<lparr>rd_data = bs, rd_fin = Error ''unexpected EOF''\<rparr>
          else \<lparr>rd_data = take (nat n) bs, rd_fin = EOF\<rparr>)"

definition response_of :: "ResponseWriter \<Rightarrow> Response" where
  "response_of w =
     (let (status, h) = (case w_sent w of None \<Rightarrow> (200, w_header w) | Some sh \<Rightarrow> sh)
      in \<lparr>rs_StatusCode = status, rs_Header = h, rs_Body = response_body h (w_body w)\<rparr>)"

lemma response_body_exact:
  "Header_Get h ''Content-Length'' = FormatNat (length bs) \<Longrightarrow> response_body h bs = \<lparr>rd_data = bs, rd_fin = EOF\<rparr>"
  by (simp add: response_body_def Atoi_FormatNat_cases)

lemma response_body_chunked:
  "h ''Content-Length'' = None \<Longrightarrow> response_body h bs = \<lparr>rd_data = bs, rd_fin = EOF\<rparr>"
  by (simp add: response_body_def Header_Get_def Atoi_def)

section \<open>available_list.go\<close>

record time_codec =
  tm_Format :: "time \<Rightarrow> string"
  tm_Parse :: "string \<Rightarrow> time result"

record AvailableList =
  al_Timestamp :: time
  al_IsCompleted :: bool
  al_TransferChunkIndexList :: "int list"

definition NewAvailableList :: "time \<Rightarrow> AvailableList" where
  "NewAvailableList now = \<lparr>al_Timestamp = now, al_IsCompleted = False, al_TransferChunkIndexList = []\<rparr>"

text \<open>A slice that was never set is \<open>null\<close>.\<close>

definition json_of_AvailableList :: "time_codec \<Rightarrow> AvailableList \<Rightarrow> json" where
  "json_of_AvailableList tm al =
     JObj [(''timestamp'', JStr (tm_Format tm (al_Timestamp al))), (''isCompleted'', JBool (al_IsCompleted al)),
           (''transferChunkIndexList'',
              if al_IsCompleted al then JNull else JArr (map (\<lambda>i. JNum (FormatInt i)) (al_TransferChunkIndexList al)))]"

section \<open>http_server.go: helpers\<close>

text \<open>The part of \<open>MainContext\<close> that the handlers use, over a world of storages.\<close>

record 'w server =
  sv_Completed :: bool
  sv_UUID :: string
  sv_Version :: Version
  sv_ServeOnly :: bool
  sv_ChunkManager :: ChunkManager
  sv_Src :: "'w Storage"
  sv_Dst :: "'w Storage"
  sv_world :: 'w
  sv_Statistics :: Statistics
  sv_LastSentAt :: AtomicTime
  sv_now :: time

definition add_transmitted :: "int \<Rightarrow> 'w server \<Rightarrow> 'w server" where
  "add_transmitted n sv = sv\<lparr>sv_Statistics := AddBytesTransmittedTotal n (sv_Statistics sv)\<rparr>"

definition textResponse :: "string \<Rightarrow> int \<Rightarrow> ResponseWriter \<times> 'w server \<Rightarrow> ResponseWriter \<times> 'w server" where
  "textResponse content status = (\<lambda>(w, sv).
     let w1 = w_Set ''Content-Type'' ''text/plain; charset=utf-8'' w;
         w2 = w_Set ''Content-Length'' (FormatNat (length content)) w1;
         w3 = w_WriteHeader status w2
     in (w_Write (bytes_of content) w3, add_transmitted (int (length content)) sv))"

definition errorResponse :: "int \<Rightarrow> string \<Rightarrow> ResponseWriter \<times> 'w server \<Rightarrow> ResponseWriter \<times> 'w server" where
  "errorResponse status err = textResponse err status"

definition setEncodingType :: "ServerRequest \<Rightarrow> ResponseWriter \<Rightarrow> string \<times> ResponseWriter" where
  "setEncodingType r w =
     (let encodingType = GetPreferredEncodingType (Header_values (sr_header r) ''Accept-Encoding'')
      in (encodingType, if encodingType \<noteq> EncodingTypeNone then w_Set ''Content-Encoding'' encodingType w else w))"

definition getWantDigest :: "ServerRequest \<Rightarrow> bool" where
  "getWantDigest r =
     (case Header_values (sr_header r) ''Want-Digest'' of [] \<Rightarrow> False | v # _ \<Rightarrow> TrimSpace v = DefaultDigest)"

definition setDigest :: "uint64 \<Rightarrow> ResponseWriter \<Rightarrow> ResponseWriter" where
  "setDigest checksum w = w_Set ''Digest'' (DefaultDigest @ ''='' @ FormatUint checksum) w"

definition ParseDigest :: "Header \<Rightarrow> uint64 result" where
  "ParseDigest h =
     (case Split (CHR ''='') (Header_Get h ''Digest'') of
        [a, b] \<Rightarrow>
          if a \<noteq> ''xxh3'' then Inl (Error ''unsupported digest'')
          else (case ParseUint b of Inl err \<Rightarrow> Inl (Error ''failed to parse digest'') | Inr checksum \<Rightarrow> Inr checksum)
      | _ \<Rightarrow> Inl (Error ''failed to get digest''))"

definition getOnlyUpdatedSince :: "time_codec \<Rightarrow> ServerRequest \<Rightarrow> time result" where
  "getOnlyUpdatedSince tm r =
     (case sr_query r ''only_updated_since'' of
        Some (v # _) \<Rightarrow> if v \<noteq> [] then tm_Parse tm v else Inr 0
      | _ \<Rightarrow> Inr 0)"

text \<open>A body that is encoded as a whole, with its headers.\<close>

definition encodedResponse ::
  "http_env \<Rightarrow> byte list \<Rightarrow> ServerRequest \<Rightarrow> ResponseWriter \<times> 'w server \<Rightarrow> ResponseWriter \<times> 'w server" where
  "encodedResponse env data r = (\<lambda>(w, sv).
     let (encodingType, w1) = setEncodingType r w in
     case NewBufferEncodingReader env data encodingType of
       Inl err \<Rightarrow> errorResponse 500 ''failed to compress'' (w1, sv)
     | Inr bs \<Rightarrow>
         let w2 = w_Set ''Content-Type'' ''application/json; charset=utf-8'' w1;
             w3 = w_Set ''Content-Length'' (FormatNat (length bs)) w2
         in (w_Write bs w3, add_transmitted (int (length bs)) sv))"

definition availableListResponse ::
  "http_env \<Rightarrow> time_codec \<Rightarrow> AvailableList \<Rightarrow> ServerRequest \<Rightarrow> ResponseWriter \<times> 'w server \<Rightarrow> ResponseWriter \<times> 'w server" where
  "availableListResponse env tm availableList r =
     encodedResponse env (bytes_of (Marshal (json_of_AvailableList tm availableList))) r"

section \<open>http_server.go: handlers\<close>

definition handle_completed :: "ServerRequest \<Rightarrow> ResponseWriter \<times> 'w server \<Rightarrow> ResponseWriter \<times> 'w server" where
  "handle_completed r = (\<lambda>(w, sv).
     if \<not> sv_Completed sv then textResponse ''Downloading'' 404 (w, sv) else textResponse ''OK'' 200 (w, sv))"

definition handle_uuid :: "ServerRequest \<Rightarrow> ResponseWriter \<times> 'w server \<Rightarrow> ResponseWriter \<times> 'w server" where
  "handle_uuid r = (\<lambda>(w, sv). textResponse (sv_UUID sv) 200 (w, sv))"

definition handle_version :: "ServerRequest \<Rightarrow> ResponseWriter \<times> 'w server \<Rightarrow> ResponseWriter \<times> 'w server" where
  "handle_version r = (\<lambda>(w, sv). textResponse (GetVersion (sv_Version sv)) 200 (w, sv))"

definition handle_manifest :: "http_env \<Rightarrow> ServerRequest \<Rightarrow> ResponseWriter \<times> 'w server \<Rightarrow> ResponseWriter \<times> 'w server" where
  "handle_manifest env r = (\<lambda>(w, sv). encodedResponse env (GetManifestJson (sv_ChunkManager sv)) r (w, sv))"

definition handle_manifest_checksum :: "ServerRequest \<Rightarrow> ResponseWriter \<times> 'w server \<Rightarrow> ResponseWriter \<times> 'w server" where
  "handle_manifest_checksum r = (\<lambda>(w, sv).
     textResponse (FormatUint (GetManifestChecksum (sv_ChunkManager sv))) 200 (w, sv))"

definition handle_chunk_list ::
  "http_env \<Rightarrow> time_codec \<Rightarrow> ServerRequest \<Rightarrow> ResponseWriter \<times> 'w server \<Rightarrow> ResponseWriter \<times> 'w server" where
  "handle_chunk_list env tm r = (\<lambda>(w, sv).
     let availableList = NewAvailableList (sv_now sv) in
     if sv_Completed sv then availableListResponse env tm (availableList\<lparr>al_IsCompleted := True\<rparr>) r (w, sv)
     else case getOnlyUpdatedSince tm r of
       Inl err \<Rightarrow> errorResponse 400 ''invalid timestamp'' (w, sv)
     | Inr onlyUpdatedSince \<Rightarrow>
         availableListResponse env tm
           (availableList\<lparr>al_TransferChunkIndexList :=
              map int (GetStatusDoneChunks onlyUpdatedSince (sv_ChunkManager sv))\<rparr>) r (w, sv))"

text \<open>The storage and the status function that the chunk handler was made with.\<close>

definition served_storage :: "'w server \<Rightarrow> 'w Storage" where
  "served_storage sv = (if sv_ServeOnly sv then sv_Src sv else sv_Dst sv)"

definition served_status :: "'w server \<Rightarrow> nat \<Rightarrow> ChunkStatus" where
  "served_status sv chunkIndex =
     (if sv_ServeOnly sv \<or> sv_Completed sv then ChunkStatusDone
      else Chunk_GetStatus (cm_chunks (sv_ChunkManager sv) ! chunkIndex))"

text \<open>
  The handler of one chunk; \<open>None\<close> if the copy never ends. The bytes that were copied before a read
  error have been sent.
\<close>

definition serve_body ::
  "http_env \<Rightarrow> string \<Rightarrow> nat \<Rightarrow> ResponseWriter \<times> 'w server \<Rightarrow> (ResponseWriter \<times> 'w server) option" where
  "serve_body env encodingType chunkIndex = (\<lambda>(w, sv).
     map_option (\<lambda>(bs, err).
         (w_Write (NewEncodingWriteCloser env encodingType bs) w, add_transmitted (int (length bs)) sv))
       (io_Copy (sv_ChunkManager sv) (served_storage sv) (sv_world sv) (GetChunkReader chunkIndex) []))"

text \<open>The deferred \<open>Close\<close> of the encoding writer when nothing was written to it.\<close>

definition close_writer :: "http_env \<Rightarrow> string \<Rightarrow> ResponseWriter \<times> 'w server \<Rightarrow> ResponseWriter \<times> 'w server" where
  "close_writer env encodingType = (\<lambda>(w, sv).
     (if encodingType = EncodingTypeZstd then w_Write (NewEncodingWriteCloser env encodingType []) w else w, sv))"

definition handle_chunk ::
  "(byte list \<Rightarrow> uint64) \<Rightarrow> http_env \<Rightarrow> ServerRequest \<Rightarrow> ResponseWriter \<times> 'w server \<Rightarrow> (ResponseWriter \<times> 'w server) option"
where
  "handle_chunk hash env r = (\<lambda>(w, sv).
     case Atoi (TrimPrefix (sr_path r) ''/chunk/'') of
       Inl err \<Rightarrow> Some (errorResponse 403 ''chunk index is not an integer'' (w, sv))
     | Inr index \<Rightarrow>
         if index < 0 \<or> index \<ge> int (GetChunkCount (sv_ChunkManager sv))
         then Some (errorResponse 403 ''chunk index out of range'' (w, sv))
         else if served_status sv (nat index) \<noteq> ChunkStatusDone
         then Some (errorResponse 403 ''chunk not ready'' (w, sv))
         else
           let chunkIndex = nat index;
               (encodingType, w1) = setEncodingType r w;
               w2 = w_Set ''Content-Type'' ''application/octet-stream'' w1;
               w3 = (if encodingType = EncodingTypeNone
                     then w_Set ''Content-Length'' (FormatInt (Chunk_Size (cm_chunks (sv_ChunkManager sv) ! chunkIndex))) w2
                     else w2) in
           if getWantDigest r then
             (case ComputeChunkChecksum hash (served_storage sv) chunkIndex (sv_world sv) (sv_ChunkManager sv) of
                None \<Rightarrow> None
              | Some ((checksum, Some err), cm) \<Rightarrow>
                  Some (close_writer env encodingType
                    (errorResponse 500 ''failed to get chunk checksum'' (w3, sv\<lparr>sv_ChunkManager := cm\<rparr>)))
              | Some ((checksum, None), cm) \<Rightarrow>
                  serve_body env encodingType chunkIndex (setDigest checksum w3, sv\<lparr>sv_ChunkManager := cm\<rparr>))
           else serve_body env encodingType chunkIndex (w3, sv))"

text \<open>
  \<open>CreateHttpServer\<close>: the routes, on paths in their clean form, and the wrapping that notes the time
  of the last request.
\<close>

definition not_found :: "ResponseWriter \<times> 'w server \<Rightarrow> ResponseWriter \<times> 'w server" where
  "not_found = (\<lambda>(w, sv). (w_Write (bytes_of ''404 page not found'') (w_WriteHeader 404 w), sv))"

definition wrapped :: "ResponseWriter \<times> 'w server \<Rightarrow> ResponseWriter \<times> 'w server" where
  "wrapped = (\<lambda>(w, sv). (w, sv\<lparr>sv_LastSentAt := AtomicTime_Store (sv_now sv) (sv_LastSentAt sv)\<rparr>))"

definition ServeHTTP ::
  "(byte list \<Rightarrow> uint64) \<Rightarrow> http_env \<Rightarrow> time_codec \<Rightarrow> ServerRequest \<Rightarrow> 'w server \<Rightarrow> (Response \<times> 'w server) option" where
  "ServeHTTP hash env tm r sv =
     (let ws = (NewResponseWriter, sv);
          path = sr_path r in
      map_option (\<lambda>(w, sv'). (response_of w, sv'))
       (if path = ''/completed'' then Some (wrapped (handle_completed r ws))
        else if path = ''/uuid'' then Some (wrapped (handle_uuid r ws))
        else if path = ''/version'' then Some (wrapped (handle_version r ws))
        else if path = ''/manifest'' then Some (wrapped (handle_manifest env r ws))
        else if path = ''/manifest/checksum'' then Some (wrapped (handle_manifest_checksum r ws))
        else if path = ''/chunk'' then Some (wrapped (handle_chunk_list env tm r ws))
        else if HasPrefix path ''/chunk/'' then map_option wrapped (handle_chunk hash env r ws)
        else Some (not_found ws)))"

end
