(* ===== verification/Peer_Downloader.thy ===== *)
theory Peer_Downloader
  imports Http_Server Chunk_Queue
begin

text \<open>
  Files \<open>peer_downloader.go\<close> and \<open>local_downloader.go\<close>: the two implementations of the interface
  \<open>Downloader\<close>. A peer downloader asks its peer who it is, compares manifests, learns which chunks the
  peer has, and requests chunks over HTTP; a local one reads them from the source directory. The
  update goroutine is a sequence of rounds, one per tick.
\<close>

section \<open>peer_downloader.go\<close>

datatype AvailableChunk = AvailableChunkNotReady | AvailableChunkReady

record PeerDownloader =
  pdl_ChunkManager :: ChunkManager
  pdl_Queue :: ChunkQueue
  pdl_UUID :: string
  pdl_Host :: string
  pdl_AvailableChunkList :: "AvailableChunk list"
  pdl_AvailableChunkCount :: int
  pdl_LastUpdatedAt :: time
  pdl_IsSelf :: bool
  pdl_updateCancelled :: bool

definition NewPeerDownloader :: "ChunkManager \<Rightarrow> string \<Rightarrow> string \<Rightarrow> PeerDownloader" where
  "NewPeerDownloader cm uuid host =
     \<lparr>pdl_ChunkManager = cm, pdl_Queue = NewChunkQueue, pdl_UUID = uuid, pdl_Host = host,
      pdl_AvailableChunkList = replicate (GetChunkCount cm) AvailableChunkNotReady, pdl_AvailableChunkCount = 0,
      pdl_LastUpdatedAt = 0, pdl_IsSelf = False, pdl_updateCancelled = False\<rparr>"

definition peer_url :: "PeerDownloader \<Rightarrow> string \<Rightarrow> string" where
  "peer_url d path = ''http://'' @ pdl_Host d @ path"

definition setIsSelf :: "http_env \<Rightarrow> PeerDownloader \<Rightarrow> go_error option \<times> PeerDownloader" where
  "setIsSelf env d =
     (case fst (RequestBody env (peer_url d ''/uuid'') [WithExpectedContentType ''text/plain'']) of
        Inl err \<Rightarrow> (Some err, d)
      | Inr content \<Rightarrow>
          let peerUUID = TrimSpace (string_of content) in (None, d\<lparr>pdl_IsSelf := (pdl_UUID d = peerUUID)\<rparr>))"

definition verifyChecksum :: "http_env \<Rightarrow> PeerDownloader \<Rightarrow> bool result" where
  "verifyChecksum env d =
     (case fst (RequestBody env (peer_url d ''/manifest/checksum'') [WithExpectedContentType ''text/plain'']) of
        Inl err \<Rightarrow> Inl err
      | Inr content \<Rightarrow>
          (case ParseUint (string_of content) of
             Inl err \<Rightarrow> Inl err
           | Inr checksum \<Rightarrow> Inr (GetManifestChecksum (pdl_ChunkManager d) = checksum)))"

definition PeerDownloader_Name :: "PeerDownloader \<Rightarrow> string" where
  "PeerDownloader_Name d = ''Peer:'' @ pdl_Host d"

definition PeerDownloader_IsValid :: "PeerDownloader \<Rightarrow> bool" where
  "PeerDownloader_IsValid d \<longleftrightarrow> \<not> pdl_IsSelf d"

definition PeerDownloader_Fin :: "PeerDownloader \<Rightarrow> PeerDownloader" where
  "PeerDownloader_Fin d = d\<lparr>pdl_updateCancelled := True, pdl_IsSelf := True\<rparr>"

text \<open>
  \<open>RequestDownload\<close>; \<open>compressType\<close> is the flag. A digest that cannot be parsed is an error; the reader
  is returned with it, but the callers drop it.
\<close>

definition PeerDownloader_RequestDownload ::
  "http_env \<Rightarrow> string \<Rightarrow> nat \<Rightarrow> bool \<Rightarrow> PeerDownloader \<Rightarrow> (uint64 \<times> ReadCloser) result" where
  "PeerDownloader_RequestDownload env compressType chunkIndex withChecksum d =
     (let url = peer_url d (''/chunk/'' @ FormatNat chunkIndex);
          options = [WithAcceptEncodingType compressType, WithExpectedContentType ''application/octet-stream''] in
      if withChecksum then
        (case fst (HttpClient_Request env url (options @ [WithWantDigest DefaultDigest])) of
           Inl err \<Rightarrow> Inl err
         | Inr (h, readCloser) \<Rightarrow> map_sum id (\<lambda>checksum. (checksum, readCloser)) (ParseDigest h))
      else
        (case fst (HttpClient_Request env url options) of
           Inl err \<Rightarrow> Inl err
         | Inr (h, readCloser) \<Rightarrow> Inr (0, readCloser)))"

text \<open>
  \<open>markChunkAsReady\<close>. The index comes from the peer and is not checked: outside the list the access
  panics, which ends the program (\<open>IndexPanic\<close>).
\<close>

definition markChunkAsReady :: "int \<Rightarrow> PeerDownloader \<Rightarrow> (bool \<times> PeerDownloader) result" where
  "markChunkAsReady chunkIndex d =
     (if chunkIndex < 0 \<or> int (length (pdl_AvailableChunkList d)) \<le> chunkIndex then Inl IndexPanic
      else if pdl_AvailableChunkList d ! nat chunkIndex = AvailableChunkNotReady
      then Inr (True, d\<lparr>pdl_AvailableChunkList := (pdl_AvailableChunkList d)[nat chunkIndex := AvailableChunkReady],
                        pdl_AvailableChunkCount := pdl_AvailableChunkCount d + 1\<rparr>)
      else Inr (False, d))"

fun mark_chunks :: "int list \<Rightarrow> nat list \<Rightarrow> PeerDownloader \<Rightarrow> (nat list \<times> PeerDownloader) result" where
  "mark_chunks [] indexList d = Inr (indexList, d)"
| "mark_chunks (i # is) indexList d =
     (case markChunkAsReady i d of
        Inl err \<Rightarrow> Inl err
      | Inr (ready, d') \<Rightarrow> mark_chunks is (if ready then indexList @ [nat i] else indexList) d')"

definition AvailableList_field :: "time_codec \<Rightarrow> string \<Rightarrow> json \<Rightarrow> AvailableList \<Rightarrow> AvailableList result" where
  "AvailableList_field tm k j al =
     (if k = ''timestamp'' then
        (case j of
           JNull \<Rightarrow> Inr al
         | JStr s \<Rightarrow> map_sum id (\<lambda>t. al\<lparr>al_Timestamp := t\<rparr>) (tm_Parse tm s)
         | _ \<Rightarrow> type_error)
      else if k = ''iscompleted'' then map_sum id (\<lambda>b. al\<lparr>al_IsCompleted := b\<rparr>) (decode_bool j (al_IsCompleted al))
      else if k = ''transferchunkindexlist''
      then map_sum id (\<lambda>is. al\<lparr>al_TransferChunkIndexList := is\<rparr>) (decode_slice (\<lambda>j. decode_int64 j 0) j)
      else Inr al)"

definition Unmarshal_AvailableList :: "time_codec \<Rightarrow> string \<Rightarrow> AvailableList result" where
  "Unmarshal_AvailableList tm content =
     (case parse_json content of
        None \<Rightarrow> Inl (Error ''invalid JSON'')
      | Some j \<Rightarrow>
          decode_struct (AvailableList_field tm) j \<lparr>al_Timestamp = 0, al_IsCompleted = False, al_TransferChunkIndexList = []\<rparr>)"

text \<open>\<open>UpdatePeerAvailableList\<close>; \<open>draw\<close> is the generator of the shuffle.\<close>

definition list_url :: "time_codec \<Rightarrow> PeerDownloader \<Rightarrow> string" where
  "list_url tm d = peer_url d (''/chunk?only_updated_since='' @ QueryEscape (tm_Format tm (pdl_LastUpdatedAt d)))"

definition UpdatePeerAvailableList ::
  "http_env \<Rightarrow> time_codec \<Rightarrow> string \<Rightarrow> (nat \<Rightarrow> nat) \<Rightarrow> PeerDownloader \<Rightarrow> go_error option \<times> PeerDownloader" where
  "UpdatePeerAvailableList env tm compressType draw d =
     (case fst (RequestBody env (list_url tm d)
             [WithAcceptEncodingType compressType, WithExpectedContentType ''application/json'']) of
        Inl err \<Rightarrow> (Some err, d)
      | Inr content \<Rightarrow>
      case Unmarshal_AvailableList tm (string_of content) of
        Inl err \<Rightarrow> (Some err, d)
      | Inr availableList \<Rightarrow>
          let d1 = d\<lparr>pdl_LastUpdatedAt := al_Timestamp availableList\<rparr> in
          case mark_chunks
                 (if al_IsCompleted availableList then map int [0..<GetChunkCount (pdl_ChunkManager d)]
                  else al_TransferChunkIndexList availableList) [] d1 of
            Inl err \<Rightarrow> (Some err, d1)
          | Inr (indexList, d2) \<Rightarrow> (None, d2\<lparr>pdl_Queue := PushShuffledList draw indexList (pdl_Queue d2)\<rparr>))"

text \<open>
  One round of the update goroutine, with its two flags; what it asks of the rest of the program is
  the third component: nothing, or the exit code 1 with the cancellation of the download.
\<close>

record update_state =
  us_d :: PeerDownloader
  us_isSelfInit :: bool
  us_isValidInit :: bool
  us_abort :: bool

definition update_self :: "http_env \<Rightarrow> update_state \<Rightarrow> bool \<times> update_state" where
  "update_self env s =
     (if us_isSelfInit s then (True, s)
      else case setIsSelf env (us_d s) of
        (Some err, d) \<Rightarrow> (False, s\<lparr>us_d := d\<rparr>)
      | (None, d) \<Rightarrow>
          if pdl_IsSelf d then (False, s\<lparr>us_d := d\<lparr>pdl_updateCancelled := True\<rparr>\<rparr>)
          else (True, s\<lparr>us_d := d, us_isSelfInit := True\<rparr>))"

definition update_valid :: "http_env \<Rightarrow> update_state \<Rightarrow> bool \<times> update_state" where
  "update_valid env s =
     (if us_isValidInit s then (True, s)
      else case verifyChecksum env (us_d s) of
        Inl err \<Rightarrow> (False, s)
      | Inr False \<Rightarrow> (False, s\<lparr>us_d := (us_d s)\<lparr>pdl_updateCancelled := True\<rparr>, us_abort := True\<rparr>)
      | Inr True \<Rightarrow> (True, s\<lparr>us_isValidInit := True\<rparr>))"

definition update_round ::
  "http_env \<Rightarrow> time_codec \<Rightarrow> string \<Rightarrow> (nat \<Rightarrow> nat) \<Rightarrow> update_state \<Rightarrow> update_state" where
  "update_round env tm compressType draw s =
     (case update_self env s of
        (False, s1) \<Rightarrow> s1
      | (True, s1) \<Rightarrow>
      case update_valid env s1 of
        (False, s2) \<Rightarrow> s2
      | (True, s2) \<Rightarrow>
          (case UpdatePeerAvailableList env tm compressType draw (us_d s2) of
             (Some err, d) \<Rightarrow> s2\<lparr>us_d := d\<rparr>
           | (None, d) \<Rightarrow>
               if pdl_AvailableChunkCount d = int (GetChunkCount (pdl_ChunkManager d))
               then s2\<lparr>us_d := d\<lparr>pdl_updateCancelled := True\<rparr>\<rparr> else s2\<lparr>us_d := d\<rparr>))"

text \<open>The goroutine: rounds until the update context is cancelled, by a round or from outside.\<close>

fun update_rounds ::
  "time_codec \<Rightarrow> string \<Rightarrow> (http_env \<times> (nat \<Rightarrow> nat)) list \<Rightarrow> update_state \<Rightarrow> update_state" where
  "update_rounds tm compressType [] s = s"
| "update_rounds tm compressType ((env, draw) # ticks) s =
     (let s' = update_round env tm compressType draw s in
      if pdl_updateCancelled (us_d s') then s' else update_rounds tm compressType ticks s')"

section \<open>local_downloader.go\<close>

record 'w LocalDownloader =
  ldl_chunkManager :: ChunkManager
  ldl_queue :: ChunkQueue
  ldl_dirSrc :: "'w Storage"

definition NewLocalDownloader :: "(nat \<Rightarrow> nat) \<Rightarrow> ChunkManager \<Rightarrow> 'w Storage \<Rightarrow> 'w LocalDownloader" where
  "NewLocalDownloader draw cm dirSrc =
     \<lparr>ldl_chunkManager = cm, ldl_queue = PushShuffledList draw [0..<GetChunkCount cm] NewChunkQueue, ldl_dirSrc = dirSrc\<rparr>"

definition LocalDownloader_Name :: "'w LocalDownloader \<Rightarrow> string" where
  "LocalDownloader_Name d = ''Local''"

definition LocalDownloader_IsValid :: "'w LocalDownloader \<Rightarrow> bool" where
  "LocalDownloader_IsValid d = True"

text \<open>\<open>RequestDownload\<close>; the checksum is cached in the chunk manager. \<open>None\<close> if the hashing never ends.\<close>

definition LocalDownloader_RequestDownload ::
  "(byte list \<Rightarrow> uint64) \<Rightarrow> nat \<Rightarrow> bool \<Rightarrow> 'w \<Rightarrow> 'w LocalDownloader \<Rightarrow>
     ((uint64 \<times> chunkReadCloser) result \<times> 'w LocalDownloader) option" where
  "LocalDownloader_RequestDownload hash chunkIndex withChecksum w d =
     (if withChecksum then
        map_option (\<lambda>((checksum, err), cm).
            (case err of Some e \<Rightarrow> Inl e | None \<Rightarrow> Inr (checksum, GetChunkReader chunkIndex),
             d\<lparr>ldl_chunkManager := cm\<rparr>))
          (ComputeChunkChecksum hash (ldl_dirSrc d) chunkIndex w (ldl_chunkManager d))
      else Some (Inr (0, GetChunkReader chunkIndex), d))"

end
