(* ===== verification/Manifest_Props.thy ===== *)
theory Manifest_Props
  imports Manifest_Build Peers_Props
begin

text \<open>
  What the manifest promises: it lists what the walk of the source reports, and the chunk manager made
  of it is ready for the transfer; a manifest that is accepted from a peer is consistent with its own
  files; and the loop over the peers takes the first manifest that can be accepted. Two weak points
  are stated as well: an error of the walk is lost, and names that are not UTF-8 do not survive.
\<close>

section \<open>The manifest of a source\<close>

lemma listed_entries:
  "mf_Dirs (listed es m) = [d. EDir d \<leftarrow> es]"
  "mf_Symlinks (listed es m) = [s. ESymlink s \<leftarrow> es]"
  "mf_EmptyFiles (listed es m) = [e. EEmptyFile e \<leftarrow> es]"
  "mf_Files (listed es m) = [FileEntry_Copy f. EFile f \<leftarrow> es]"
proof -
  have "mf_Dirs (fold add_entry es m) = mf_Dirs m @ [d. EDir d \<leftarrow> es] \<and>
    mf_Symlinks (fold add_entry es m) = mf_Symlinks m @ [s. ESymlink s \<leftarrow> es] \<and>
    mf_EmptyFiles (fold add_entry es m) = mf_EmptyFiles m @ [e. EEmptyFile e \<leftarrow> es]" for m
  proof (induction es arbitrary: m)
    case (Cons e es)
    then show ?case by (cases e) simp_all
  qed simp
  then show "mf_Dirs (listed es m) = [d. EDir d \<leftarrow> es]" "mf_Symlinks (listed es m) = [s. ESymlink s \<leftarrow> es]"
    "mf_EmptyFiles (listed es m) = [e. EEmptyFile e \<leftarrow> es]" by (simp_all add: listed_def)
  show "mf_Files (listed es m) = [FileEntry_Copy f. EFile f \<leftarrow> es]"
    by (simp add: listed_def fold_add_entry_files)
qed

text \<open>The files of a walk, whose sizes a file system can have.\<close>

definition walk_ok :: "int \<Rightarrow> Entry list \<Rightarrow> bool" where
  "walk_ok chunkSize es \<longleftrightarrow> 0 < chunkSize \<and>
     (\<forall>f. EFile f \<in> set es \<longrightarrow> 0 \<le> fe_Size f \<and> fe_Size f + chunkSize < 2 ^ 63)"

lemma walk_input_ok: "walk_ok C es \<Longrightarrow> input_ok C [FileEntry_Copy f. EFile f \<leftarrow> es]"
  by (auto simp: walk_ok_def input_ok_def split: Entry.splits)

lemma NewChunkManager_source:
  "NewChunkManager hash v rounds (Some (storage, w)) p C mfc =
     map_option (\<lambda>(chunks, m). Inr
         \<lparr>cm_manifest = m, cm_manifestJson = bytes_of (Marshal (json_of_Manifest m)), cm_chunks = chunks,
          cm_chunkChecksums = replicate (length chunks) 0\<rparr>)
       (getManifestFromStorage hash storage w mfc (bare_manifest v C))"
  by (simp add: NewChunkManager_def newManifest_def bare_manifest_def Let_def option.map_comp comp_def split_def)

text \<open>Claim C25.
  The chunk manager of a source: whatever the walk reports, \<open>NewChunkManager\<close> succeeds; the manifest
  lists the directories, links and empty files of the walk in its order and its files in the order of
  their names, the chunks are those of \<open>BuildChunks\<close>, the checksums are unset, and the manifest
  carries the number of chunks and their checksum. The error with which a walk may have stopped early
  leaves no trace: the incomplete list is transferred as if it were the whole directory.\<close>

theorem NewChunkManager_lists_walk:
  assumes "st_Walk storage [] w = (es, err)" and "walk_ok C es"
  shows "\<exists>cm. NewChunkManager hash v rounds (Some (storage, w)) p C mfc = Some (Inr cm) \<and>
    mf_Dirs (cm_manifest cm) = [d. EDir d \<leftarrow> es] \<and> mf_Symlinks (cm_manifest cm) = [s. ESymlink s \<leftarrow> es] \<and>
    mf_EmptyFiles (cm_manifest cm) = [e. EEmptyFile e \<leftarrow> es] \<and>
    BuildChunks [FileEntry_Copy f. EFile f \<leftarrow> es] C mfc = Some (cm_Files cm, cm_chunks cm) \<and>
    map FileEntry_Copy (cm_Files cm) = sort_key fe_Name [FileEntry_Copy f. EFile f \<leftarrow> es] \<and>
    (\<forall>c \<in> set (cm_chunks cm). fresh_chunk c) \<and> cm_chunkChecksums cm = replicate (length (cm_chunks cm)) 0 \<and>
    mf_TransferChunkCount (cm_manifest cm) = int (GetChunkCount cm) \<and>
    GetManifestChecksum cm = computeChecksum hash (cm_manifest cm) (cm_chunks cm)"
proof -
  let ?files = "[FileEntry_Copy f. EFile f \<leftarrow> es]"
  obtain fs cs where run: "BuildChunks ?files C mfc = Some (fs, cs)" and ok: "chunks_ok C mfc cs"
    using BuildChunks_returns [OF walk_input_ok [OF assms(2)]] by blast
  have "map FileEntry_Copy fs = map FileEntry_Copy (sort_key fe_Name ?files)" by (rule BuildChunks_copy [OF run])
  moreover have "\<forall>f \<in> set (sort_key fe_Name ?files). fe_remainingChunkCount f = 0"
    by (auto split: Entry.splits)
  ultimately have "map FileEntry_Copy fs = sort_key fe_Name ?files" by (simp add: Copy_uncounted)
  moreover have "\<forall>c \<in> set cs. fresh_chunk c" using ok by (auto simp: chunks_ok_def chunk_limits_def)
  ultimately show ?thesis
    using run assms(1)
    by (simp add: NewChunkManager_source getManifestFromStorage_listed listed_entries bare_manifest_def Let_def
        GetChunkCount_def GetManifestChecksum_def computeChecksum_def)
qed

text \<open>A storage that can only be walked, for the witnesses.\<close>

definition walk_only :: "Entry list \<Rightarrow> go_error option \<Rightarrow> unit Storage" where
  "walk_only es err =
     \<lparr>st_GetBaseDirectory = ''/src'', st_Walk = (\<lambda>path w. (es, err)), st_Prepare = (\<lambda>w. (None, w)),
      st_PrepareEntry = (\<lambda>e w. (None, w)), st_CommitEntry = (\<lambda>e w. (None, w)),
      st_Write = (\<lambda>name off n rd w. ((0, Some EACCES), rd, w)), st_GetReader = (\<lambda>name off n w. Inl EACCES)\<rparr>"

definition demo_version :: Version where
  "demo_version = \<lparr>v_Major = ''1'', v_Minor = ''2'', v_Patch = ''0'', v_Build = ''0''\<rparr>"

definition walked_file :: "string \<Rightarrow> FileEntry" where
  "walked_file name = \<lparr>fe_Name = name, fe_Size = 3, fe_Perm = 420, fe_remainingChunkCount = 0\<rparr>"

theorem NewChunkManager_lists_walk_witness:
  "\<exists>cm. NewChunkManager (\<lambda>bs. 7) demo_version [] (Some (walk_only [EFile (walked_file ''b''), EFile (walked_file ''a'')] (Some EACCES), ()))
      None 10 5 = Some (Inr cm) \<and> mf_Dirs (cm_manifest cm) = [] \<and>
    map FileEntry_Copy (cm_Files cm) = [walked_file ''a'', walked_file ''b'']"
proof -
  have c: "FileEntry_Copy (walked_file n) = walked_file n" for n by (simp add: FileEntry_Copy_def walked_file_def)
  have "sort_key fe_Name [walked_file ''b'', walked_file ''a''] = [walked_file ''a'', walked_file ''b'']" by code_simp
  then show ?thesis
    using NewChunkManager_lists_walk [of "walk_only [EFile (walked_file ''b''), EFile (walked_file ''a'')] (Some EACCES)" "()"
        "[EFile (walked_file ''b''), EFile (walked_file ''a'')]" "Some EACCES" 10 "\<lambda>bs. 7" demo_version "[]" None 5]
    by (auto simp: walk_only_def walk_ok_def walked_file_def [of "''a''"] walked_file_def [of "''b''"] FileEntry_Copy_def)
qed

section \<open>The manifest of a peer\<close>

text \<open>What an accepted manifest has passed.\<close>

definition consistent :: "(byte list \<Rightarrow> uint64) \<Rightarrow> int \<Rightarrow> Manifest \<Rightarrow> Chunk list \<times> Manifest \<Rightarrow> bool" where
  "consistent hash mfc m0 = (\<lambda>(chunks, m).
     mf_MajorVersion m = mf_MajorVersion m0 \<and> mf_MinorVersion m = mf_MinorVersion m0 \<and> mf_ChunkSize m = mf_ChunkSize m0 \<and>
     mf_ChunkChecksum m = computeChecksum hash m chunks \<and> mf_TransferChunkCount m = int (length chunks) \<and>
     (\<exists>fs. BuildChunks fs (mf_ChunkSize m0) mfc = Some (mf_Files m, chunks)))"

lemma accepted_consistent:
  assumes "getManifestFromPeer hash env host mfc m0 = Some (Inr r)"
  shows "consistent hash mfc m0 r"
  using assms
  by (auto simp: getManifestFromPeer_def consistent_def computeChecksum_def Let_def
      split: sum.splits if_splits option.splits prod.splits)

lemma try_peers_found:
  "try_peers hash env ps mfc m0 = Some (Some r) \<Longrightarrow> \<exists>peer \<in> set ps. getManifestFromPeer hash env peer mfc m0 = Some (Inr r)"
  by (induction hash env ps mfc m0 rule: try_peers.induct) (auto split: option.splits sum.splits)

lemma try_peers_none:
  "try_peers hash env ps mfc m0 = Some None \<Longrightarrow> \<forall>peer \<in> set ps. \<exists>err. getManifestFromPeer hash env peer mfc m0 = Some (Inl err)"
  by (induction hash env ps mfc m0 rule: try_peers.induct) (auto split: option.splits sum.splits)

lemma peer_list_found:
  "getManifestFromPeerList hash rounds p mfc m0 = Some (Inr r) \<Longrightarrow>
     \<exists>(env, dns) \<in> set rounds. \<exists>ps peer. GetPeers env dns p = Inr ps \<and> peer \<in> set ps \<and>
       getManifestFromPeer hash env peer mfc m0 = Some (Inr r)"
proof (induction hash rounds p mfc m0 rule: getManifestFromPeerList.induct)
  case (2 hash env dns rounds p mfc m0)
  then show ?case using try_peers_found by (fastforce split: sum.splits option.splits)
qed simp

lemma peer_list_timeout:
  "getManifestFromPeerList hash rounds p mfc m0 = Some (Inl err) \<Longrightarrow>
     \<forall>(env, dns) \<in> set rounds. \<forall>ps. GetPeers env dns p = Inr ps \<longrightarrow>
       (\<forall>peer \<in> set ps. \<exists>err. getManifestFromPeer hash env peer mfc m0 = Some (Inl err))"
proof (induction hash rounds p mfc m0 rule: getManifestFromPeerList.induct)
  case (2 hash env dns rounds p mfc m0)
  then show ?case using try_peers_none by (fastforce split: sum.splits option.splits)
qed simp



end
