(* ===== verification/Network.thy ===== *)
theory Network
  imports Peer_Downloader Manifest_Props
begin

text \<open>
  A client and a server together: \<open>connected\<close> is the network in which one host runs the server of
  \<open>Http_Server\<close>, so that the requests of the client and of the peer downloader are answered by the
  handlers. The lemmas compute what each request of the program receives.
\<close>

definition connected ::
  "(byte list \<Rightarrow> uint64) \<Rightarrow> http_env \<Rightarrow> time_codec \<Rightarrow> string \<Rightarrow> 'w server \<Rightarrow> http_env" where
  "connected hash env tm host sv = env\<lparr>ev_Do := \<lambda>rq.
     case url_Parse (rq_url rq) of
       Inl err \<Rightarrow> Inl err
     | Inr u \<Rightarrow>
         if url_Host u \<noteq> host then Inl (Error ''no such host'')
         else (case ServeHTTP hash env tm
                  \<lparr>sr_path = url_Path u, sr_query = ParseQuery (url_RawQuery u), sr_header = rq_header rq\<rparr> sv of
                 None \<Rightarrow> Inl (Error ''timeout'')
               | Some (response, sv') \<Rightarrow> Inr response)\<rparr>"

section \<open>URLs with a path\<close>

definition path_char :: "char \<Rightarrow> bool" where
  "path_char c \<longleftrightarrow> plain_char c \<or> c = CHR ''/''"

lemma path_char_not:
  assumes "path_char c"
  shows "c \<noteq> CHR ''?''" "c \<noteq> CHR ''#''" "c \<noteq> CHR ''%''" "\<not> ctl_byte c"
  using assms plain_char_not by (auto simp: path_char_def ctl_byte_def)

lemma unescape_path: "\<forall>c \<in> set s. path_char c \<Longrightarrow> unescape encodePath s = Some s"
proof (induction s)
  case (Cons c cs)
  then show ?case using path_char_not [of c] by auto
qed simp

definition with_query :: "string option \<Rightarrow> string" where
  "with_query q = (case q of None \<Rightarrow> [] | Some s \<Rightarrow> CHR ''?'' # s)"

lemma cut_at_app: "sep \<notin> set a \<Longrightarrow> cut_at sep (a @ sep # b) = (a, b)"
  using while_not_sep [of sep a b] by (simp add: cut_at_def)

lemma url_Parse_path:
  assumes h: "plain_host h" and p: "\<forall>port. p = Some port \<longrightarrow> plain_port port"
    and path: "hd path = CHR ''/''" "path \<noteq> []" "\<forall>c \<in> set path. path_char c"
    and q: "\<forall>s. q = Some s \<longrightarrow> CHR ''#'' \<notin> set s \<and> (\<forall>c \<in> set s. \<not> ctl_byte c)"
  shows "url_Parse (''http://'' @ address h p @ path @ with_query q) =
    Inr \<lparr>url_Scheme = ''http'', url_Host = address h p, url_Path = path,
         url_RawQuery = (case q of None \<Rightarrow> [] | Some s \<Rightarrow> s)\<rparr>"
proof -
  let ?a = "address h p" and ?q = "with_query q"
  obtain rest where rest: "path = CHR ''/'' # rest" using path(1,2) by (cases path) auto
  have chars: "\<forall>c \<in> set ?a. plain_char c" using address_chars [OF h p] by blast
  have not_in: "CHR ''#'' \<notin> set ?a" "CHR ''?'' \<notin> set ?a" "CHR ''@'' \<notin> set ?a" "CHR ''/'' \<notin> set ?a"
    using plain_notin [OF chars] not_plain by simp_all
  have p_not: "CHR ''#'' \<notin> set path" "CHR ''?'' \<notin> set path" using path(3) path_char_not(1,2) by blast+
  have ctl: "\<forall>c \<in> set ?a. \<not> ctl_byte c" "\<forall>c \<in> set path. \<not> ctl_byte c"
    using chars plain_char_not(8) path(3) path_char_not(4) by blast+
  have ctl_q: "\<forall>c \<in> set ?q. \<not> ctl_byte c" using q by (auto simp: with_query_def ctl_byte_def split: option.splits)
  have sch: "getScheme (''http://'' @ ?a @ path @ ?q) [] (''http://'' @ ?a @ path @ ?q) = Some (''http'', ''//'' @ ?a @ path @ ?q)"
    by (simp add: is_alpha_def)
  have "parseAuthority ?a = Some ?a" using not_in(3) parseHost_address [OF h p] by (simp add: parseAuthority_def)
  moreover have "takeWhile (\<lambda>c. c \<noteq> CHR ''/'') (?a @ path) = ?a" "dropWhile (\<lambda>c. c \<noteq> CHR ''/'') (?a @ path) = path"
    using while_not_sep [OF not_in(4), of rest] by (simp_all add: rest)
  moreover have "unescape encodePath path = Some path" by (rule unescape_path [OF path(3)])
  moreover have "cut_at (CHR ''?'') (''//'' @ ?a @ path @ ?q) = (''//'' @ ?a @ path, case q of None \<Rightarrow> [] | Some s \<Rightarrow> s)"
    using not_in(2) p_not(2) cut_at_none [of "CHR ''?''" "''//'' @ ?a @ path"]
      cut_at_app [of "CHR ''?''" "''//'' @ ?a @ path" "the q"]
    by (cases q) (simp_all add: with_query_def)
  moreover have "ToLower ''http'' = ''http''" by (simp add: ToLower_def lower_def)
  moreover have "\<not> (\<exists>c \<in> set (''http://'' @ ?a @ path @ ?q). ctl_byte c)"
  proof -
    have "\<forall>c \<in> set ''http://''. \<not> ctl_byte c" by (simp add: ctl_byte_def)
    then show ?thesis using ctl ctl_q unfolding set_append by blast
  qed
  ultimately have "parse_url (''http://'' @ ?a @ path @ ?q) =
      Some \<lparr>url_Scheme = ''http'', url_Host = ?a, url_Path = path, url_RawQuery = (case q of None \<Rightarrow> [] | Some s \<Rightarrow> s)\<rparr>"
    using sch by (simp add: parse_url_def HasPrefix_def)
  moreover have "CHR ''#'' \<notin> set ?q" using q by (auto simp: with_query_def split: option.splits)
  then have "cut_at (CHR ''#'') (''http://'' @ ?a @ path @ ?q) = (''http://'' @ ?a @ path @ ?q, [])"
    using not_in(1) p_not(1) by (intro cut_at_none) auto
  ultimately show ?thesis by (simp add: url_Parse_def)
qed

section \<open>What the requests receive\<close>

text \<open>The request that the client sends, and the answer of a connected host to it.\<close>

definition client_request :: "string \<Rightarrow> Option list \<Rightarrow> Request" where
  "client_request url options = request_of (fold (\<lambda>option c. option c) options config0) url"

definition peer_ok :: "string \<Rightarrow> string option \<Rightarrow> bool" where
  "peer_ok h p \<longleftrightarrow> plain_host h \<and> (\<forall>port. p = Some port \<longrightarrow> plain_port port)"

lemma connected_answer:
  assumes "peer_ok h p" and "hd path = CHR ''/''" "path \<noteq> []" "\<forall>c \<in> set path. path_char c"
    and "\<forall>s. q = Some s \<longrightarrow> CHR ''#'' \<notin> set s \<and> (\<forall>c \<in> set s. \<not> ctl_byte c)"
    and "rq_url rq = ''http://'' @ address h p @ path @ with_query q"
    and "ServeHTTP hash env tm
      \<lparr>sr_path = path, sr_query = ParseQuery (case q of None \<Rightarrow> [] | Some s \<Rightarrow> s), sr_header = rq_header rq\<rparr> sv = Some (resp, sv')"
  shows "ev_Do (connected hash env tm (address h p) sv) rq = Inr resp"
proof -
  note u = url_Parse_path [OF conjunct1 [OF assms(1) [unfolded peer_ok_def]]
      conjunct2 [OF assms(1) [unfolded peer_ok_def]] assms(2-5)]
  show ?thesis using u assms(7) by (simp add: connected_def assms(6))
qed

text \<open>A successful answer of an accepted type is what the client delivers.\<close>

lemma HttpClient_request_ok:
  assumes "ev_Do env (client_request url options) = Inr resp"
    and "200 \<le> rs_StatusCode resp" "rs_StatusCode resp < 300"
    and "checkContentType (rs_Header resp) (cf_expectedContentType (fold (\<lambda>option c. option c) options config0)) = None"
  shows "HttpClient_request env url options =
    (Inr (rs_Header resp, NewEncodingReadCloser env \<lparr>rc_reader = rs_Body resp, rc_close = [BodyClosed]\<rparr>
       (TrimSpace (Header_Get (rs_Header resp) ''Content-Encoding''))), [])"
  using assms by (simp add: HttpClient_request_def client_request_def Let_def)

lemma RequestBody_ok:
  assumes "ev_Do env (client_request url options) = Inr resp"
    and "200 \<le> rs_StatusCode resp" "rs_StatusCode resp < 300"
    and "checkContentType (rs_Header resp) (cf_expectedContentType (fold (\<lambda>option c. option c) options config0)) = None"
    and "rd_fin (rs_Body resp) = EOF"
    and "TrimSpace (Header_Get (rs_Header resp) ''Content-Encoding'') \<noteq> EncodingTypeZstd"
  shows "fst (RequestBody env url options) = Inr (rd_data (rs_Body resp))"
  using assms(5,6) HttpClient_request_ok [OF assms(1-4)]
  by (simp add: RequestBody_def RequestBodyWithContext_def NewEncodingReadCloser_def ReadAll_def)

lemma content_types [simp]:
  "checkContentType (Map.empty(''Content-Type'' \<mapsto> [''application/json; charset=utf-8''])) ''application/json'' = None"
  "checkContentType (Map.empty(''Content-Type'' \<mapsto> [''text/plain; charset=utf-8''])) ''text/plain'' = None"
  "checkContentType (Map.empty(''Content-Type'' \<mapsto> [''application/octet-stream''])) ''application/octet-stream'' = None"
  by code_simp+

text \<open>Only the content type of a header matters for the check.\<close>

lemma checkContentType_only: "checkContentType h e = checkContentType (Map.empty(''Content-Type'' := h ''Content-Type'')) e"
  by (simp add: checkContentType_def)

lemma checkContentType_sent:
  "h ''Content-Type'' = Some [''application/json; charset=utf-8''] \<Longrightarrow> checkContentType h ''application/json'' = None"
  "h ''Content-Type'' = Some [''text/plain; charset=utf-8''] \<Longrightarrow> checkContentType h ''text/plain'' = None"
  "h ''Content-Type'' = Some [''application/octet-stream''] \<Longrightarrow> checkContentType h ''application/octet-stream'' = None"
  using content_types by (subst checkContentType_only; simp)+

lemma trim_encodings [simp]:
  "TrimSpace [] = []" "TrimSpace EncodingTypeZstd = EncodingTypeZstd" "TrimSpace EncodingTypeNone = EncodingTypeNone"
  by (code_simp)+

lemma EncodingTypeZstd_not_Nil [simp]: "EncodingTypeZstd \<noteq> []" "[] \<noteq> EncodingTypeZstd"
  by (simp_all add: EncodingTypeZstd_def)

text \<open>The encoding that a server chooses for a request of this program.\<close>

lemma preferred_of_request:
  "GetPreferredEncodingType (Header_values (rq_header (client_request url options)) ''Accept-Encoding'') =
     (if cf_acceptEncodingType (fold (\<lambda>option c. option c) options config0) = EncodingTypeZstd
      then EncodingTypeZstd else EncodingTypeNone)"
proof -
  have z: "Split (CHR '','') EncodingTypeZstd = [EncodingTypeZstd]" by code_simp
  have "GetPreferredEncodingType [EncodingTypeZstd] = EncodingTypeZstd" "GetPreferredEncodingType [] = EncodingTypeNone"
    using prefer_headers_iff [of EncodingTypeNone "[EncodingTypeZstd]"] prefer_headers_iff [of EncodingTypeNone "[]"]
    by (simp_all add: GetPreferredEncodingType_def z)
  then show ?thesis
    by (simp add: client_request_def request_of_def Header_values_def Header_Set_def Let_def)
qed

lemma preferred_cases: "GetPreferredEncodingType vs \<in> {EncodingTypeNone, EncodingTypeZstd}"
  using prefer_headers_iff [of EncodingTypeNone vs] by (simp add: GetPreferredEncodingType_def)

lemma serve_manifest:
  assumes "Header_values h ''Accept-Encoding'' = [] \<or> GetPreferredEncodingType (Header_values h ''Accept-Encoding'') = EncodingTypeNone"
  shows "\<exists>resp sv'. ServeHTTP hash env tm \<lparr>sr_path = ''/manifest'', sr_query = q, sr_header = h\<rparr> sv = Some (resp, sv') \<and>
    rs_StatusCode resp = 200 \<and> rs_Header resp ''Content-Type'' = Some [''application/json; charset=utf-8''] \<and>
    rs_Header resp ''Content-Encoding'' = None \<and>
    rs_Body resp = \<lparr>rd_data = GetManifestJson (sv_ChunkManager sv), rd_fin = EOF\<rparr>"
proof -
  have "GetPreferredEncodingType (Header_values h ''Accept-Encoding'') = EncodingTypeNone"
    using assms by (auto simp: GetPreferredEncodingType_def)
  then show ?thesis
    by (simp add: ServeHTTP_def handle_manifest_def encodedResponse_def setEncodingType_def NewBufferEncodingReader_def
        wrapped_def response_of_def w_Write_def w_WriteHeader_def w_Set_def Header_Set_def NewResponseWriter_def Let_def
        response_body_exact Header_Get_def)
qed

lemma manifest_path: "hd ''/manifest'' = CHR ''/''" "''/manifest'' \<noteq> []" "\<forall>c \<in> set ''/manifest''. path_char c"
  by (simp_all add: path_char_def plain_char_def is_alpha_def)

text \<open>The manifest that a connected server delivers.\<close>

lemma fetch_manifest:
  assumes "peer_ok h p"
  shows "Request_default (connected hash env tm (address h p) sv) (''http://'' @ address h p @ ''/manifest'')
      [WithExpectedContentType ''application/json''] = Inr (GetManifestJson (sv_ChunkManager sv))"
proof -
  let ?opts = "[WithExpectedContentType ''application/json'']" and ?url = "''http://'' @ address h p @ ''/manifest''"
  let ?env = "connected hash env tm (address h p) sv"
  have cfg: "cf_acceptEncodingType (fold (\<lambda>option c. option c) ?opts config0) = EncodingTypeNone"
    "cf_expectedContentType (fold (\<lambda>option c. option c) ?opts config0) = ''application/json''"
    by (simp_all add: WithExpectedContentType_def config0_def)
  have enc: "GetPreferredEncodingType (Header_values (rq_header (client_request ?url ?opts)) ''Accept-Encoding'') = EncodingTypeNone"
    by (simp only: preferred_of_request cfg) simp
  obtain resp sv' where run: "ServeHTTP hash env tm
      \<lparr>sr_path = ''/manifest'', sr_query = ParseQuery [], sr_header = rq_header (client_request ?url ?opts)\<rparr> sv = Some (resp, sv')"
    and resp: "rs_StatusCode resp = 200" "rs_Header resp ''Content-Type'' = Some [''application/json; charset=utf-8'']"
      "rs_Header resp ''Content-Encoding'' = None"
      "rs_Body resp = \<lparr>rd_data = GetManifestJson (sv_ChunkManager sv), rd_fin = EOF\<rparr>"
    using serve_manifest [OF disjI2 [OF enc]] by blast
  have "rq_url (client_request ?url ?opts) = ?url" by (simp add: client_request_def request_of_def Let_def)
  then have "ev_Do ?env (client_request ?url ?opts) = Inr resp"
    using connected_answer [OF assms manifest_path, of None "client_request ?url ?opts" hash env tm sv resp sv'] run
    by (simp add: with_query_def)
  then have "fst (RequestBody ?env ?url ?opts) = Inr (rd_data (rs_Body resp))"
    using resp cfg(2) checkContentType_sent(1) [of "rs_Header resp"]
    by (intro RequestBody_ok) (simp_all add: Header_Get_def)
  then show ?thesis using resp(4) by (simp add: Request_default_def)
qed

text \<open>A codec of times and a host, for the witnesses.\<close>

definition demo_codec :: time_codec where
  "demo_codec = \<lparr>tm_Format = FormatInt, tm_Parse = Atoi\<rparr>"

lemma seeder_ok: "peer_ok ''seeder'' (Some ''7'')" "address ''seeder'' (Some ''7'') = ''seeder:7''"
  by (simp_all add: peer_ok_def plain_host_def plain_port_def is_alpha_def is_num_def digit_value_def ToLower_def lower_def
      address_def)

end
