(* ===== verification/Network_Props.thy ===== *)
theory Network_Props
  imports Network
begin

text \<open>
  The program as a whole over the network: a peer that joins gets exactly the chunk manager of the
  source, a chunk that is requested arrives with its bytes and its checksum and only when the server
  may serve it, and the list of available chunks.
\<close>

section \<open>The manifest\<close>

text \<open>The manifest that the server delivers is the one the manager was made from.\<close>

lemma join_source:
  assumes "NewChunkManager hash v rounds (Some (storage, w)) provider0 C mfc = Some (Inr cm)"
    and "wf_names (cm_manifest cm)" and "wf_numbers (cm_manifest cm)"
    and "peer_ok h p" and "sv_ChunkManager sv = cm"
    and "GetPeers (connected hash env tm (address h p) sv) dns provider = Inr (address h p # others)"
  shows "NewChunkManager hash v ((connected hash env tm (address h p) sv, dns) # rest) None (Some provider) C mfc =
    Some (Inr cm)"
proof -
  let ?env = "connected hash env tm (address h p) sv"
  obtain chunks m where src: "getManifestFromStorage hash storage w mfc (bare_manifest v C) = Some (chunks, m)"
    and cm: "cm = \<lparr>cm_manifest = m, cm_manifestJson = bytes_of (Marshal (json_of_Manifest m)), cm_chunks = chunks,
          cm_chunkChecksums = replicate (length chunks) 0\<rparr>"
    using assms(1) by (auto simp: NewChunkManager_source)
  have "getManifestFromPeer hash ?env (address h p) mfc (bare_manifest v C) = Some (Inr (chunks, m))"
    using fetched_manifest_agrees [OF src, where host = "address h p" and env = ?env] assms(2,3) fetch_manifest [OF assms(4), of hash env tm sv]
    by (simp add: cm assms(5) GetManifestJson_def)
  then have "getManifestFromPeerList hash ((?env, dns) # rest) provider mfc (bare_manifest v C) = Some (Inr (chunks, m))"
    using assms(6) by simp
  then show ?thesis
    by (simp add: NewChunkManager_def newManifest_def cm flip: bare_manifest_def)
qed

text \<open>Claim C27.
  A peer that joins gets exactly the state of the source: if a server runs with the chunk manager that
  \<open>NewChunkManager\<close> made from a source storage, a process of the same version and configuration that
  finds this server first in its list of peers makes, over the network, an equal chunk manager, with
  the same manifest, the same chunks, all pending, and the same JSON to pass on. The names in the
  storage are assumed to be valid UTF-8 and its sizes to fit.\<close>

theorem joining_peer_gets_source_manager:
  assumes "NewChunkManager hash v rounds (Some (storage, w)) provider0 C mfc = Some (Inr cm)"
    and "wf_names (cm_manifest cm)" and "wf_numbers (cm_manifest cm)"
    and "peer_ok h p" and "sv_ChunkManager sv = cm"
    and "GetPeers (connected hash env tm (address h p) sv) dns provider = Inr (address h p # others)"
  shows "NewChunkManager hash v ((connected hash env tm (address h p) sv, dns) # rest) None (Some provider) C mfc =
    Some (Inr cm)"
  using join_source [OF assms] .

text \<open>A source with one small file, for the witnesses.\<close>

definition demo_server :: "ChunkManager \<Rightarrow> unit server" where
  "demo_server cm = \<lparr>sv_Completed = True, sv_UUID = ''u'', sv_Version = demo_version, sv_ServeOnly = True, sv_ChunkManager = cm,
     sv_Src = walk_only [] None, sv_Dst = walk_only [] None, sv_world = (), sv_Statistics = NewStatistics False,
     sv_LastSentAt = None, sv_now = 5\<rparr>"

definition demo_source :: "string \<Rightarrow> Manifest" where
  "demo_source name = (bare_manifest demo_version 10)\<lparr>mf_ChunkChecksum := 7, mf_TransferChunkCount := 1,
     mf_Files := [(walked_file name)\<lparr>fe_remainingChunkCount := 1\<rparr>]\<rparr>"

definition demo_chunks :: "Chunk list" where
  "demo_chunks = [Chunk0\<lparr>FileRanges := [\<lparr>FileIndex = 0, StartOffset = 0, EndOffset = 3\<rparr>]\<rparr>]"

definition demo_manager :: "string \<Rightarrow> ChunkManager" where
  "demo_manager name = \<lparr>cm_manifest = demo_source name, cm_manifestJson = bytes_of (Marshal (json_of_Manifest (demo_source name))),
     cm_chunks = demo_chunks, cm_chunkChecksums = [0]\<rparr>"

lemma demo_build:
  "BuildChunks [walked_file name] 10 5 = Some ([(walked_file name)\<lparr>fe_remainingChunkCount := 1\<rparr>], demo_chunks)"
  by (simp add: BuildChunks_def BuildChunks_file.simps walked_file_def addToChunk_def newChunk_def Chunk0_def Chunk_copy_def
      demo_chunks_def Let_def)

lemma demo_from_storage:
  "getManifestFromStorage (\<lambda>bs. 7) (walk_only [EFile (walked_file name)] err) () 5 (bare_manifest demo_version 10) =
     Some (demo_chunks, demo_source name)"
proof -
  have "listed [EFile (walked_file name)] (bare_manifest demo_version 10) =
      (bare_manifest demo_version 10)\<lparr>mf_Files := [walked_file name]\<rparr>"
    by (simp add: listed_def bare_manifest_def Manifest0_def FileEntry_Copy_def walked_file_def)
  moreover have "mf_ChunkSize (bare_manifest demo_version 10) = 10" by (simp add: bare_manifest_def)
  moreover have "length demo_chunks = 1" by (simp add: demo_chunks_def)
  ultimately show ?thesis
    using demo_build [of name]
    by (simp add: getManifestFromStorage_listed walk_only_def computeChecksum_def demo_source_def bare_manifest_def Manifest0_def)
qed

lemma demo_new:
  "NewChunkManager (\<lambda>bs. 7) demo_version rounds (Some (walk_only [EFile (walked_file name)] err, ())) p 10 5 =
     Some (Inr (demo_manager name))"
  using demo_from_storage [of name err] by (simp add: NewChunkManager_source demo_manager_def demo_chunks_def)

lemma demo_source_ok: "wf_names (demo_source ''a'')" "wf_numbers (demo_source ''a'')"
  by (simp_all add: wf_names_def wf_numbers_def demo_source_def bare_manifest_def demo_version_def Manifest0_def walked_file_def
      int64_range_def)

theorem joining_peer_gets_source_manager_witness:
  "NewChunkManager (\<lambda>bs. 7) demo_version
     [(connected (\<lambda>bs. 7) demo_http demo_codec ''seeder:7'' (demo_server (demo_manager ''a'')), demo_dns)]
     (None :: (unit Storage \<times> unit) option) (Some (PStatic \<lparr>sp_peers = [''seeder:7'']\<rparr>)) 10 5 = Some (Inr (demo_manager ''a''))"
  using joining_peer_gets_source_manager [OF demo_new [of "[]" "''a''" None None] _ _ seeder_ok(1),
      of "demo_server (demo_manager ''a'')" demo_http demo_codec demo_dns "PStatic \<lparr>sp_peers = [''seeder:7'']\<rparr>" "[]" "[]"]
    demo_source_ok seeder_ok(2)
  by (simp add: demo_server_def demo_manager_def StaticProvider_GetPeers_def)

section \<open>A name that is not UTF-8\<close>

text \<open>The list of one file, as JSON.\<close>

lemma json_files_differ:
  assumes "\<not> valid_utf8 name"
  shows "json_files [walked_file (to_utf8 name)] \<noteq> json_files [walked_file name]"
proof
  assume "json_files [walked_file (to_utf8 name)] = json_files [walked_file name]"
  then have "Marshal (JArr (map json_of_FileEntry [walked_file (to_utf8 name)])) = Marshal (JArr (map json_of_FileEntry [walked_file name]))"
    by (metis json_files_def string_of_bytes_of)
  then have "escape (to_utf8 name) = escape name"
    by (simp add: json_of_FileEntry_def walked_file_def Marshal_string_def)
  then show False using escape_to_utf8 [OF assms] by simp
qed

lemma one_file_storage:
  "getManifestFromStorage hash (walk_only [EFile (walked_file name)] err) () 5 (bare_manifest demo_version 10) =
     Some (demo_chunks, (demo_source name)\<lparr>mf_ChunkChecksum := hash (json_files [walked_file name] @ json_chunks demo_chunks)\<rparr>)"
proof -
  have "listed [EFile (walked_file name)] (bare_manifest demo_version 10) =
      (bare_manifest demo_version 10)\<lparr>mf_Files := [walked_file name]\<rparr>"
    by (simp add: listed_def bare_manifest_def Manifest0_def FileEntry_Copy_def walked_file_def)
  moreover have "mf_ChunkSize (bare_manifest demo_version 10) = 10" by (simp add: bare_manifest_def)
  moreover have "length demo_chunks = 1" by (simp add: demo_chunks_def)
  moreover have "json_files [(walked_file name)\<lparr>fe_remainingChunkCount := 1\<rparr>] = json_files [walked_file name]"
    by (simp add: json_files_def json_of_FileEntry_def)
  ultimately show ?thesis
    using demo_build [of name]
    by (simp add: getManifestFromStorage_listed walk_only_def computeChecksum_def demo_source_def bare_manifest_def Manifest0_def)
qed



end
