(* ===== verification/Network_Chunks.thy ===== *)
theory Network_Chunks
  imports Network Chunk_Transfer_Props
begin

text \<open>
  Chunks over the network: the answer of the chunk handler to the requests of a peer downloader, for
  both encodings and with or without a digest, and what the downloader makes of it. The claims put
  these together with the writes of chunks to a copy of a directory over HTTP, and state which
  requests the handler refuses.
\<close>

section \<open>The chunk handler\<close>

lemma chunk_route:
  "sr_path r = ''/chunk/'' @ s \<Longrightarrow> ServeHTTP hash env tm r sv =
     map_option (\<lambda>(w, sv'). (response_of w, sv')) (map_option wrapped (handle_chunk hash env r (NewResponseWriter, sv)))"
  by (simp add: ServeHTTP_def Let_def HasPrefix_def)

text \<open>The headers of the answer, in the order in which the handler sets them.\<close>

definition chunk_header :: "string \<Rightarrow> nat \<Rightarrow> uint64 option \<Rightarrow> Header" where
  "chunk_header encodingType len digest =
     (let h1 = (if encodingType \<noteq> EncodingTypeNone then Map.empty(''Content-Encoding'' \<mapsto> [encodingType]) else Map.empty);
          h2 = h1(''Content-Type'' \<mapsto> [''application/octet-stream'']);
          h3 = (if encodingType = EncodingTypeNone then h2(''Content-Length'' \<mapsto> [FormatNat len]) else h2)
      in (case digest of None \<Rightarrow> h3 | Some ck \<Rightarrow> h3(''Digest'' \<mapsto> [''xxh3='' @ FormatUint ck])))"

lemma chunk_header_simps [simp]:
  "chunk_header e n d ''Content-Type'' = Some [''application/octet-stream'']"
  "chunk_header e n d ''Content-Encoding'' = (if e \<noteq> EncodingTypeNone then Some [e] else None)"
  "chunk_header e n d ''Digest'' = map_option (\<lambda>ck. [''xxh3='' @ FormatUint ck]) d"
  "chunk_header e n d ''Content-Length'' = (if e = EncodingTypeNone then Some [FormatNat n] else None)"
  by (simp_all add: chunk_header_def Let_def split: option.splits)

lemma chunk_body:
  assumes "e \<in> {EncodingTypeNone, EncodingTypeZstd}"
  shows "response_body (chunk_header e (length data) d) (NewEncodingWriteCloser env e data) =
    \<lparr>rd_data = NewEncodingWriteCloser env e data, rd_fin = EOF\<rparr>"
proof (cases "e = EncodingTypeNone")
  case True
  then show ?thesis by (simp add: NewEncodingWriteCloser_def response_body_exact Header_Get_def)
next
  case False
  then show ?thesis by (simp add: response_body_chunked)
qed

lemma handle_chunk_answer:
  assumes path: "TrimPrefix (sr_path r) ''/chunk/'' = FormatNat i"
    and i: "i < GetChunkCount (sv_ChunkManager sv)" "int i < 2 ^ 63" and ready: "served_status sv i = ChunkStatusDone"
    and copy: "io_Copy (sv_ChunkManager sv) (served_storage sv) (sv_world sv) (GetChunkReader i) [] = Some (data, None)"
    and len: "Chunk_Size (cm_chunks (sv_ChunkManager sv) ! i) = int (length data)"
    and e: "e = GetPreferredEncodingType (Header_values (sr_header r) ''Accept-Encoding'')"
    and want: "getWantDigest r = (digest \<noteq> None)"
    and ck: "\<forall>ck. digest = Some ck \<longrightarrow> (\<exists>cm. ComputeChunkChecksum hash (served_storage sv) i (sv_world sv) (sv_ChunkManager sv) =
        Some ((ck, None), cm) \<and> io_Copy cm (served_storage sv) (sv_world sv) (GetChunkReader i) [] = Some (data, None))"
  shows "\<exists>w sv'. handle_chunk hash env r (NewResponseWriter, sv) = Some (w, sv') \<and>
      w_sent w = Some (200, chunk_header e (length data) digest) \<and> w_body w = NewEncodingWriteCloser env e data"
proof -
  have st: "served_storage (sv\<lparr>sv_ChunkManager := cm\<rparr>) = served_storage sv" for cm
    by (simp add: served_storage_def)
  have len': "FormatInt (int (length data)) = FormatNat (length data)" by (simp add: FormatInt_def)
  show ?thesis
  proof (cases digest)
    case None
    then show ?thesis
      using path i ready copy len want
      by (simp add: handle_chunk_def Atoi_FormatNat setEncodingType_def Let_def e [symmetric] len' serve_body_def
          w_Write_def w_WriteHeader_def w_Set_def Header_Set_def NewResponseWriter_def chunk_header_def)
  next
    case (Some c)
    then obtain cm where cm: "ComputeChunkChecksum hash (served_storage sv) i (sv_world sv) (sv_ChunkManager sv) = Some ((c, None), cm)"
      "io_Copy cm (served_storage sv) (sv_world sv) (GetChunkReader i) [] = Some (data, None)"
      using ck by blast
    then show ?thesis
      using Some path i ready len want
      by (simp add: handle_chunk_def Atoi_FormatNat setEncodingType_def Let_def e [symmetric] len' serve_body_def st
          w_Write_def w_WriteHeader_def w_Set_def Header_Set_def NewResponseWriter_def chunk_header_def
          setDigest_def DefaultDigest_def)
  qed
qed

lemma serve_chunk_response:
  fixes h :: Header and i :: nat and q :: "string \<rightharpoonup> string list"
  defines "r \<equiv> \<lparr>sr_path = ''/chunk/'' @ FormatNat i, sr_query = q, sr_header = h\<rparr>"
  assumes "i < GetChunkCount (sv_ChunkManager sv)" "int i < 2 ^ 63" and "served_status sv i = ChunkStatusDone"
    and "io_Copy (sv_ChunkManager sv) (served_storage sv) (sv_world sv) (GetChunkReader i) [] = Some (data, None)"
    and "Chunk_Size (cm_chunks (sv_ChunkManager sv) ! i) = int (length data)"
    and e: "e = GetPreferredEncodingType (Header_values h ''Accept-Encoding'')"
    and "getWantDigest r = (digest \<noteq> None)"
    and "\<forall>ck. digest = Some ck \<longrightarrow> (\<exists>cm. ComputeChunkChecksum hash (served_storage sv) i (sv_world sv) (sv_ChunkManager sv) =
        Some ((ck, None), cm) \<and> io_Copy cm (served_storage sv) (sv_world sv) (GetChunkReader i) [] = Some (data, None))"
  shows "\<exists>sv'. ServeHTTP hash env tm r sv =
    Some (\<lparr>rs_StatusCode = 200, rs_Header = chunk_header e (length data) digest,
           rs_Body = \<lparr>rd_data = NewEncodingWriteCloser env e data, rd_fin = EOF\<rparr>\<rparr>, sv')"
proof -
  have e2: "e \<in> {EncodingTypeNone, EncodingTypeZstd}" using preferred_cases e by blast
  have r: "TrimPrefix (sr_path r) ''/chunk/'' = FormatNat i" "sr_header r = h"
    "sr_path r = ''/chunk/'' @ FormatNat i"
    by (simp_all add: r_def TrimPrefix_def HasPrefix_def)
  show ?thesis
    using handle_chunk_answer [OF r(1) assms(2-6) _ assms(8,9), of e env] e r(2) chunk_body [OF e2, of data digest env]
      chunk_route [OF r(3), of hash env tm sv]
    by (auto simp: wrapped_def response_of_def)
qed

section \<open>The request of a chunk\<close>

definition chunk_target :: "nat \<Rightarrow> string" where
  "chunk_target i = ''/chunk/'' @ FormatNat i"

definition chunk_options :: "string \<Rightarrow> bool \<Rightarrow> Option list" where
  "chunk_options compressType withChecksum =
     [WithAcceptEncodingType compressType, WithExpectedContentType ''application/octet-stream''] @
     (if withChecksum then [WithWantDigest DefaultDigest] else [])"

lemma chunk_config:
  "fold (\<lambda>option c. option c) (chunk_options compressType withChecksum) config0 =
     config0\<lparr>cf_acceptEncodingType := compressType, cf_expectedContentType := ''application/octet-stream'',
       cf_wantDigest := if withChecksum then DefaultDigest else []\<rparr>"
  by (simp add: chunk_options_def WithAcceptEncodingType_def WithExpectedContentType_def WithWantDigest_def config0_def)

lemma RequestDownload_chunk_options:
  "PeerDownloader_RequestDownload env compressType i withChecksum d =
     (case fst (HttpClient_Request env (peer_url d (chunk_target i)) (chunk_options compressType withChecksum)) of
        Inl err \<Rightarrow> Inl err
      | Inr (h, readCloser) \<Rightarrow>
          if withChecksum then map_sum id (\<lambda>checksum. (checksum, readCloser)) (ParseDigest h) else Inr (0, readCloser))"
  unfolding PeerDownloader_RequestDownload_def chunk_options_def Let_def chunk_target_def
  by (cases withChecksum) (simp_all split: sum.split)

lemma wants_digest:
  "getWantDigest \<lparr>sr_path = path, sr_query = q, sr_header = rq_header (client_request url (chunk_options compressType withChecksum))\<rparr> =
     withChecksum"
proof -
  have "TrimSpace ''xxh3'' = ''xxh3''" by code_simp
  then show ?thesis
    unfolding getWantDigest_def client_request_def chunk_config request_of_def Let_def
    by (simp add: Header_values_def Header_Set_def DefaultDigest_def config0_def)
qed

lemma ParseDigest_chunk: "ParseDigest (chunk_header e n (Some ck)) = Inr ck"
proof -
  have "CHR ''='' \<notin> set (FormatUint ck)" unfolding FormatUint_def by (rule FormatNat_no_char) simp
  then have "Split (CHR ''='') (''xxh3='' @ FormatUint ck) = [''xxh3'', FormatUint ck]"
    by (simp add: Split_no_sep)
  then show ?thesis by (simp add: ParseDigest_def Header_Get_def)
qed

lemma chunk_path: "hd (chunk_target i) = CHR ''/''" "chunk_target i \<noteq> []"
  "\<forall>c \<in> set (chunk_target i). path_char c"
  unfolding chunk_target_def
proof -
  have "path_char c" if "c \<in> set (FormatNat i)" for c
    using FormatNat_chars [OF that] by (simp add: path_char_def plain_char_def is_num_def digit_value_def Let_def)
  moreover have "\<forall>c \<in> set ''/chunk/''. path_char c" by (simp add: path_char_def plain_char_def is_alpha_def)
  ultimately show "\<forall>c \<in> set (''/chunk/'' @ FormatNat i). path_char c" unfolding set_append by blast
qed simp_all

lemma request_chunk:
  assumes peer: "peer_ok h p" "pdl_Host d = address h p"
    and i: "i < GetChunkCount (sv_ChunkManager sv)" "int i < 2 ^ 63" and ready: "served_status sv i = ChunkStatusDone"
    and copy: "io_Copy (sv_ChunkManager sv) (served_storage sv) (sv_world sv) (GetChunkReader i) [] = Some (data, None)"
    and len: "Chunk_Size (cm_chunks (sv_ChunkManager sv) ! i) = int (length data)"
    and ck: "\<exists>cm. ComputeChunkChecksum hash (served_storage sv) i (sv_world sv) (sv_ChunkManager sv) =
        Some ((ck, None), cm) \<and> io_Copy cm (served_storage sv) (sv_world sv) (GetChunkReader i) [] = Some (data, None)"
    and codec: "ev_unzstd env \<lparr>rd_data = ev_zstd_stream env data, rd_fin = EOF\<rparr> = \<lparr>rd_data = data, rd_fin = EOF\<rparr>"
  shows "\<exists>rc. PeerDownloader_RequestDownload (connected hash env tm (address h p) sv) compressType i withChecksum d =
      Inr (if withChecksum then ck else 0, rc) \<and> rc_reader rc = \<lparr>rd_data = data, rd_fin = EOF\<rparr>"
proof -
  let ?url = "peer_url d (chunk_target i)" and ?env = "connected hash env tm (address h p) sv"
  let ?opts = "chunk_options compressType withChecksum" and ?e = "if compressType = EncodingTypeZstd then EncodingTypeZstd else EncodingTypeNone"
  let ?rq = "client_request ?url ?opts" and ?digest = "if withChecksum then Some ck else None"
  let ?resp = "\<lparr>rs_StatusCode = 200, rs_Header = chunk_header ?e (length data) ?digest,
      rs_Body = \<lparr>rd_data = NewEncodingWriteCloser env ?e data, rd_fin = EOF\<rparr>\<rparr>"
  have e: "?e = GetPreferredEncodingType (Header_values (rq_header ?rq) ''Accept-Encoding'')"
    by (simp add: preferred_of_request chunk_config)
  have dig: "withChecksum = (?digest \<noteq> None)" by simp
  have ck': "\<forall>c. ?digest = Some c \<longrightarrow> (\<exists>cm. ComputeChunkChecksum hash (served_storage sv) i (sv_world sv) (sv_ChunkManager sv) =
        Some ((c, None), cm) \<and> io_Copy cm (served_storage sv) (sv_world sv) (GetChunkReader i) [] = Some (data, None))"
    using ck by (cases withChecksum) auto
  obtain sv' where run: "ServeHTTP hash env tm
      \<lparr>sr_path = chunk_target i, sr_query = ParseQuery [], sr_header = rq_header ?rq\<rparr> sv = Some (?resp, sv')"
    using serve_chunk_response [OF i ready copy len e, of "ParseQuery []" ?digest hash env tm, OF _ ck']
    unfolding chunk_target_def [symmetric] wants_digest using dig by blast
  have url: "rq_url ?rq = ''http://'' @ address h p @ chunk_target i @ with_query None"
    by (simp add: client_request_def request_of_def Let_def peer_url_def peer(2) with_query_def)
  have "ev_Do ?env ?rq = Inr ?resp"
    by (rule connected_answer [OF peer(1) chunk_path _ url]) (simp, simp only: option.case, rule run)
  then have "HttpClient_request ?env ?url ?opts = (Inr (chunk_header ?e (length data) ?digest,
      NewEncodingReadCloser ?env \<lparr>rc_reader = rs_Body ?resp, rc_close = [BodyClosed]\<rparr>
        (TrimSpace (Header_Get (chunk_header ?e (length data) ?digest) ''Content-Encoding''))), [])"
    using HttpClient_request_ok [of ?env ?url ?opts ?resp] checkContentType_sent(3) [of "rs_Header ?resp"]
    by (simp add: chunk_config)
  then show ?thesis
    using codec
    by (auto simp: RequestDownload_chunk_options HttpClient_Request_def NewContextReadCloser_def ParseDigest_chunk
        NewEncodingReadCloser_def NewEncodingWriteCloser_def Header_Get_def connected_def)
qed

text \<open>A chunk that is out of range or not ready is refused.\<close>

lemma refuse_chunk:
  assumes path: "sr_path r = chunk_target i" and i: "int i < 2 ^ 63"
    and bad: "GetChunkCount (sv_ChunkManager sv) \<le> i \<or> served_status sv i \<noteq> ChunkStatusDone"
  shows "\<exists>resp sv'. ServeHTTP hash env tm r sv = Some (resp, sv') \<and> rs_StatusCode resp = 403"
proof -
  have t: "TrimPrefix (sr_path r) ''/chunk/'' = FormatNat i"
    by (simp add: path chunk_target_def TrimPrefix_def HasPrefix_def)
  have "\<exists>msg. handle_chunk hash env r (NewResponseWriter, sv) = Some (errorResponse 403 msg (NewResponseWriter, sv))"
    using t i bad by (auto simp: handle_chunk_def Atoi_FormatNat)
  then show ?thesis
    using chunk_route [OF path [unfolded chunk_target_def], of hash env tm sv]
    by (auto simp: wrapped_def response_of_def errorResponse_def textResponse_def w_Write_def w_WriteHeader_def w_Set_def
        NewResponseWriter_def add_transmitted_def Let_def)
qed

lemma request_chunk_refused:
  assumes peer: "peer_ok h p" "pdl_Host d = address h p" and i: "int i < 2 ^ 63"
    and bad: "GetChunkCount (sv_ChunkManager sv) \<le> i \<or> served_status sv i \<noteq> ChunkStatusDone"
  shows "PeerDownloader_RequestDownload (connected hash env tm (address h p) sv) compressType i withChecksum d =
      Inl (Error ''HTTP response status is not success'')"
proof -
  let ?url = "peer_url d (chunk_target i)" and ?env = "connected hash env tm (address h p) sv"
  let ?opts = "chunk_options compressType withChecksum"
  let ?rq = "client_request ?url ?opts"
  obtain resp sv' where run: "ServeHTTP hash env tm
      \<lparr>sr_path = chunk_target i, sr_query = ParseQuery [], sr_header = rq_header ?rq\<rparr> sv = Some (resp, sv')"
    and resp: "rs_StatusCode resp = 403"
    using refuse_chunk [OF _ i bad, of "\<lparr>sr_path = chunk_target i, sr_query = ParseQuery [], sr_header = rq_header ?rq\<rparr>" hash env tm]
    by auto
  have url: "rq_url ?rq = ''http://'' @ address h p @ chunk_target i @ with_query None"
    by (simp add: client_request_def request_of_def Let_def peer_url_def peer(2) with_query_def)
  have "ev_Do ?env ?rq = Inr resp"
    by (rule connected_answer [OF peer(1) chunk_path _ url]) (simp, simp only: option.case, rule run)
  then show ?thesis
    using resp unfolding client_request_def
    by (simp add: RequestDownload_chunk_options HttpClient_Request_def HttpClient_request_def Let_def)
qed

section \<open>A source directory behind a server\<close>

text \<open>
  The server offers the local directory \<open>bs\<close>, whose files the manifest lists; its cache of checksums
  holds nothing wrong.
\<close>

definition file_data :: "path \<Rightarrow> world \<Rightarrow> ChunkManager \<Rightarrow> byte list list" where
  "file_data bs v cm = map (\<lambda>f. the (ls_content bs v (fe_Name f))) (cm_Files cm)"

definition offers :: "(byte list \<Rightarrow> uint64) \<Rightarrow> path \<Rightarrow> int \<Rightarrow> int \<Rightarrow> world server \<Rightarrow> bool" where
  "offers hash bs C m sv \<longleftrightarrow>
     (let cm = sv_ChunkManager sv in
      built_manager C m cm \<and> readable bs (sv_world sv) (cm_Files cm) \<and>
      served_storage sv = local_storage \<lparr>BaseDir = abs_path bs\<rparr> \<and> int (GetChunkCount cm) < 2 ^ 63 \<and>
      length (cm_chunkChecksums cm) = GetChunkCount cm \<and>
      (\<forall>i < GetChunkCount cm. cm_chunkChecksums cm ! i \<in>
         {0, hash (chunk_data (file_data bs (sv_world sv) cm) (cm_chunks cm ! i))}))"

lemma length_chunk_data:
  assumes "\<forall>r \<in> set rs. range_ok fs r" and "map (\<lambda>bs. int (length bs)) src = map fe_Size fs"
  shows "int (length (concat (map (range_data src) rs))) = sum_list (map range_len rs)"
  using assms(1)
proof (induction rs)
  case (Cons r rs)
  have "length src = length fs" using assms(2) by (metis length_map)
  moreover have "FileIndex r < length fs" using Cons.prems by (simp add: range_ok_def)
  ultimately have "fe_Size (fs ! FileIndex r) = int (length (src ! FileIndex r))"
    using assms(2) by (metis nth_map)
  then have "length (range_data src r) = nat (EndOffset r - StartOffset r)"
    using length_range_data [of fs r src] Cons.prems by simp
  then show ?case using Cons by (simp add: range_ok_def range_len_def)
qed simp

lemma offers_chunk:
  assumes o: "offers hash bs C m sv" and i: "i < GetChunkCount (sv_ChunkManager sv)"
  defines "data \<equiv> chunk_data (file_data bs (sv_world sv) (sv_ChunkManager sv)) (cm_chunks (sv_ChunkManager sv) ! i)"
  shows "io_Copy (sv_ChunkManager sv) (served_storage sv) (sv_world sv) (GetChunkReader i) [] = Some (data, None)"
    and "Chunk_Size (cm_chunks (sv_ChunkManager sv) ! i) = int (length data)"
    and "\<exists>cm. ComputeChunkChecksum hash (served_storage sv) i (sv_world sv) (sv_ChunkManager sv) = Some ((hash data, None), cm) \<and>
      io_Copy cm (served_storage sv) (sv_world sv) (GetChunkReader i) [] = Some (data, None)"
proof -
  let ?cm = "sv_ChunkManager sv" and ?src = "file_data bs (sv_world sv) (sv_ChunkManager sv)"
  have b: "built_manager C m ?cm" and r: "readable bs (sv_world sv) (cm_Files ?cm)"
    and st: "served_storage sv = local_storage \<lparr>BaseDir = abs_path bs\<rparr>"
    and ck: "length (cm_chunkChecksums ?cm) = length (cm_chunks ?cm)" "cm_chunkChecksums ?cm ! i \<in> {0, hash data}"
    and i': "i < length (cm_chunks ?cm)"
    using o i by (auto simp: offers_def Let_def GetChunkCount_def data_def)
  note H = readable_holds [OF r, folded file_data_def]
  have mem: "cm_chunks ?cm ! i \<in> set (cm_chunks ?cm)" using i' by simp
  then have rng: "\<forall>r \<in> set (FileRanges (cm_chunks ?cm ! i)). range_ok (cm_Files ?cm) r"
    using built_managerD(1) [OF b] by (auto simp: chunks_fit_def)
  show copy: "io_Copy ?cm (served_storage sv) (sv_world sv) (GetChunkReader i) [] = Some (data, None)"
    using local.io_Copy_chunk [OF i' rng H(1)] by (simp add: st data_def)
  show "Chunk_Size (cm_chunks ?cm ! i) = int (length data)"
    using length_chunk_data [OF rng H(2)] built_managerD(4) [OF b mem] by (simp add: chunk_bytes_flat data_def chunk_data_def)
  have c: "(if cm_chunkChecksums ?cm ! i = 0 then hash data else cm_chunkChecksums ?cm ! i) = hash data" using ck(2) by auto
  let ?cm' = "?cm\<lparr>cm_chunkChecksums := (cm_chunkChecksums ?cm)[i := hash data]\<rparr>"
  have "ComputeChunkChecksum hash (served_storage sv) i (sv_world sv) ?cm = Some ((hash data, None), ?cm')"
    using local.ComputeChunkChecksum_cases [OF i' ck(1) rng H(1), of hash] c
    unfolding st Let_def data_def [symmetric] by (simp only: c)
  moreover have "io_Copy ?cm' (served_storage sv) (sv_world sv) (GetChunkReader i) [] = Some (data, None)"
    using local.io_Copy_chunk [of i ?cm' bs "sv_world sv" ?src] i' rng H(1) by (simp add: st data_def)
  ultimately show "\<exists>cm. ComputeChunkChecksum hash (served_storage sv) i (sv_world sv) ?cm = Some ((hash data, None), cm) \<and>
      io_Copy cm (served_storage sv) (sv_world sv) (GetChunkReader i) [] = Some (data, None)" by blast
qed

end
