(* ===== verification/Network_Transfer.thy ===== *)
theory Network_Transfer
  imports Network_Chunks
begin

text \<open>
  The transfer of chunks over HTTP: what a request for a chunk returns, and the copy of a directory
  from the server of one peer to the storage of another.
\<close>

text \<open>The codec of the compressed streams: decoding what was encoded.\<close>

definition zstd_ok :: "http_env \<Rightarrow> bool" where
  "zstd_ok env \<longleftrightarrow> (\<forall>bs. ev_unzstd env \<lparr>rd_data = ev_zstd_stream env bs, rd_fin = EOF\<rparr> = \<lparr>rd_data = bs, rd_fin = EOF\<rparr>)"

text \<open>Claim C29.
  A request for a chunk to a server that offers a directory: it succeeds exactly for the chunks of
  the manifest that the server has (all of them in seed-only mode or when the transfer of the server
  is complete, otherwise those with status done). It then delivers exactly the bytes of the chunk,
  also through the compression, with the hash of these bytes when the digest was asked for, and with
  the checksum 0 when not; the stored checksum of the server and the computed one agree.\<close>

theorem chunk_request_outcome:
  assumes "peer_ok h p" and "pdl_Host d = address h p" and "int i < 2 ^ 63"
    and o: "offers hash bs C m sv" and "zstd_ok env"
  shows "let cm = sv_ChunkManager sv; data = chunk_data (file_data bs (sv_world sv) cm) (cm_chunks cm ! i);
      has = (i < GetChunkCount cm \<and> (sv_ServeOnly sv \<or> sv_Completed sv \<or> Chunk_GetStatus (cm_chunks cm ! i) = ChunkStatusDone))
    in case PeerDownloader_RequestDownload (connected hash env tm (address h p) sv) compressType i withChecksum d of
         Inl err \<Rightarrow> \<not> has
       | Inr (ck, rc) \<Rightarrow> has \<and> ck = (if withChecksum then hash data else 0) \<and> rc_reader rc = \<lparr>rd_data = data, rd_fin = EOF\<rparr>"
proof (cases "GetChunkCount (sv_ChunkManager sv) \<le> i \<or> served_status sv i \<noteq> ChunkStatusDone")
  case True
  then show ?thesis
    using request_chunk_refused [OF assms(1-3), of sv hash env tm compressType withChecksum]
    by (auto simp: Let_def served_status_def split: if_splits)
next
  case False
  then have i: "i < GetChunkCount (sv_ChunkManager sv)" and st: "served_status sv i = ChunkStatusDone" by auto
  note O = offers_chunk [OF o i]
  show ?thesis
    using request_chunk [OF assms(1,2) i assms(3) st O(1,2,3), of env tm compressType withChecksum] assms(5) i st
    by (auto simp: Let_def served_status_def zstd_ok_def split: if_splits)
qed

definition demo_seeder :: "world server" where
  "demo_seeder = \<lparr>sv_Completed = False, sv_UUID = ''u'', sv_Version = demo_version, sv_ServeOnly = True,
     sv_ChunkManager = demo_manager, sv_Src = local_storage \<lparr>BaseDir = abs_path [''d'']\<rparr>,
     sv_Dst = local_storage \<lparr>BaseDir = abs_path [''d'']\<rparr>, sv_world = demo_world_rw, sv_Statistics = NewStatistics False,
     sv_LastSentAt = None, sv_now = 5\<rparr>"

lemma demo_seeder_offers: "offers hash [''d''] 3 0 demo_seeder"
proof -
  have "readable [''d''] demo_world_rw (cm_Files demo_manager)"
    using demo_prepared by (auto simp: readable_def prepared_def)
  moreover have "length (cm_chunkChecksums demo_manager) = length (cm_chunks demo_manager)"
    "length (cm_chunks demo_manager) = 2" "\<forall>i < 2. cm_chunkChecksums demo_manager ! i = 0"
    by (simp_all add: demo_manager_def less_2_cases_iff)
  ultimately show ?thesis
    using demo_built by (simp add: offers_def demo_seeder_def served_storage_def GetChunkCount_def)
qed

lemma demo_http_ok: "zstd_ok demo_http"
  by (simp add: zstd_ok_def demo_http_def)

lemma demo_seeder_data: "chunk_data (file_data [''d''] demo_world_rw demo_manager) (cm_chunks demo_manager ! 1) = [4, 5]"
  by (simp add: file_data_def demo_manager_def demo_file_def demo_rw_content chunk_data_def range_data_def window_def)

theorem chunk_request_outcome_witness:
  "\<exists>rc. PeerDownloader_RequestDownload (connected (\<lambda>bs. 9) demo_http demo_codec ''seeder:7'' demo_seeder) ''zstd'' 1 True
      (NewPeerDownloader demo_manager ''me'' ''seeder:7'') = Inr (9, rc) \<and> rc_reader rc = \<lparr>rd_data = [4, 5], rd_fin = EOF\<rparr>"
proof -
  have d: "pdl_Host (NewPeerDownloader demo_manager ''me'' ''seeder:7'') = address ''seeder'' (Some ''7'')"
    by (simp add: NewPeerDownloader_def seeder_ok(2))
  have sv: "sv_ServeOnly demo_seeder" "sv_ChunkManager demo_seeder = demo_manager" "sv_world demo_seeder = demo_world_rw"
    "1 < GetChunkCount demo_manager"
    by (simp_all add: demo_seeder_def demo_manager_def GetChunkCount_def)
  have one: "int 1 < 2 ^ 63" by simp
  show ?thesis
    using chunk_request_outcome [OF seeder_ok(1) d one demo_seeder_offers demo_http_ok, where hash = "\<lambda>bs. 9"
        and tm = demo_codec and compressType = "''zstd''" and withChecksum = True]
    unfolding seeder_ok(2) Let_def sv demo_seeder_data
    using sv(1,4) by (auto split: sum.splits)
qed

text \<open>Claim C30.
  A directory is copied over HTTP: a peer that has the manifest of the server asks for every chunk,
  in any order, with or without compression and digests, and writes what it receives; every request
  and every write succeeds and at the end every file of the destination has exactly the content that
  it has in the directory of the server.\<close>

theorem http_transfer_copies:
  assumes peer: "peer_ok h p" and o: "offers hash bs C m sv" and codec: "zstd_ok env"
    and ready: "sv_ServeOnly sv \<or> sv_Completed sv"
    and dest: "prepared bs' w (cm_Files (sv_ChunkManager sv))"
    and order: "distinct order" "set order = {..<GetChunkCount (sv_ChunkManager sv)}"
  shows "let cm = sv_ChunkManager sv; d = NewPeerDownloader cm uuid (address h p) in
    \<exists>ds results complete cm' w'.
      map (\<lambda>i. map_sum id (\<lambda>(ck, rc). (i, ck, rc_reader rc)) (PeerDownloader_RequestDownload
         (connected hash env tm (address h p) sv) compressType i withChecksum d)) order = map Inr ds \<and>
      WriteChunks hash (local_storage \<lparr>BaseDir = abs_path bs'\<rparr>) ds cm w = (results, complete, cm', w') \<and>
      (\<forall>r \<in> set results. snd r = None) \<and>
      (\<forall>f \<in> set (cm_Files cm). ls_content bs' w' (fe_Name f) = ls_content bs (sv_world sv) (fe_Name f))"
proof -
  let ?cm = "sv_ChunkManager sv" and ?src = "file_data bs (sv_world sv) (sv_ChunkManager sv)"
  let ?d = "NewPeerDownloader ?cm uuid (address h p)"
  let ?data = "\<lambda>i. chunk_data ?src (cm_chunks ?cm ! i)"
  let ?del = "\<lambda>i. (i, if withChecksum then hash (?data i) else 0, \<lparr>rd_data = ?data i, rd_fin = EOF\<rparr>)"
  have cm: "built_manager C m ?cm" "readable bs (sv_world sv) (cm_Files ?cm)" "int (GetChunkCount ?cm) < 2 ^ 63"
    using o by (simp_all add: offers_def Let_def)
  note H = readable_holds [OF cm(2), folded file_data_def]
  have host: "pdl_Host ?d = address h p" by (simp add: NewPeerDownloader_def)
  have "map_sum id (\<lambda>(ck, rc). (i, ck, rc_reader rc)) (PeerDownloader_RequestDownload
         (connected hash env tm (address h p) sv) compressType i withChecksum ?d) = Inr (?del i)" if "i \<in> set order" for i
  proof -
    have i: "i < GetChunkCount ?cm" "int i < 2 ^ 63" using that order(2) cm(3) by auto
    have "served_status sv i = ChunkStatusDone" using ready by (auto simp: served_status_def)
    then show ?thesis
      using request_chunk [OF peer host i _ offers_chunk [OF o i(1)], of env tm compressType withChecksum] codec
      by (auto simp: zstd_ok_def)
  qed
  then have asked: "map (\<lambda>i. map_sum id (\<lambda>(ck, rc). (i, ck, rc_reader rc)) (PeerDownloader_RequestDownload
         (connected hash env tm (address h p) sv) compressType i withChecksum ?d)) order = map Inr (map ?del order)"
    by simp
  have deliv: "\<forall>x \<in> set (map ?del order). delivers hash ?src (cm_chunks ?cm) x"
    using order(2) by (auto simp: delivers_def Let_def GetChunkCount_def)
  have dist: "distinct (map fst (map ?del order))" using order(1) by (simp add: comp_def)
  obtain js cm' w' where run: "WriteChunks hash (local_storage \<lparr>BaseDir = abs_path bs'\<rparr>) (map ?del order) ?cm w =
      (map (\<lambda>x. (Chunk_Size (cm_chunks ?cm ! fst x), None)) (map ?del order),
       map (\<lambda>j. (Join (abs_path bs') (fe_Name (cm_Files ?cm ! j)), fe_Size (cm_Files ?cm ! j))) js, cm', w')"
    "\<forall>j < length (cm_Files ?cm). all_chunks_in (cm_chunks ?cm) (map fst (map ?del order)) j \<longrightarrow>
       ls_content bs' w' (fe_Name (cm_Files ?cm ! j)) = Some (?src ! j)"
    using WriteChunks_built [OF cm(1) H(2) dest dist deliv] by blast
  have "ls_content bs' w' (fe_Name f) = ls_content bs (sv_world sv) (fe_Name f)" if f: "f \<in> set (cm_Files ?cm)" for f
  proof -
    obtain j where j: "j < length (cm_Files ?cm)" "f = cm_Files ?cm ! j" using f by (auto simp: in_set_conv_nth)
    have "all_chunks_in (cm_chunks ?cm) (map fst (map ?del order)) j"
      using order(2) by (auto simp: all_chunks_in_def GetChunkCount_def)
    then show ?thesis using run(2) j H(1) by (auto simp: local.holds_def)
  qed
  then show ?thesis using asked run(1) unfolding Let_def by fastforce
qed

theorem http_transfer_copies_witness:
  "\<exists>ds results complete cm' w'.
      map (\<lambda>i. map_sum id (\<lambda>(ck, rc). (i, ck, rc_reader rc)) (PeerDownloader_RequestDownload
         (connected (\<lambda>bs. 9) demo_http demo_codec ''seeder:7'' demo_seeder) ''none'' i True
         (NewPeerDownloader demo_manager ''me'' ''seeder:7''))) [1, 0] = map Inr ds \<and>
      WriteChunks (\<lambda>bs. 9) (local_storage \<lparr>BaseDir = abs_path [''d'']\<rparr>) ds demo_manager demo_world_rw = (results, complete, cm', w') \<and>
      ls_content [''d''] w' ''f'' = Some [1, 2, 3, 4, 5]"
proof -
  have sv: "sv_ChunkManager demo_seeder = demo_manager" "sv_world demo_seeder = demo_world_rw"
    by (simp_all add: demo_seeder_def)
  have ready: "sv_ServeOnly demo_seeder \<or> sv_Completed demo_seeder" by (simp add: demo_seeder_def)
  have f: "demo_file \<in> set (cm_Files demo_manager)" "fe_Name demo_file = ''f''"
    by (simp_all add: demo_manager_def demo_file_def)
  have order: "set [1, 0] = {..<GetChunkCount (sv_ChunkManager demo_seeder)}"
    by (auto simp: sv GetChunkCount_def demo_manager_def)
  show ?thesis
    using http_transfer_copies [OF seeder_ok(1) demo_seeder_offers demo_http_ok ready demo_prepared [folded sv(1)] _ order,
        where hash = "\<lambda>bs. 9" and tm = demo_codec and compressType = "''none''" and withChecksum = True and uuid = "''me''"]
    unfolding seeder_ok(2) Let_def sv using f demo_rw_content(1) by fastforce
qed

end
