(* ===== verification/Peer_Updates.thy ===== *)
theory Peer_Updates
  imports Peer_Downloader
begin

text \<open>
  The update goroutine of a peer downloader against any network: what it has marked as available, the
  count and the queue always agree, and no chunk is announced before the peer was found to be another
  program with the same manifest.
\<close>

section \<open>Marking chunks\<close>

definition ready_set :: "PeerDownloader \<Rightarrow> nat set" where
  "ready_set d = {i. i < length (pdl_AvailableChunkList d) \<and> pdl_AvailableChunkList d ! i = AvailableChunkReady}"

lemma finite_ready_set [simp]: "finite (ready_set d)"
  by (simp add: ready_set_def)

lemma ready_set_simps [simp]:
  "ready_set (d\<lparr>pdl_LastUpdatedAt := t\<rparr>) = ready_set d" "ready_set (d\<lparr>pdl_Queue := q\<rparr>) = ready_set d"
  "ready_set (d\<lparr>pdl_IsSelf := b\<rparr>) = ready_set d" "ready_set (d\<lparr>pdl_updateCancelled := b\<rparr>) = ready_set d"
  "ready_set (NewPeerDownloader cm uuid host) = {}"
  by (auto simp: ready_set_def NewPeerDownloader_def)

text \<open>Everything but the list of available chunks and its count.\<close>

definition rest :: "PeerDownloader \<Rightarrow> PeerDownloader" where
  "rest d = d\<lparr>pdl_AvailableChunkList := [], pdl_AvailableChunkCount := 0\<rparr>"

lemma rest_fields:
  "rest d' = rest d \<Longrightarrow> pdl_ChunkManager d' = pdl_ChunkManager d \<and> pdl_Queue d' = pdl_Queue d \<and> pdl_UUID d' = pdl_UUID d \<and>
     pdl_Host d' = pdl_Host d \<and> pdl_LastUpdatedAt d' = pdl_LastUpdatedAt d \<and> pdl_IsSelf d' = pdl_IsSelf d \<and>
     pdl_updateCancelled d' = pdl_updateCancelled d"
  by (cases d; cases d') (simp add: rest_def)

lemma markChunkAsReady_out:
  "i < 0 \<or> int (length (pdl_AvailableChunkList d)) \<le> i \<Longrightarrow> markChunkAsReady i d = Inl IndexPanic"
  by (simp add: markChunkAsReady_def)

lemma markChunkAsReady_in:
  assumes "k < length (pdl_AvailableChunkList d)"
  shows "\<exists>d'. markChunkAsReady (int k) d = Inr (k \<notin> ready_set d, d') \<and> ready_set d' = insert k (ready_set d) \<and>
    length (pdl_AvailableChunkList d') = length (pdl_AvailableChunkList d) \<and> rest d' = rest d \<and>
    pdl_AvailableChunkCount d' = pdl_AvailableChunkCount d + (if k \<in> ready_set d then 0 else 1)"
  using assms AvailableChunk.exhaust [of "pdl_AvailableChunkList d ! k"]
  by (auto simp: markChunkAsReady_def ready_set_def nth_list_update rest_def split: if_splits)

lemma mark_chunks_in:
  assumes "\<forall>k \<in> set ks. k < length (pdl_AvailableChunkList d)"
  shows "\<exists>new d'. mark_chunks (map int ks) acc d = Inr (acc @ new, d') \<and> distinct new \<and> set new = set ks - ready_set d \<and>
    ready_set d' = ready_set d \<union> set ks \<and> length (pdl_AvailableChunkList d') = length (pdl_AvailableChunkList d) \<and>
    rest d' = rest d \<and> pdl_AvailableChunkCount d' = pdl_AvailableChunkCount d + int (length new)"
  using assms
proof (induction ks arbitrary: acc d)
  case (Cons k ks)
  obtain d1 where d1: "markChunkAsReady (int k) d = Inr (k \<notin> ready_set d, d1)" "ready_set d1 = insert k (ready_set d)"
    "length (pdl_AvailableChunkList d1) = length (pdl_AvailableChunkList d)" "rest d1 = rest d"
    "pdl_AvailableChunkCount d1 = pdl_AvailableChunkCount d + (if k \<in> ready_set d then 0 else 1)"
    using markChunkAsReady_in [of k d] Cons.prems by auto
  let ?acc = "if k \<notin> ready_set d then acc @ [k] else acc"
  obtain new d' where IH: "mark_chunks (map int ks) ?acc d1 = Inr (?acc @ new, d')" "distinct new"
    "set new = set ks - ready_set d1" "ready_set d' = ready_set d1 \<union> set ks"
    "length (pdl_AvailableChunkList d') = length (pdl_AvailableChunkList d1)" "rest d' = rest d1"
    "pdl_AvailableChunkCount d' = pdl_AvailableChunkCount d1 + int (length new)"
    using Cons.IH [of d1 ?acc] Cons.prems d1(3) by auto
  let ?new = "if k \<notin> ready_set d then k # new else new"
  have "mark_chunks (map int (k # ks)) acc d = Inr (acc @ ?new, d')"
    using d1(1) IH(1) by (cases "k \<in> ready_set d") simp_all
  moreover have "distinct ?new" "set ?new = set (k # ks) - ready_set d" using IH(2,3) d1(2) by auto
  moreover have "ready_set d' = ready_set d \<union> set (k # ks)" using IH(4) d1(2) by auto
  ultimately show ?case using IH(5-7) d1(3-5) by (intro exI [of _ ?new] exI [of _ d']) auto
qed simp

lemma mark_chunks_out:
  assumes "i \<in> set is" and "i < 0 \<or> int (length (pdl_AvailableChunkList d)) \<le> i"
  shows "mark_chunks is acc d = Inl IndexPanic"
  using assms
proof (induction "is" arbitrary: acc d)
  case (Cons j js)
  show ?case
  proof (cases "j < 0 \<or> int (length (pdl_AvailableChunkList d)) \<le> j")
    case True
    then show ?thesis by (simp add: markChunkAsReady_out)
  next
    case False
    then have "nat j < length (pdl_AvailableChunkList d)" by linarith
    then obtain d1 where "markChunkAsReady j d = Inr (nat j \<notin> ready_set d, d1)"
      "length (pdl_AvailableChunkList d1) = length (pdl_AvailableChunkList d)"
      using markChunkAsReady_in [of "nat j" d] False by auto
    then show ?thesis using Cons False by auto
  qed
qed simp

text \<open>The peer names a chunk that does not exist, or all its chunks are marked.\<close>

lemma mark_chunks_cases:
  obtains (panic) "mark_chunks is acc d = Inl IndexPanic" "\<exists>i \<in> set is. i < 0 \<or> int (length (pdl_AvailableChunkList d)) \<le> i"
  | (marked) new d' where "mark_chunks is acc d = Inr (acc @ new, d')" "distinct new" "set new = nat ` set is - ready_set d"
    "ready_set d' = ready_set d \<union> nat ` set is" "length (pdl_AvailableChunkList d') = length (pdl_AvailableChunkList d)"
    "rest d' = rest d" "pdl_AvailableChunkCount d' = pdl_AvailableChunkCount d + int (length new)"
proof (cases "\<exists>i \<in> set is. i < 0 \<or> int (length (pdl_AvailableChunkList d)) \<le> i")
  case True
  then show ?thesis using mark_chunks_out [of _ "is" d acc] that(1) by blast
next
  case False
  then have "map int (map nat is) = is" by (intro nth_equalityI) (auto simp: not_less)
  moreover have "\<forall>k \<in> set (map nat is). k < length (pdl_AvailableChunkList d)"
    using False by (auto simp: not_less not_le nat_less_iff)
  ultimately show ?thesis
    using mark_chunks_in [of "map nat is" d acc] that(2) by auto
qed

section \<open>The invariant\<close>

definition pd_ok :: "PeerDownloader \<Rightarrow> bool" where
  "pd_ok d \<longleftrightarrow> length (pdl_AvailableChunkList d) = GetChunkCount (pdl_ChunkManager d) \<and>
     pdl_AvailableChunkCount d = int (card (ready_set d)) \<and> mset (pdl_Queue d) = mset_set (ready_set d)"

lemma pd_ok_simps [simp]:
  "pd_ok (d\<lparr>pdl_LastUpdatedAt := t\<rparr>) = pd_ok d" "pd_ok (d\<lparr>pdl_IsSelf := b\<rparr>) = pd_ok d"
  "pd_ok (d\<lparr>pdl_updateCancelled := b\<rparr>) = pd_ok d" "pd_ok (NewPeerDownloader cm uuid host)"
  by (simp_all add: pd_ok_def) (simp add: NewPeerDownloader_def NewChunkQueue_def)

text \<open>Marking the chunks of a list and pushing the new ones keeps the agreement.\<close>

lemma mark_push_ok:
  assumes "pd_ok d" and m: "mark_chunks is [] d = Inr (new, d')"
  shows "pd_ok (d'\<lparr>pdl_Queue := PushShuffledList draw new (pdl_Queue d')\<rparr>)"
    and "ready_set d' = ready_set d \<union> nat ` set is" and "rest d' = rest d"
proof -
  have new: "distinct new" "set new = nat ` set is - ready_set d" "ready_set d' = ready_set d \<union> nat ` set is"
    "length (pdl_AvailableChunkList d') = length (pdl_AvailableChunkList d)"
    "rest d' = rest d" "pdl_AvailableChunkCount d' = pdl_AvailableChunkCount d + int (length new)"
    using m by (cases rule: mark_chunks_cases [of "is" "[]" d]; simp)+
  have u: "ready_set d' = ready_set d \<union> set new" "ready_set d \<inter> set new = {}" using new(2,3) by auto
  have "card (ready_set d') = card (ready_set d) + length new"
    using u new(1) by (simp add: card_Un_disjoint distinct_card)
  moreover have "mset_set (ready_set d') = mset_set (ready_set d) + mset new"
    using u new(1) by (simp add: mset_set_Union mset_set_set)
  ultimately show "pd_ok (d'\<lparr>pdl_Queue := PushShuffledList draw new (pdl_Queue d')\<rparr>)"
    using assms(1) new(4,6) rest_fields [OF new(5)] by (simp add: pd_ok_def PushShuffledList_def)
  show "ready_set d' = ready_set d \<union> nat ` set is" "rest d' = rest d" using new by auto
qed

definition same_peer :: "PeerDownloader \<Rightarrow> PeerDownloader \<Rightarrow> bool" where
  "same_peer d d' \<longleftrightarrow> pdl_ChunkManager d' = pdl_ChunkManager d \<and> pdl_Host d' = pdl_Host d \<and> pdl_IsSelf d' = pdl_IsSelf d"

definition apply_list :: "(nat \<Rightarrow> nat) \<Rightarrow> AvailableList \<Rightarrow> PeerDownloader \<Rightarrow> go_error option \<times> PeerDownloader" where
  "apply_list draw al d =
     (let d1 = d\<lparr>pdl_LastUpdatedAt := al_Timestamp al\<rparr> in
      case mark_chunks (if al_IsCompleted al then map int [0..<GetChunkCount (pdl_ChunkManager d)]
                        else al_TransferChunkIndexList al) [] d1 of
        Inl err \<Rightarrow> (Some err, d1)
      | Inr (indexList, d2) \<Rightarrow> (None, d2\<lparr>pdl_Queue := PushShuffledList draw indexList (pdl_Queue d2)\<rparr>))"

lemma UpdatePeerAvailableList_cases:
  obtains (failed) err where "UpdatePeerAvailableList env tm ct draw d = (Some err, d)"
  | (list) al where "UpdatePeerAvailableList env tm ct draw d = apply_list draw al d"
proof (cases "fst (RequestBody env (list_url tm d) [WithAcceptEncodingType ct, WithExpectedContentType ''application/json''])")
  case (Inl e)
  then show ?thesis using that(1) [of e] by (simp add: UpdatePeerAvailableList_def)
next
  case (Inr content)
  then show ?thesis
    using that by (cases "Unmarshal_AvailableList tm (string_of content)")
      (simp_all add: UpdatePeerAvailableList_def apply_list_def Let_def)
qed

lemma apply_list_ok:
  assumes "pd_ok d"
  shows "pd_ok (snd (apply_list draw al d)) \<and> same_peer d (snd (apply_list draw al d))"
proof -
  let ?d = "d\<lparr>pdl_LastUpdatedAt := al_Timestamp al\<rparr>"
  let ?is = "if al_IsCompleted al then map int [0..<GetChunkCount (pdl_ChunkManager d)] else al_TransferChunkIndexList al"
  have ok: "pd_ok ?d" using assms by simp
  show ?thesis
  proof (cases "mark_chunks ?is [] ?d")
    case (Inl e)
    then show ?thesis using ok by (simp add: same_peer_def apply_list_def Let_def)
  next
    case (Inr r)
    obtain new d2 where r: "r = (new, d2)" by (cases r)
    note M = mark_push_ok [OF ok Inr [unfolded r]]
    show ?thesis using Inr r M(1) rest_fields [OF M(3)] by (simp add: same_peer_def apply_list_def Let_def)
  qed
qed

lemma UpdatePeerAvailableList_ok:
  assumes "pd_ok d"
  shows "pd_ok (snd (UpdatePeerAvailableList env tm ct draw d)) \<and> same_peer d (snd (UpdatePeerAvailableList env tm ct draw d))"
  using assms apply_list_ok [OF assms]
  by (cases rule: UpdatePeerAvailableList_cases [of env tm ct draw d]) (simp_all add: same_peer_def)

section \<open>The rounds\<close>

definition start_state :: "ChunkManager \<Rightarrow> string \<Rightarrow> string \<Rightarrow> update_state" where
  "start_state cm uuid host =
     \<lparr>us_d = NewPeerDownloader cm uuid host, us_isSelfInit = False, us_isValidInit = False, us_abort = False\<rparr>"

definition update_ok :: "ChunkManager \<Rightarrow> update_state \<Rightarrow> bool" where
  "update_ok cm s \<longleftrightarrow> pd_ok (us_d s) \<and> pdl_ChunkManager (us_d s) = cm \<and>
     (us_isValidInit s \<longrightarrow> us_isSelfInit s) \<and> (us_isSelfInit s \<longrightarrow> \<not> pdl_IsSelf (us_d s)) \<and>
     (\<not> us_isValidInit s \<longrightarrow> ready_set (us_d s) = {}) \<and> (us_abort s \<longrightarrow> pdl_updateCancelled (us_d s) \<and> \<not> us_isValidInit s)"

lemma update_self_ok:
  assumes "update_ok cm s" and "\<not> us_abort s"
  shows "update_ok cm (snd (update_self env s)) \<and> \<not> us_abort (snd (update_self env s)) \<and>
    (fst (update_self env s) \<longrightarrow> us_isSelfInit (snd (update_self env s)))"
  using assms by (auto simp: update_self_def setIsSelf_def update_ok_def Let_def split: sum.splits)

lemma update_valid_ok:
  assumes "update_ok cm s" and "\<not> us_abort s" and "us_isSelfInit s"
  shows "update_ok cm (snd (update_valid env s)) \<and>
    (fst (update_valid env s) \<longrightarrow> us_isValidInit (snd (update_valid env s)) \<and> \<not> us_abort (snd (update_valid env s)))"
  using assms by (auto simp: update_valid_def update_ok_def split: sum.splits bool.splits)

lemma update_list_ok:
  assumes "update_ok cm s" and "us_isValidInit s" and "\<not> us_abort s"
  shows "update_ok cm (s\<lparr>us_d := snd (UpdatePeerAvailableList env tm ct draw (us_d s))\<rparr>)"
  using assms UpdatePeerAvailableList_ok [of "us_d s" env tm ct draw] by (auto simp: update_ok_def same_peer_def)

lemma update_ok_cancel [simp]:
  "update_ok cm s \<Longrightarrow> update_ok cm (s\<lparr>us_d := (us_d s)\<lparr>pdl_updateCancelled := True\<rparr>\<rparr>)"
  by (simp add: update_ok_def)

lemma update_round_ok:
  assumes "update_ok cm s" and "\<not> us_abort s"
  shows "update_ok cm (update_round env tm ct draw s)"
proof -
  obtain b1 s1 where s1: "update_self env s = (b1, s1)" by (cases "update_self env s")
  obtain b2 s2 where s2: "update_valid env s1 = (b2, s2)" by (cases "update_valid env s1")
  obtain err d where u: "UpdatePeerAvailableList env tm ct draw (us_d s2) = (err, d)"
    by (cases "UpdatePeerAvailableList env tm ct draw (us_d s2)")
  have 1: "update_ok cm s1" "\<not> us_abort s1" "b1 \<longrightarrow> us_isSelfInit s1" using update_self_ok [OF assms, of env] s1 by auto
  show ?thesis
  proof (cases "b1 \<and> b2")
    case True
    then have 2: "update_ok cm s2" "us_isValidInit s2" "\<not> us_abort s2" using update_valid_ok [OF 1(1,2), of env] 1(3) s2 by auto
    then have "update_ok cm (s2\<lparr>us_d := d\<rparr>)" using update_list_ok [OF 2, of env tm ct draw] u by simp
    then show ?thesis using True s1 s2 u update_ok_cancel [of cm "s2\<lparr>us_d := d\<rparr>"]
      by (auto simp: update_round_def split: option.splits)
  next
    case False
    then show ?thesis
      using 1 s1 s2 update_valid_ok [OF 1(1,2), of env] by (cases b1) (auto simp: update_round_def)
  qed
qed

lemma update_rounds_ok:
  "update_ok cm s \<Longrightarrow> \<not> us_abort s \<Longrightarrow> update_ok cm (update_rounds tm ct ticks s)"
proof (induction ticks arbitrary: s)
  case (Cons t ticks)
  obtain env draw where t: "t = (env, draw)" by (cases t)
  have "update_ok cm (update_round env tm ct draw s)" by (rule update_round_ok [OF Cons.prems])
  then show ?case using Cons.IH [of "update_round env tm ct draw s"] by (auto simp: t Let_def update_ok_def)
qed simp

lemma start_ok: "update_ok cm (start_state cm uuid host)" "\<not> us_abort (start_state cm uuid host)"
proof -
  have "pdl_ChunkManager (NewPeerDownloader cm uuid host) = cm" by (simp add: NewPeerDownloader_def)
  then show "update_ok cm (start_state cm uuid host)" by (simp add: update_ok_def start_state_def)
  show "\<not> us_abort (start_state cm uuid host)" by (simp add: start_state_def)
qed

text \<open>Claim C31.
  The state of a peer downloader is well formed after any number of update rounds, whatever the
  network answers: the list of available chunks has an entry for every chunk of the manifest, the
  count is the number of entries that are ready, and the chunks pushed to the queue are exactly the
  ready ones, each once. So the count equals the number of chunks exactly when every chunk was
  announced. Nothing is announced by a peer that is the program itself, or before its manifest was
  found to have the checksum of the own one; a peer with another checksum aborts the download.\<close>

theorem peer_downloader_well_formed:
  fixes cm :: ChunkManager and uuid host compressType :: string and tm :: time_codec
    and ticks :: "(http_env \<times> (nat \<Rightarrow> nat)) list"
  defines "s \<equiv> update_rounds tm compressType ticks (start_state cm uuid host)"
  shows "length (pdl_AvailableChunkList (us_d s)) = GetChunkCount cm \<and>
    pdl_AvailableChunkCount (us_d s) = int (card (ready_set (us_d s))) \<and>
    distinct (pdl_Queue (us_d s)) \<and> set (pdl_Queue (us_d s)) = ready_set (us_d s) \<and>
    (pdl_AvailableChunkCount (us_d s) = int (GetChunkCount cm)) = (set (pdl_Queue (us_d s)) = {..<GetChunkCount cm}) \<and>
    (pdl_Queue (us_d s) = [] \<or> us_isSelfInit s \<and> us_isValidInit s \<and> pdl_IsSelf (us_d s) = False \<and> us_abort s = False)"
proof -
  have ok: "update_ok cm s" unfolding s_def by (rule update_rounds_ok [OF start_ok])
  let ?d = "us_d s" and ?R = "ready_set (us_d s)"
  have len: "length (pdl_AvailableChunkList ?d) = GetChunkCount cm" and count: "pdl_AvailableChunkCount ?d = int (card ?R)"
    and q: "mset (pdl_Queue ?d) = mset_set ?R"
    using ok by (auto simp: update_ok_def pd_ok_def)
  have set_q: "set (pdl_Queue ?d) = ?R" using arg_cong [OF q, of set_mset] by simp
  moreover have "distinct (pdl_Queue ?d)"
    using arg_cong [OF q, of size] set_q by (intro card_distinct) simp
  moreover have sub: "?R \<subseteq> {..<GetChunkCount cm}" using len by (auto simp: ready_set_def)
  have "(card ?R = GetChunkCount cm) = (?R = {..<GetChunkCount cm})"
    using card_subset_eq [OF finite_lessThan sub] by (metis card_lessThan)
  moreover have "pdl_Queue ?d = [] \<or> us_isValidInit s" using ok set_q by (auto simp: update_ok_def)
  then have "pdl_Queue ?d = [] \<or> us_isSelfInit s \<and> us_isValidInit s \<and> \<not> pdl_IsSelf ?d \<and> \<not> us_abort s"
    using ok by (auto simp: update_ok_def)
  ultimately show ?thesis using len count by simp
qed

end
