(* ===== verification/Network_Lists.thy ===== *)
theory Network_Lists
  imports Network Peer_Updates
begin

text \<open>
  The list of available chunks over the network: what a request with a time in its query receives from
  the list handler, what the peer downloader makes of it, and what a list with a wrong index does.
\<close>

section \<open>The time in the query\<close>

definition query_char :: "char \<Rightarrow> bool" where
  "query_char c \<longleftrightarrow> unreserved c \<or> c = CHR ''+'' \<or> c = CHR ''%'' \<or> hexval c \<noteq> None"

lemma query_char_not:
  assumes "query_char c"
  shows "c \<noteq> CHR ''#'' \<and> c \<noteq> CHR ''&'' \<and> c \<noteq> CHR '';'' \<and> \<not> ctl_byte c"
  using assms
  by (intro conjI notI)
    (auto simp: query_char_def unreserved_def is_alpha_def is_num_def digit_value_def hexval_def ctl_byte_def Let_def split: if_splits)

lemma query_char_escape:
  "query_char (upper_hex (of_char x div 16))" "query_char (upper_hex (of_char x mod 16))"
proof -
  have "(of_char x :: nat) < 256" by simp
  then have "(of_char x :: nat) < 16 * 16" by linarith
  then have "(of_char x :: nat) div 16 < 16" by (rule less_mult_imp_div_less)
  then show "query_char (upper_hex (of_char x div 16))" "query_char (upper_hex (of_char x mod 16))"
    by (simp_all only: query_char_def hexval_upper mod_less_divisor simp_thms option.simps zero_less_numeral)
qed

lemma QueryEscape_chars: "\<forall>c \<in> set (QueryEscape s). query_char c"
proof (induction s)
  case (Cons x s)
  have x: "unreserved x \<Longrightarrow> query_char x" "query_char (CHR ''+'')" "query_char (CHR ''%'')"
    by (simp_all only: query_char_def simp_thms)
  have "QueryEscape (x # s) = (if unreserved x then [x] else if x = CHR '' '' then ''+''
        else [CHR ''%'', upper_hex (of_char x div 16), upper_hex (of_char x mod 16)]) @ QueryEscape s"
    by (simp add: QueryEscape_def)
  then show ?case using Cons x query_char_escape [of x] by (simp only: set_append ball_Un) (simp split: if_split)
qed (simp add: QueryEscape_def)

definition since_query :: "string \<Rightarrow> string" where
  "since_query s = ''only_updated_since='' @ QueryEscape s"

lemma since_query_chars: "\<forall>c \<in> set (since_query s). c \<noteq> CHR ''#'' \<and> c \<noteq> CHR ''&'' \<and> c \<noteq> CHR '';'' \<and> \<not> ctl_byte c"
proof -
  have a: "\<forall>c \<in> set ''only_updated_since=''. c \<noteq> CHR ''#'' \<and> c \<noteq> CHR ''&'' \<and> c \<noteq> CHR '';'' \<and> \<not> ctl_byte c"
    by (simp add: ctl_byte_def)
  show ?thesis
    unfolding since_query_def set_append
  proof
    fix c assume "c \<in> set ''only_updated_since='' \<union> set (QueryEscape s)"
    then show "c \<noteq> CHR ''#'' \<and> c \<noteq> CHR ''&'' \<and> c \<noteq> CHR '';'' \<and> \<not> ctl_byte c"
      by (rule UnE) (rule bspec [OF a], assumption, rule query_char_not, rule bspec [OF QueryEscape_chars], assumption)
  qed
qed

lemma ParseQuery_since: "ParseQuery (since_query s) ''only_updated_since'' = Some [s]"
proof -
  have no: "CHR ''&'' \<notin> set (since_query s)" "CHR '';'' \<notin> set (since_query s)" using since_query_chars [of s] by blast+
  have key: "CHR ''='' \<notin> set ''only_updated_since''" by simp
  have "since_query s = ''only_updated_since'' @ CHR ''='' # QueryEscape s" by (simp add: since_query_def)
  then have cut: "cut_at (CHR ''='') (since_query s) = (''only_updated_since'', QueryEscape s)"
    using cut_at_app [OF key, of "QueryEscape s"] by simp
  have "since_query s \<noteq> []" by (simp add: since_query_def)
  moreover have "unescape encodeQueryComponent ''only_updated_since'' = Some ''only_updated_since''" by code_simp
  ultimately show ?thesis
    using no by (simp add: ParseQuery_def Split_no_sep cut unescape_QueryEscape)
qed

section \<open>The list as JSON\<close>

text \<open>Times that the codec carries: what is formatted is read back, and is ASCII.\<close>

definition time_ok :: "time_codec \<Rightarrow> time \<Rightarrow> bool" where
  "time_ok tm t \<longleftrightarrow> tm_Parse tm (tm_Format tm t) = Inr t \<and> tm_Format tm t \<noteq> [] \<and>
     (\<forall>c \<in> set (tm_Format tm t). (of_char c :: nat) < 128)"

lemma list_field_names [simp]:
  "ToLower ''timestamp'' = ''timestamp''" "ToLower ''isCompleted'' = ''iscompleted''"
  "ToLower ''transferChunkIndexList'' = ''transferchunkindexlist''"
  by code_simp+

lemma Unmarshal_list:
  assumes "time_ok tm (al_Timestamp al)" and "\<forall>i \<in> set (al_TransferChunkIndexList al). int64_range i"
    and "al_IsCompleted al \<Longrightarrow> al_TransferChunkIndexList al = []"
  shows "Unmarshal_AvailableList tm (Marshal (json_of_AvailableList tm al)) = Inr al"
proof -
  have "wf_json (json_of_AvailableList tm al)"
    by (simp add: json_of_AvailableList_def wf_elems_map)
  moreover have "utf8_json (json_of_AvailableList tm al)"
    using assms(1) by (simp add: json_of_AvailableList_def utf8_elems_map time_ok_def ascii_utf8)
  ultimately have "parse_json (Marshal (json_of_AvailableList tm al)) = Some (json_of_AvailableList tm al)"
    by (rule Unmarshal_Marshal)
  moreover have "decode_slice (\<lambda>j. decode_int64 j 0) (JArr (map (\<lambda>i. JNum (FormatInt i)) (al_TransferChunkIndexList al))) =
      Inr (al_TransferChunkIndexList al)"
    using assms(2) by (simp add: decode_elems_map [where h = id, simplified])
  ultimately show ?thesis
    using assms(1,3)
    by (cases al) (auto simp: Unmarshal_AvailableList_def json_of_AvailableList_def AvailableList_field_def time_ok_def
        simp del: decode_slice.simps(2))
qed

section \<open>The request of a list\<close>

text \<open>The list that a server with this state sends to a request with this time.\<close>

definition sent_list :: "time \<Rightarrow> 'w server \<Rightarrow> AvailableList" where
  "sent_list since sv = \<lparr>al_Timestamp = sv_now sv, al_IsCompleted = sv_Completed sv,
     al_TransferChunkIndexList = if sv_Completed sv then [] else map int (GetStatusDoneChunks since (sv_ChunkManager sv))\<rparr>"

text \<open>The codec of whole bodies.\<close>

definition zstd_buffer_ok :: "http_env \<Rightarrow> bool" where
  "zstd_buffer_ok env \<longleftrightarrow> (\<forall>bs. case ev_zstd env bs of Inl err \<Rightarrow> False
     | Inr z \<Rightarrow> ev_unzstd env \<lparr>rd_data = z, rd_fin = EOF\<rparr> = \<lparr>rd_data = bs, rd_fin = EOF\<rparr>)"

lemma zstd_buffer_okD:
  "zstd_buffer_ok env \<Longrightarrow> \<exists>z. ev_zstd env bs = Inr z \<and> ev_unzstd env \<lparr>rd_data = z, rd_fin = EOF\<rparr> = \<lparr>rd_data = bs, rd_fin = EOF\<rparr>"
  unfolding zstd_buffer_ok_def by (drule spec [of _ bs]) (auto split: sum.splits)

lemma encodedResponse_answer:
  assumes z: "zstd_buffer_ok env"
  shows "\<exists>w sv'. encodedResponse env data r (NewResponseWriter, sv) = (w, sv') \<and>
    rs_StatusCode (response_of w) = 200 \<and>
    rs_Header (response_of w) ''Content-Type'' = Some [''application/json; charset=utf-8''] \<and>
    rc_reader (NewEncodingReadCloser env \<lparr>rc_reader = rs_Body (response_of w), rc_close = [BodyClosed]\<rparr>
       (TrimSpace (Header_Get (rs_Header (response_of w)) ''Content-Encoding''))) = \<lparr>rd_data = data, rd_fin = EOF\<rparr>"
proof -
  obtain zs where zs: "ev_zstd env data = Inr zs" "ev_unzstd env \<lparr>rd_data = zs, rd_fin = EOF\<rparr> = \<lparr>rd_data = data, rd_fin = EOF\<rparr>"
    using zstd_buffer_okD [OF z] by blast
  let ?e = "GetPreferredEncodingType (Header_values (sr_header r) ''Accept-Encoding'')"
  consider "?e = EncodingTypeNone" | "?e = EncodingTypeZstd"
    using preferred_cases by blast
  then show ?thesis
    by cases (simp_all add: encodedResponse_def setEncodingType_def NewBufferEncodingReader_def
          response_of_def w_Write_def w_WriteHeader_def w_Set_def Header_Set_def NewResponseWriter_def Let_def
          response_body_exact Header_Get_def NewEncodingReadCloser_def zs)
qed

lemma list_route:
  assumes "sr_path r = ''/chunk''" and q: "sr_query r ''only_updated_since'' = Some [tm_Format tm since]" and t: "time_ok tm since"
  shows "ServeHTTP hash env tm r sv =
    (case encodedResponse env (bytes_of (Marshal (json_of_AvailableList tm (sent_list since sv)))) r (NewResponseWriter, sv) of
       (w, sv') \<Rightarrow> Some (response_of w, snd (wrapped (w, sv'))))"
proof -
  have since: "getOnlyUpdatedSince tm r = Inr since" using q t by (simp add: getOnlyUpdatedSince_def time_ok_def)
  have "handle_chunk_list env tm r (NewResponseWriter, sv) =
      encodedResponse env (bytes_of (Marshal (json_of_AvailableList tm (sent_list since sv)))) r (NewResponseWriter, sv)"
    using since by (auto simp: handle_chunk_list_def availableListResponse_def sent_list_def NewAvailableList_def Let_def)
  then show ?thesis using assms(1) by (simp add: ServeHTTP_def Let_def wrapped_def split: prod.split)
qed

lemma RequestBody_encoded:
  assumes "ev_Do env (client_request url options) = Inr resp"
    and "200 \<le> rs_StatusCode resp" "rs_StatusCode resp < 300"
    and "checkContentType (rs_Header resp) (cf_expectedContentType (fold (\<lambda>option c. option c) options config0)) = None"
    and "rc_reader (NewEncodingReadCloser env \<lparr>rc_reader = rs_Body resp, rc_close = [BodyClosed]\<rparr>
       (TrimSpace (Header_Get (rs_Header resp) ''Content-Encoding''))) = \<lparr>rd_data = data, rd_fin = EOF\<rparr>"
  shows "fst (RequestBody env url options) = Inr data"
  using HttpClient_request_ok [OF assms(1-4)] assms(5)
  by (simp add: RequestBody_def RequestBodyWithContext_def ReadAll_def)

definition list_options :: "string \<Rightarrow> Option list" where
  "list_options compressType = [WithAcceptEncodingType compressType, WithExpectedContentType ''application/json'']"

lemma list_config:
  "fold (\<lambda>option c. option c) (list_options compressType) config0 =
     config0\<lparr>cf_acceptEncodingType := compressType, cf_expectedContentType := ''application/json''\<rparr>"
  by (simp add: list_options_def WithAcceptEncodingType_def WithExpectedContentType_def config0_def)

definition list_target :: string where "list_target = ''/chunk''"

lemma list_path: "hd list_target = CHR ''/''" "list_target \<noteq> []" "\<forall>c \<in> set list_target. path_char c"
  by (simp_all add: list_target_def path_char_def plain_char_def is_alpha_def)

lemma fetch_list:
  assumes peer: "peer_ok h p" "pdl_Host d = address h p" and t: "time_ok tm (pdl_LastUpdatedAt d)" and z: "zstd_buffer_ok env"
  shows "fst (RequestBody (connected hash env tm (address h p) sv) (list_url tm d) (list_options compressType)) =
    Inr (bytes_of (Marshal (json_of_AvailableList tm (sent_list (pdl_LastUpdatedAt d) sv))))"
proof -
  let ?since = "pdl_LastUpdatedAt d" and ?env = "connected hash env tm (address h p) sv"
  let ?q = "since_query (tm_Format tm ?since)" and ?opts = "list_options compressType"
  let ?rq = "client_request (list_url tm d) ?opts"
  let ?data = "bytes_of (Marshal (json_of_AvailableList tm (sent_list ?since sv)))"
  obtain resp sv' where run: "ServeHTTP hash env tm \<lparr>sr_path = list_target, sr_query = ParseQuery ?q, sr_header = rq_header ?rq\<rparr> sv = Some (resp, sv')"
    and resp: "rs_StatusCode resp = 200" "rs_Header resp ''Content-Type'' = Some [''application/json; charset=utf-8'']"
      "rc_reader (NewEncodingReadCloser env \<lparr>rc_reader = rs_Body resp, rc_close = [BodyClosed]\<rparr>
       (TrimSpace (Header_Get (rs_Header resp) ''Content-Encoding''))) = \<lparr>rd_data = ?data, rd_fin = EOF\<rparr>"
  proof -
    let ?r = "\<lparr>sr_path = list_target, sr_query = ParseQuery ?q, sr_header = rq_header ?rq\<rparr>"
    have "sr_path ?r = ''/chunk''" "sr_query ?r ''only_updated_since'' = Some [tm_Format tm ?since]"
      by (simp_all only: ServerRequest.select_convs list_target_def ParseQuery_since)
    note route = list_route [OF this t, of hash env sv]
    show thesis using encodedResponse_answer [OF z, of ?data ?r sv] that unfolding route by auto
  qed
  have url: "rq_url ?rq = ''http://'' @ address h p @ list_target @ with_query (Some ?q)"
    by (simp add: client_request_def request_of_def Let_def list_url_def peer_url_def peer(2) with_query_def list_target_def since_query_def)
  have q: "\<forall>s. Some ?q = Some s \<longrightarrow> CHR ''#'' \<notin> set s \<and> (\<forall>c \<in> set s. \<not> ctl_byte c)"
    using since_query_chars [of "tm_Format tm ?since"] by blast
  have "ev_Do ?env ?rq = Inr resp"
    by (rule connected_answer [OF peer(1) list_path q url]) (simp only: option.case, rule run)
  moreover have "NewEncodingReadCloser ?env = NewEncodingReadCloser env"
    by (rule ext)+ (simp add: NewEncodingReadCloser_def connected_def)
  ultimately show ?thesis
    using resp checkContentType_sent(1) [of "rs_Header resp", OF resp(2)]
    by (intro RequestBody_encoded [where resp = resp]) (simp_all only: list_config, simp_all)
qed

section \<open>The update\<close>

lemma int64_index: "i < n \<Longrightarrow> int n < 2 ^ 63 \<Longrightarrow> int64_range (int i)"
  by (simp add: int64_range_def)

lemma GetStatusDoneChunks_less: "i \<in> set (GetStatusDoneChunks since cm) \<Longrightarrow> i < GetChunkCount cm"
  by (simp add: GetStatusDoneChunks_def GetChunkCount_def)

lemma UpdatePeerAvailableList_received:
  assumes peer: "peer_ok h p" "pdl_Host d = address h p" and t: "time_ok tm (pdl_LastUpdatedAt d)" "time_ok tm (sv_now sv)"
    and z: "zstd_buffer_ok env" and n: "int (GetChunkCount (sv_ChunkManager sv)) < 2 ^ 63"
  shows "UpdatePeerAvailableList (connected hash env tm (address h p) sv) tm compressType draw d =
    apply_list draw (sent_list (pdl_LastUpdatedAt d) sv) d"
proof -
  have "Unmarshal_AvailableList tm (Marshal (json_of_AvailableList tm (sent_list (pdl_LastUpdatedAt d) sv))) =
      Inr (sent_list (pdl_LastUpdatedAt d) sv)"
  proof (rule Unmarshal_list)
    show "\<forall>i \<in> set (al_TransferChunkIndexList (sent_list (pdl_LastUpdatedAt d) sv)). int64_range i"
      using int64_index [OF GetStatusDoneChunks_less n] by (auto simp: sent_list_def)
  qed (use t in \<open>simp_all add: sent_list_def\<close>)
  then show ?thesis
    using fetch_list [OF peer t(1) z, of hash sv compressType]
    by (simp add: UpdatePeerAvailableList_def apply_list_def list_options_def string_of_bytes_of Let_def)
qed

lemma apply_list_marks:
  assumes "pd_ok d" and "\<not> al_IsCompleted al \<Longrightarrow> \<forall>i \<in> set (al_TransferChunkIndexList al). 0 \<le> i \<and> i < int (GetChunkCount (pdl_ChunkManager d))"
  shows "\<exists>d'. apply_list draw al d = (None, d') \<and> pd_ok d' \<and> pdl_LastUpdatedAt d' = al_Timestamp al \<and>
    ready_set d' = ready_set d \<union> (if al_IsCompleted al then {..<GetChunkCount (pdl_ChunkManager d)}
                                   else nat ` set (al_TransferChunkIndexList al))"
proof -
  let ?d = "d\<lparr>pdl_LastUpdatedAt := al_Timestamp al\<rparr>"
  let ?is = "if al_IsCompleted al then map int [0..<GetChunkCount (pdl_ChunkManager d)] else al_TransferChunkIndexList al"
  have ok: "pd_ok ?d" using assms(1) by simp
  have len: "length (pdl_AvailableChunkList ?d) = GetChunkCount (pdl_ChunkManager d)" using assms(1) by (simp add: pd_ok_def)
  have "\<forall>i \<in> set ?is. 0 \<le> i \<and> i < int (length (pdl_AvailableChunkList ?d))" using assms(2) len by auto
  then obtain new d' where m: "mark_chunks ?is [] ?d = Inr (new, d')"
    by (cases rule: mark_chunks_cases [of ?is "[]" ?d]) force+
  note M = mark_push_ok [OF ok m]
  have "nat ` set ?is = (if al_IsCompleted al then {..<GetChunkCount (pdl_ChunkManager d)} else nat ` set (al_TransferChunkIndexList al))"
    by (auto simp: image_image)
  then show ?thesis
    using m M rest_fields [OF M(3)] by (simp add: apply_list_def Let_def)
qed

lemma available_list_marks:
  assumes "peer_ok h p" and "pdl_Host d = address h p" and "pd_ok d"
    and "time_ok tm (pdl_LastUpdatedAt d)" and "time_ok tm (sv_now sv)" and "zstd_buffer_ok env"
    and n: "GetChunkCount (sv_ChunkManager sv) = GetChunkCount (pdl_ChunkManager d)" "int (GetChunkCount (pdl_ChunkManager d)) < 2 ^ 63"
  shows "\<exists>d'. UpdatePeerAvailableList (connected hash env tm (address h p) sv) tm compressType draw d = (None, d') \<and>
    pdl_LastUpdatedAt d' = sv_now sv \<and> mset (pdl_Queue d') = mset (pdl_Queue d) + mset_set (ready_set d' - ready_set d) \<and>
    ready_set d' = ready_set d \<union> {i. i < GetChunkCount (pdl_ChunkManager d) \<and> (sv_Completed sv \<or>
       Chunk_GetStatus (cm_chunks (sv_ChunkManager sv) ! i) = ChunkStatusDone \<and>
       pdl_LastUpdatedAt d < Chunk_GetUpdatedAt (cm_chunks (sv_ChunkManager sv) ! i))}"
proof -
  let ?al = "sent_list (pdl_LastUpdatedAt d) sv" and ?n = "GetChunkCount (pdl_ChunkManager d)"
  have "\<forall>i \<in> set (al_TransferChunkIndexList ?al). 0 \<le> i \<and> i < int ?n"
    using GetStatusDoneChunks_less [of _ "pdl_LastUpdatedAt d" "sv_ChunkManager sv"] n(1) by (auto simp: sent_list_def)
  then obtain d' where d': "apply_list draw ?al d = (None, d')" "pd_ok d'" "pdl_LastUpdatedAt d' = sv_now sv"
    "ready_set d' = ready_set d \<union> (if sv_Completed sv then {..<?n} else nat ` set (al_TransferChunkIndexList ?al))"
    using apply_list_marks [OF assms(3), of ?al draw] by (auto simp: sent_list_def)
  have "\<not> sv_Completed sv \<Longrightarrow> nat ` set (al_TransferChunkIndexList ?al) = set (GetStatusDoneChunks (pdl_LastUpdatedAt d) (sv_ChunkManager sv))"
    by (simp add: sent_list_def image_image)
  then have marked: "ready_set d' = ready_set d \<union> {i. i < ?n \<and> (sv_Completed sv \<or>
       Chunk_GetStatus (cm_chunks (sv_ChunkManager sv) ! i) = ChunkStatusDone \<and>
       pdl_LastUpdatedAt d < Chunk_GetUpdatedAt (cm_chunks (sv_ChunkManager sv) ! i))}"
    using d'(4) n(1) by (auto simp: GetStatusDoneChunks_def GetChunkCount_def)
  have "mset_set (ready_set d') = mset_set (ready_set d) + mset_set (ready_set d' - ready_set d)"
    using d'(4) by (subst mset_set_Union [symmetric]) (auto intro: arg_cong [of _ _ mset_set])
  then have "mset (pdl_Queue d') = mset (pdl_Queue d) + mset_set (ready_set d' - ready_set d)"
    using assms(3) d'(2) by (simp add: pd_ok_def)
  moreover have "UpdatePeerAvailableList (connected hash env tm (address h p) sv) tm compressType draw d = (None, d')"
    using UpdatePeerAvailableList_received [OF assms(1,2,4-6), of hash compressType draw] n d'(1) by simp
  ultimately show ?thesis using d'(3) marked by blast
qed

text \<open>Claim C32.
  A poll of a peer over HTTP, with or without compression, for a peer with the same number of chunks:
  the downloader then has marked, beside what it had, exactly the chunks that the peer has finished
  since the time of the last poll, or all chunks when the peer is complete; the newly marked chunks
  are in its queue, each once, and the time of the next poll is that of the peer's answer.\<close>

theorem available_list_update:
  assumes "peer_ok h p" and "pdl_Host d = address h p" and "pd_ok d"
    and "time_ok tm (pdl_LastUpdatedAt d)" and "time_ok tm (sv_now sv)" and "zstd_buffer_ok env"
    and n: "GetChunkCount (sv_ChunkManager sv) = GetChunkCount (pdl_ChunkManager d)" "int (GetChunkCount (pdl_ChunkManager d)) < 2 ^ 63"
  shows "\<exists>d'. UpdatePeerAvailableList (connected hash env tm (address h p) sv) tm compressType draw d = (None, d') \<and>
    pdl_LastUpdatedAt d' = sv_now sv \<and> mset (pdl_Queue d') = mset (pdl_Queue d) + mset_set (ready_set d' - ready_set d) \<and>
    ready_set d' = ready_set d \<union> {i. i < GetChunkCount (pdl_ChunkManager d) \<and> (sv_Completed sv \<or>
       Chunk_GetStatus (cm_chunks (sv_ChunkManager sv) ! i) = ChunkStatusDone \<and>
       pdl_LastUpdatedAt d < Chunk_GetUpdatedAt (cm_chunks (sv_ChunkManager sv) ! i))}"
  using available_list_marks [OF assms] .

definition demo_polled :: "unit server" where
  "demo_polled = \<lparr>sv_Completed = False, sv_UUID = ''u'', sv_Version = demo_version, sv_ServeOnly = False,
     sv_ChunkManager = \<lparr>cm_manifest = bare_manifest demo_version 10, cm_manifestJson = [],
       cm_chunks = [Chunk0, Chunk_SetUpdatedAt 3 (Chunk_SetStatus ChunkStatusDone Chunk0)], cm_chunkChecksums = [0, 0]\<rparr>,
     sv_Src = walk_only [] None, sv_Dst = walk_only [] None, sv_world = (), sv_Statistics = NewStatistics False,
     sv_LastSentAt = None, sv_now = 5\<rparr>"

lemma demo_time: "0 \<le> t \<Longrightarrow> t < 2 ^ 63 \<Longrightarrow> time_ok demo_codec t"
  using Atoi_FormatNat [of "nat t"] FormatNat_chars [of _ "nat t"]
  by (fastforce simp: time_ok_def demo_codec_def FormatInt_def)

lemma demo_buffer: "zstd_buffer_ok demo_http"
  by (simp add: zstd_buffer_ok_def demo_http_def)

theorem available_list_update_witness:
  "\<exists>d'. UpdatePeerAvailableList (connected (\<lambda>bs. 7) demo_http demo_codec ''seeder:7'' demo_polled) demo_codec ''zstd'' id
      (NewPeerDownloader (sv_ChunkManager demo_polled) ''me'' ''seeder:7'') = (None, d') \<and> ready_set d' = {1} \<and> pdl_LastUpdatedAt d' = 5"
proof -
  let ?d = "NewPeerDownloader (sv_ChunkManager demo_polled) ''me'' ''seeder:7''"
  have d: "pdl_Host ?d = address ''seeder'' (Some ''7'')" "pdl_LastUpdatedAt ?d = 0" "pdl_ChunkManager ?d = sv_ChunkManager demo_polled"
    by (simp_all add: NewPeerDownloader_def seeder_ok(2))
  have sv: "sv_now demo_polled = 5" "\<not> sv_Completed demo_polled" "GetChunkCount (sv_ChunkManager demo_polled) = 2"
    by (simp_all add: demo_polled_def GetChunkCount_def)
  have polled: "{i. i < 2 \<and> Chunk_GetStatus (cm_chunks (sv_ChunkManager demo_polled) ! i) = ChunkStatusDone \<and>
      0 < Chunk_GetUpdatedAt (cm_chunks (sv_ChunkManager demo_polled) ! i)} = {1}"
    by (auto simp: demo_polled_def Chunk0_def less_2_cases_iff Chunk_GetStatus_def Chunk_SetStatus_def Chunk_SetUpdatedAt_def
        Chunk_GetUpdatedAt_def AtomicTime_Load_def AtomicTime_Store_def)
  show ?thesis
    using available_list_update [OF seeder_ok(1) d(1) _ _ _ demo_buffer, of demo_codec demo_polled "\<lambda>bs. 7" "''zstd''" id]
      demo_time [of 0] demo_time [of 5] sv polled by (auto simp: d seeder_ok(2))
qed

section \<open>Indices that do not exist\<close>

text \<open>Claim C33.
  The indices of a list are not checked: when a peer that is not complete has finished, since the last
  poll, a chunk beyond the chunks of the own manifest, the poll ends in the run-time panic of an index
  out of range, which ends the program; otherwise it does not panic. The checksum of a peer is compared
  in the first successful round only, so the peer can be one that was restarted with another
  directory.\<close>

theorem poll_panics_iff:
  assumes "peer_ok h p" and "pdl_Host d = address h p" and "pd_ok d"
    and "time_ok tm (pdl_LastUpdatedAt d)" and "time_ok tm (sv_now sv)" and "zstd_buffer_ok env"
    and "int (GetChunkCount (sv_ChunkManager sv)) < 2 ^ 63" and "sv_Completed sv = False"
  shows "(fst (UpdatePeerAvailableList (connected hash env tm (address h p) sv) tm compressType draw d) = Some IndexPanic) =
    (\<exists>i. GetChunkCount (pdl_ChunkManager d) \<le> i \<and> i < GetChunkCount (sv_ChunkManager sv) \<and>
       Chunk_GetStatus (cm_chunks (sv_ChunkManager sv) ! i) = ChunkStatusDone \<and>
       pdl_LastUpdatedAt d < Chunk_GetUpdatedAt (cm_chunks (sv_ChunkManager sv) ! i))"
proof -
  let ?since = "pdl_LastUpdatedAt d" and ?n = "GetChunkCount (pdl_ChunkManager d)"
  let ?al = "sent_list ?since sv" and ?cs = "GetStatusDoneChunks ?since (sv_ChunkManager sv)"
  let ?d = "d\<lparr>pdl_LastUpdatedAt := al_Timestamp ?al\<rparr>"
  have al: "al_IsCompleted ?al = False" "al_TransferChunkIndexList ?al = map int ?cs" using assms(8) by (simp_all add: sent_list_def)
  have len: "length (pdl_AvailableChunkList ?d) = ?n" using assms(3) by (simp add: pd_ok_def)
  have "(fst (apply_list draw ?al d) = Some IndexPanic) = (\<exists>i \<in> set ?cs. ?n \<le> i)"
  proof (cases rule: mark_chunks_cases [of "map int ?cs" "[]" ?d])
    case panic
    then show ?thesis using len al by (auto simp: apply_list_def Let_def)
  next
    case (marked new d')
    have "\<not> (\<exists>i \<in> set ?cs. ?n \<le> i)"
      using mark_chunks_out [of "int _" "map int ?cs" ?d "[]"] marked(1) len by fastforce
    then show ?thesis using marked(1) al by (simp add: apply_list_def Let_def)
  qed
  moreover have "(\<exists>i \<in> set ?cs. ?n \<le> i) = (\<exists>i. ?n \<le> i \<and> i < GetChunkCount (sv_ChunkManager sv) \<and>
       Chunk_GetStatus (cm_chunks (sv_ChunkManager sv) ! i) = ChunkStatusDone \<and>
       ?since < Chunk_GetUpdatedAt (cm_chunks (sv_ChunkManager sv) ! i))"
    by (auto simp: GetStatusDoneChunks_def GetChunkCount_def)
  ultimately show ?thesis
    using UpdatePeerAvailableList_received [OF assms(1,2,4-7), of hash compressType draw] by simp
qed

theorem poll_panics_iff_witness:
  "fst (UpdatePeerAvailableList (connected (\<lambda>bs. 7) demo_http demo_codec ''seeder:7'' demo_polled) demo_codec ''none'' id
      (NewPeerDownloader ((sv_ChunkManager demo_polled)\<lparr>cm_chunks := [Chunk0]\<rparr>) ''me'' ''seeder:7'')) = Some IndexPanic"
proof -
  let ?d = "NewPeerDownloader ((sv_ChunkManager demo_polled)\<lparr>cm_chunks := [Chunk0]\<rparr>) ''me'' ''seeder:7''"
  have d: "pdl_Host ?d = address ''seeder'' (Some ''7'')" "pdl_LastUpdatedAt ?d = 0" "GetChunkCount (pdl_ChunkManager ?d) = 1"
    by (simp_all add: NewPeerDownloader_def seeder_ok(2) GetChunkCount_def)
  have sv: "sv_now demo_polled = 5" "sv_Completed demo_polled = False" "GetChunkCount (sv_ChunkManager demo_polled) = 2"
    by (simp_all add: demo_polled_def GetChunkCount_def)
  have "Chunk_GetStatus (cm_chunks (sv_ChunkManager demo_polled) ! 1) = ChunkStatusDone \<and>
      0 < Chunk_GetUpdatedAt (cm_chunks (sv_ChunkManager demo_polled) ! 1)"
    by (simp add: demo_polled_def Chunk0_def Chunk_GetStatus_def Chunk_SetStatus_def Chunk_SetUpdatedAt_def
        Chunk_GetUpdatedAt_def AtomicTime_Load_def AtomicTime_Store_def)
  then have "\<exists>i. 1 \<le> i \<and> i < 2 \<and> Chunk_GetStatus (cm_chunks (sv_ChunkManager demo_polled) ! i) = ChunkStatusDone \<and>
      0 < Chunk_GetUpdatedAt (cm_chunks (sv_ChunkManager demo_polled) ! i)" by (intro exI [of _ 1]) simp
  then show ?thesis
    using poll_panics_iff [OF seeder_ok(1) d(1) _ _ _ demo_buffer, of demo_codec demo_polled "\<lambda>bs. 7" "''none''" id]
      demo_time [of 0] demo_time [of 5] sv by (simp add: d seeder_ok(2))
qed

end
