(* ===== verification/Late_Stamps.thy ===== *)
theory Late_Stamps
  imports Network_Lists Downloader_Props
begin

text \<open>
  The time stamp of a finished chunk and the polls of other peers: a worker reads the clock before it
  stores the status and the stamp, so that a peer that polls in between never hears of the chunk
  until the whole transfer is complete.
\<close>

section \<open>Stamps are in the past\<close>

definition stamped :: "time \<Rightarrow> worker \<Rightarrow> bool" where
  "stamped now w = (case w of WWritten i t \<Rightarrow> t \<le> now | WStamp i t \<Rightarrow> t \<le> now | _ \<Rightarrow> True)"

definition dl_stamped :: "time \<Rightarrow> dl \<Rightarrow> bool" where
  "dl_stamped now d \<longleftrightarrow> (\<forall>w \<in> set (d_workers d). stamped now w)"

lemma dl_stamped_update:
  "dl_stamped now d \<Longrightarrow> d_workers d' = (d_workers d)[k := w] \<Longrightarrow> stamped now w \<Longrightarrow> dl_stamped now d'"
  unfolding dl_stamped_def by (metis insert_iff set_update_subset_insert subsetD)

lemma dispatch_workers: "dispatch sh d = Some (sh', d') \<Longrightarrow> d_workers d' = d_workers d \<and> sh_now sh' = sh_now sh"
  by (auto simp: goto_def put_back_def split: dispatcher.splits ChunkStatus.splits prod.splits bool.splits if_splits)

lemma work_stamped:
  assumes "work ok k sh d = Some (sh', d')" and "dl_stamped (sh_now sh) d" and "k < length (d_workers d)"
  shows "dl_stamped (sh_now sh) d' \<and> sh_now sh' = sh_now sh"
proof -
  have w: "stamped (sh_now sh) (d_workers d ! k)" using assms(2,3) by (simp add: dl_stamped_def)
  have "d_workers d' = (d_workers d)[k := d_workers d' ! k] \<and> stamped (sh_now sh) (d_workers d' ! k) \<and> sh_now sh' = sh_now sh"
    using assms(1,3) w
    by (cases "d_workers d ! k") (auto simp: stamped_def set_worker_def set_status_def put_back_def split: if_splits)
  then show ?thesis using dl_stamped_update [OF assms(2)] by blast
qed

lemma handoff_stamped:
  assumes "handoff k d = Some d'" and "dl_stamped now d"
  shows "dl_stamped now d'"
proof -
  obtain i where "d_workers d' = (d_workers d)[k := WReceived i]"
    using assms(1) by (auto simp: handoff_def goto_def set_worker_def split: dispatcher.splits worker.splits)
  then show ?thesis by (rule dl_stamped_update [OF assms(2)]) (simp add: stamped_def)
qed

lemma stamped_mono: "stamped now w \<Longrightarrow> now \<le> now' \<Longrightarrow> stamped now' w"
  by (cases w) (auto simp: stamped_def)

definition system_stamped :: "system \<Rightarrow> bool" where
  "system_stamped s \<longleftrightarrow> (\<forall>d \<in> set (sy_dls s). dl_stamped (sh_now (sy_shared s)) d)"

lemma system_stamped_update:
  "\<forall>d \<in> set dls. dl_stamped now d \<Longrightarrow> dl_stamped now d' \<Longrightarrow> \<forall>d \<in> set (dls[j := d']). dl_stamped now d"
  by (metis insert_iff set_update_subset_insert subsetD)

lemma step_stamped:
  assumes "step s s'" and "system_stamped s"
  shows "system_stamped s'"
  using assms
proof cases
  case (dispatcher j dls sh sh' d)
  then have "dl_stamped (sh_now sh) d" using assms(2) dispatch_workers [of sh "dls ! j" sh' d]
    by (auto simp: system_stamped_def dl_stamped_def)
  then show ?thesis using dispatcher assms(2) dispatch_workers [of sh "dls ! j" sh' d] system_stamped_update [of dls "sh_now sh" d j]
    by (simp add: system_stamped_def)
next
  case (worker j dls k ok sh sh' d)
  then have "dl_stamped (sh_now sh) d \<and> sh_now sh' = sh_now sh"
    using assms(2) work_stamped [of ok k sh "dls ! j" sh' d] by (auto simp: system_stamped_def)
  then show ?thesis using worker assms(2) system_stamped_update [of dls "sh_now sh" d j] by (simp add: system_stamped_def)
next
  case (channel j dls k d sh)
  then have "dl_stamped (sh_now sh) d" using assms(2) handoff_stamped [of k "dls ! j" d "sh_now sh"] by (auto simp: system_stamped_def)
  then show ?thesis using channel assms(2) system_stamped_update [of dls "sh_now sh" d j] by (simp add: system_stamped_def)
next
  case (announce j dls idx sh draw)
  then have "dl_stamped (sh_now sh) (Downloader.announce draw idx (dls ! j))"
    using assms(2) by (auto simp: system_stamped_def dl_stamped_def announce_def Let_def)
  then show ?thesis using announce assms(2) system_stamped_update [of dls "sh_now sh" _ j] by (simp add: system_stamped_def)
next
  case (start sh dls n)
  then show ?thesis using assms(2) by (auto simp: system_stamped_def dl_stamped_def new_dl_def stamped_def)
next
  case (stop j dls sh)
  then have "dl_stamped (sh_now sh) ((dls ! j)\<lparr>d_valid := False\<rparr>)" using assms(2) by (auto simp: system_stamped_def dl_stamped_def)
  then show ?thesis using stop assms(2) system_stamped_update [of dls "sh_now sh" _ j] by (simp add: system_stamped_def)
next
  case (cancel sh dls)
  then show ?thesis using assms(2) by (simp add: system_stamped_def)
next
  case (tick sh t dls)
  then show ?thesis using assms(2) stamped_mono by (fastforce simp: system_stamped_def dl_stamped_def)
qed

lemma reachable_stamped: "reachable cs s \<Longrightarrow> system_stamped s"
proof (induction rule: reachable.induct)
  case (init t)
  then show ?case by (simp add: initial_def system_stamped_def)
qed (rule step_stamped)

section \<open>Polls that come too late\<close>

text \<open>Polls of one peer, one server state after the other.\<close>

fun polls :: "(byte list \<Rightarrow> uint64) \<Rightarrow> http_env \<Rightarrow> time_codec \<Rightarrow> string \<Rightarrow> string \<Rightarrow> (nat \<Rightarrow> nat) \<Rightarrow> 'w server list \<Rightarrow>
    PeerDownloader \<Rightarrow> PeerDownloader" where
  "polls hash env tm host ct draw [] d = d"
| "polls hash env tm host ct draw (sv # svs) d =
     polls hash env tm host ct draw svs (snd (UpdatePeerAvailableList (connected hash env tm host sv) tm ct draw d))"

lemma poll_misses:
  assumes peer: "peer_ok h p" "pdl_Host d = address h p" "pd_ok d" "time_ok tm (pdl_LastUpdatedAt d)" "zstd_buffer_ok env"
    and n: "int (GetChunkCount (pdl_ChunkManager d)) < 2 ^ 63" and i: "i \<notin> ready_set d" "t \<le> pdl_LastUpdatedAt d"
    and sv: "sv_Completed sv = False" "GetChunkCount (sv_ChunkManager sv) = GetChunkCount (pdl_ChunkManager d)"
      "time_ok tm (sv_now sv)" "Chunk_GetUpdatedAt (cm_chunks (sv_ChunkManager sv) ! i) = t"
  shows "let d' = snd (UpdatePeerAvailableList (connected hash env tm (address h p) sv) tm ct draw d) in
    pdl_Host d' = address h p \<and> pd_ok d' \<and> GetChunkCount (pdl_ChunkManager d') = GetChunkCount (pdl_ChunkManager d) \<and>
    pdl_LastUpdatedAt d' = sv_now sv \<and> i \<notin> ready_set d'"
proof -
  let ?u = "UpdatePeerAvailableList (connected hash env tm (address h p) sv) tm ct draw d"
  have "pd_ok (snd ?u) \<and> same_peer d (snd ?u)" by (rule UpdatePeerAvailableList_ok [OF peer(3)])
  then show ?thesis
    using available_list_marks [OF peer(1-4) sv(3) peer(5) sv(2) n, of hash ct draw] i sv(1,4) peer(2)
    by (auto simp: same_peer_def Let_def)
qed

lemma polls_miss:
  assumes "peer_ok h p" "pdl_Host d = address h p" "pd_ok d" "time_ok tm (pdl_LastUpdatedAt d)" "zstd_buffer_ok env"
    and "int (GetChunkCount (pdl_ChunkManager d)) < 2 ^ 63" and "i \<notin> ready_set d" "t \<le> pdl_LastUpdatedAt d"
    and "\<forall>sv \<in> set svs. sv_Completed sv = False \<and> GetChunkCount (sv_ChunkManager sv) = GetChunkCount (pdl_ChunkManager d) \<and>
      time_ok tm (sv_now sv) \<and> t \<le> sv_now sv \<and> Chunk_GetUpdatedAt (cm_chunks (sv_ChunkManager sv) ! i) = t"
  shows "i \<notin> ready_set (polls hash env tm (address h p) ct draw svs d)"
  using assms(2-4,6-)
proof (induction svs arbitrary: d)
  case (Cons sv svs)
  let ?d = "snd (UpdatePeerAvailableList (connected hash env tm (address h p) sv) tm ct draw d)"
  have "pdl_Host ?d = address h p" "pd_ok ?d" "GetChunkCount (pdl_ChunkManager ?d) = GetChunkCount (pdl_ChunkManager d)"
    "pdl_LastUpdatedAt ?d = sv_now sv" "i \<notin> ready_set ?d"
    using poll_misses [OF assms(1) Cons.prems(1-3) assms(5) Cons.prems(4-6), of sv hash ct draw] Cons.prems(7)
    by (simp_all add: Let_def)
  then show ?case using Cons.IH [of ?d] Cons.prems by simp
qed simp

text \<open>Claim C34.
  A finished chunk can stay unknown to a peer until the whole transfer is complete. A worker reads the
  clock, then stores the status done, then stores the time it has read. When a peer polls between the
  reading and the stores, in any state that the program can reach, the chunk is not listed, and the
  time that the peer keeps for its next poll is not before the time stamp; so every later poll, while the
  server is not complete, leaves the chunk unmarked, although its status is done.\<close>

theorem late_stamp_never_announced:
  assumes reach: "reachable cs s" and j: "j < length (sy_dls s)" and k: "k < length (d_workers (sy_dls s ! j))"
    and written: "d_workers (sy_dls s ! j) ! k = WWritten i t"
    and stores: "work ok k (sy_shared s) (sy_dls s ! j) = Some (sh1, dl1)" "work ok k sh1 dl1 = Some (sh2, dl2)"
    and peer: "peer_ok h p" "pdl_Host d = address h p" "pd_ok d" "time_ok tm (pdl_LastUpdatedAt d)" "zstd_buffer_ok env"
    and n: "GetChunkCount (pdl_ChunkManager d) = length (sh_chunks sh2)" "int (length (sh_chunks sh2)) < 2 ^ 63"
    and polled: "pdl_LastUpdatedAt d = sh_now (sy_shared s)" "i \<notin> ready_set d"
    and later: "\<forall>sv \<in> set svs. sv_Completed sv = False \<and> GetChunkCount (sv_ChunkManager sv) = length (sh_chunks sh2) \<and>
      time_ok tm (sv_now sv) \<and> sh_now (sy_shared s) \<le> sv_now sv \<and> cm_chunks (sv_ChunkManager sv) ! i = sh_chunks sh2 ! i"
  shows "Chunk_GetStatus (sh_chunks sh2 ! i) = ChunkStatusDone \<and> Chunk_GetUpdatedAt (sh_chunks sh2 ! i) = t \<and>
    i \<notin> ready_set (polls hash env tm (address h p) ct draw svs d)"
proof -
  let ?sh = "sy_shared s" and ?d = "sy_dls s ! j"
  have ok: "dl_ok ?sh ?d" using reachable_ok [OF reach] j by (simp add: system_ok_def)
  have i: "i < length (sh_chunks ?sh)" using worker_facts(3) [OF ok k, of i] written by simp
  have "stamped (sh_now ?sh) (WWritten i t)"
    using reachable_stamped [OF reach] j k written unfolding system_stamped_def dl_stamped_def by (metis nth_mem)
  then have t: "t \<le> sh_now ?sh" by (simp add: stamped_def)
  have 1: "sh1 = set_status i ChunkStatusDone ?sh" "d_workers dl1 ! k = WStamp i t"
    using stores(1) written k by (auto simp: set_worker_def)
  then have "sh_chunks sh2 ! i = Chunk_SetUpdatedAt t (Chunk_SetStatus ChunkStatusDone (sh_chunks ?sh ! i))"
    using stores(2) i by (auto simp: set_status_def)
  then have c: "Chunk_GetStatus (sh_chunks sh2 ! i) = ChunkStatusDone" "Chunk_GetUpdatedAt (sh_chunks sh2 ! i) = t"
    by (simp_all add: Chunk_GetStatus_def Chunk_SetStatus_def Chunk_SetUpdatedAt_def Chunk_GetUpdatedAt_def
        AtomicTime_Load_def AtomicTime_Store_def)
  have "i \<notin> ready_set (polls hash env tm (address h p) ct draw svs d)"
    using polls_miss [OF peer _ polled(2), of t svs hash ct draw] n polled(1) t later c(2) by fastforce
  then show ?thesis using c by simp
qed

theorem late_stamp_never_announced_witness:
  "\<exists>sh1 dl1 sh2 dl2. work True 0 (sy_shared (demo_state ChunkStatusDownloading AtTop (WWritten 0 5) [] 0 5))
      (sy_dls (demo_state ChunkStatusDownloading AtTop (WWritten 0 5) [] 0 5) ! 0) = Some (sh1, dl1) \<and>
    work True 0 sh1 dl1 = Some (sh2, dl2) \<and> Chunk_GetStatus (sh_chunks sh2 ! 0) = ChunkStatusDone \<and>
    0 \<notin> ready_set (polls (\<lambda>bs. 7) demo_http demo_codec ''seeder:7'' ''none'' id
      [demo_polled\<lparr>sv_ChunkManager := (sv_ChunkManager demo_polled)\<lparr>cm_chunks := sh_chunks sh2\<rparr>, sv_now := 6\<rparr>,
       demo_polled\<lparr>sv_ChunkManager := (sv_ChunkManager demo_polled)\<lparr>cm_chunks := sh_chunks sh2\<rparr>, sv_now := 7\<rparr>]
      ((NewPeerDownloader ((sv_ChunkManager demo_polled)\<lparr>cm_chunks := sh_chunks sh2\<rparr>) ''me'' ''seeder:7'')\<lparr>pdl_LastUpdatedAt := 5\<rparr>))"
proof -
  let ?s = "demo_state ChunkStatusDownloading AtTop (WWritten 0 5) [] 0 5"
  obtain sh1 dl1 sh2 dl2 where run: "work True 0 (sy_shared ?s) (sy_dls ?s ! 0) = Some (sh1, dl1)"
    "work True 0 sh1 dl1 = Some (sh2, dl2)" and len: "length (sh_chunks sh2) = 1"
    by (simp add: demo_eval)
  let ?cm = "(sv_ChunkManager demo_polled)\<lparr>cm_chunks := sh_chunks sh2\<rparr>"
  let ?d = "(NewPeerDownloader ?cm ''me'' ''seeder:7'')\<lparr>pdl_LastUpdatedAt := 5\<rparr>"
  have s: "sh_now (sy_shared ?s) = 5" "0 < length (sy_dls ?s)" "0 < length (d_workers (sy_dls ?s ! 0))"
    "d_workers (sy_dls ?s ! 0) ! 0 = WWritten 0 5" by (simp_all add: demo_state_def)
  have d: "pdl_Host ?d = address ''seeder'' (Some ''7'')" "pd_ok ?d" "pdl_LastUpdatedAt ?d = 5" "0 \<notin> ready_set ?d"
    "GetChunkCount (pdl_ChunkManager ?d) = length (sh_chunks sh2)"
    by (simp_all add: seeder_ok(2)) (simp_all add: NewPeerDownloader_def seeder_ok(2) GetChunkCount_def)
  have "sv_Completed demo_polled = False" by (simp add: demo_polled_def)
  then have "Chunk_GetStatus (sh_chunks sh2 ! 0) = ChunkStatusDone \<and>
    0 \<notin> ready_set (polls (\<lambda>bs. 7) demo_http demo_codec (address ''seeder'' (Some ''7'')) ''none'' id
      [demo_polled\<lparr>sv_ChunkManager := ?cm, sv_now := 6\<rparr>, demo_polled\<lparr>sv_ChunkManager := ?cm, sv_now := 7\<rparr>] ?d)"
    using late_stamp_never_announced [OF demo_written s(2,3,4) run seeder_ok(1) d(1,2) _ demo_buffer d(5),
        of demo_codec "[demo_polled\<lparr>sv_ChunkManager := ?cm, sv_now := 6\<rparr>, demo_polled\<lparr>sv_ChunkManager := ?cm, sv_now := 7\<rparr>]"
          "\<lambda>bs. 7" "''none''" id] d(3,4) s(1) len demo_time [of 5] demo_time [of 6] demo_time [of 7]
    by (simp add: GetChunkCount_def)
  then show ?thesis using run unfolding seeder_ok(2) by blast
qed

end
