(* ===== verification/Command.thy ===== *)
theory Command
  imports Go_Strings "HOL-Library.Multiset"
begin

text \<open>
  File \<open>utils/command.go\<close>: the commands that are run when a file or the whole transfer is complete.
  The templates are functions on strings. The channel of commands with its one place, the goroutine of
  \<open>Run\<close>, the goroutines that execute the commands, and \<open>Stop\<close> are a step relation over any number of
  concurrent callers. The shell is a parameter.
\<close>

section \<open>Templates\<close>

definition TemplateElapsedTime :: string where "TemplateElapsedTime = ''%{elapsed_time}''"
definition TemplateFileCount :: string where "TemplateFileCount = ''%{file_count}''"
definition TemplateTotalFileSize :: string where "TemplateTotalFileSize = ''%{total_file_size}''"
definition TemplateFilePath :: string where "TemplateFilePath = ''%{file_path}''"
definition TemplateFileSize :: string where "TemplateFileSize = ''%{file_size}''"

text \<open>The text that \<open>runOnComplete\<close> and \<open>runOnEachFileComplete\<close> send to the channel.\<close>

definition runOnComplete :: "string \<Rightarrow> int \<Rightarrow> int \<Rightarrow> string \<Rightarrow> string" where
  "runOnComplete command fileCount totalFileSize elapsedTime =
     (let c1 = Replace command TemplateFileCount (FormatInt fileCount);
          c2 = Replace c1 TemplateTotalFileSize (FormatInt totalFileSize)
      in Replace c2 TemplateElapsedTime elapsedTime)"

definition runOnEachFileComplete :: "string \<Rightarrow> string \<Rightarrow> int \<Rightarrow> string" where
  "runOnEachFileComplete command filePath fileSize =
     (let c1 = Replace command TemplateFilePath filePath
      in Replace c1 TemplateFileSize (FormatInt fileSize))"

section \<open>The state\<close>

text \<open>
  The two callbacks, which do nothing for an empty option: what they send, if anything. \<open>timeout\<close> is
  \<open>commandTimeout\<close>.
\<close>

record Command =
  cd_onComplete :: string
  cd_onEachFileComplete :: string
  cd_timeout :: duration

definition NewCommand :: "string \<Rightarrow> string \<Rightarrow> duration \<Rightarrow> Command" where
  "NewCommand onCompleteCommand onEachFileCompleteCommand commandTimeout =
     \<lparr>cd_onComplete = onCompleteCommand, cd_onEachFileComplete = onEachFileCompleteCommand, cd_timeout = commandTimeout\<rparr>"

definition RunOnComplete :: "int \<Rightarrow> int \<Rightarrow> string \<Rightarrow> Command \<Rightarrow> string option" where
  "RunOnComplete fileCount totalFileSize elapsedTime c =
     (if cd_onComplete c = [] then None
      else Some (runOnComplete (cd_onComplete c) fileCount totalFileSize elapsedTime))"

definition RunOnEachFileComplete :: "string \<Rightarrow> int \<Rightarrow> Command \<Rightarrow> string option" where
  "RunOnEachFileComplete filePath fileSize c =
     (if cd_onEachFileComplete c = [] then None
      else Some (runOnEachFileComplete (cd_onEachFileComplete c) filePath fileSize))"

text \<open>
  \<open>run\<close>: \<open>bash -c command\<close>, killed with its process group after the timeout. The shell either cannot be
  started or ends after some time with its error; \<open>Never\<close> is a shell that does not end by itself.
\<close>

datatype shell = StartFails | Ends duration "go_error option" | Never

datatype outcome = NotStarted | Killed | Exited "go_error option"

definition Command_run :: "(string \<Rightarrow> shell) \<Rightarrow> Command \<Rightarrow> string \<Rightarrow> outcome" where
  "Command_run sh c command =
     (case sh command of
        StartFails \<Rightarrow> NotStarted
      | Ends t err \<Rightarrow> if t < cd_timeout c then Exited err else Killed
      | Never \<Rightarrow> Killed)"

text \<open>
  The channel and the goroutines: the callers that have added to the wait group and wait for a place
  in the channel, the channel, the commands that are executing, those that have ended with their
  outcome, the counter of the wait group, whether the channel is closed, whether the loop of \<open>Run\<close> has
  ended, and whether a caller has sent on the closed channel, which panics.
\<close>

record queue_state =
  cq_callers :: "string list"
  cq_channel :: "string list"
  cq_running :: "string list"
  cq_ended :: "(string \<times> outcome) list"
  cq_waitGroup :: int
  cq_closed :: bool
  cq_stopped :: bool
  cq_panic :: bool

definition Command_Run :: queue_state where
  "Command_Run = \<lparr>cq_callers = [], cq_channel = [], cq_running = [], cq_ended = [], cq_waitGroup = 0, cq_closed = False,
     cq_stopped = False, cq_panic = False\<rparr>"

text \<open>The parts of a call: \<open>Add\<close>, then the send, which waits for a place.\<close>

definition cq_call :: "string \<Rightarrow> queue_state \<Rightarrow> queue_state" where
  "cq_call command q = q\<lparr>cq_waitGroup := cq_waitGroup q + 1, cq_callers := cq_callers q @ [command]\<rparr>"

definition cq_send :: "nat \<Rightarrow> queue_state \<Rightarrow> queue_state option" where
  "cq_send i q =
     (if length (cq_callers q) \<le> i then None
      else if cq_closed q then Some (q\<lparr>cq_panic := True\<rparr>)
      else if cq_channel q \<noteq> [] then None
      else Some (q\<lparr>cq_channel := [cq_callers q ! i], cq_callers := take i (cq_callers q) @ drop (Suc i) (cq_callers q)\<rparr>))"

text \<open>The loop of \<open>Run\<close>: receive and start a goroutine, or end when the channel is closed and empty.\<close>

definition cq_receive :: "queue_state \<Rightarrow> queue_state option" where
  "cq_receive q =
     (if cq_stopped q then None
      else case cq_channel q of
             command # rest \<Rightarrow> Some (q\<lparr>cq_channel := rest, cq_running := cq_running q @ [command]\<rparr>)
           | [] \<Rightarrow> if cq_closed q then Some (q\<lparr>cq_stopped := True\<rparr>) else None)"

text \<open>A command ends, and its goroutine calls \<open>Done\<close>.\<close>

definition cq_finish :: "(string \<Rightarrow> shell) \<Rightarrow> Command \<Rightarrow> nat \<Rightarrow> queue_state \<Rightarrow> queue_state option" where
  "cq_finish sh c i q =
     (if length (cq_running q) \<le> i then None
      else Some (q\<lparr>cq_running := take i (cq_running q) @ drop (Suc i) (cq_running q), cq_waitGroup := cq_waitGroup q - 1,
                   cq_ended := cq_ended q @ [(cq_running q ! i, Command_run sh c (cq_running q ! i))]\<rparr>))"

text \<open>\<open>Stop\<close>: close the channel; it returns when the loop has ended and the wait group is empty.\<close>

definition cq_close :: "queue_state \<Rightarrow> queue_state" where
  "cq_close q = q\<lparr>cq_closed := True\<rparr>"

definition Stop_returns :: "queue_state \<Rightarrow> bool" where
  "Stop_returns q \<longleftrightarrow> cq_closed q \<and> cq_stopped q \<and> cq_waitGroup q = 0"

inductive command_step :: "(string \<Rightarrow> shell) \<Rightarrow> Command \<Rightarrow> queue_state \<Rightarrow> queue_state \<Rightarrow> bool" for sh c where
  send: "cq_send i q = Some q' \<Longrightarrow> command_step sh c q q'"
| receive: "cq_receive q = Some q' \<Longrightarrow> command_step sh c q q'"
| finish: "cq_finish sh c i q = Some q' \<Longrightarrow> command_step sh c q q'"

text \<open>Runs of the program: calls come from outside; \<open>Stop\<close> closes the channel once.\<close>

inductive command_reach :: "(string \<Rightarrow> shell) \<Rightarrow> Command \<Rightarrow> string list \<Rightarrow> queue_state \<Rightarrow> bool" for sh c where
  start: "command_reach sh c [] Command_Run"
| call: "command_reach sh c cs q \<Longrightarrow> command_reach sh c (cs @ [command]) (cq_call command q)"
| close: "command_reach sh c cs q \<Longrightarrow> \<not> cq_closed q \<Longrightarrow> command_reach sh c cs (cq_close q)"
| step: "command_reach sh c cs q \<Longrightarrow> command_step sh c q q' \<Longrightarrow> command_reach sh c cs q'"

section \<open>Every command is executed once\<close>

definition cq_held :: "queue_state \<Rightarrow> string multiset" where
  "cq_held q = mset (cq_callers q) + mset (cq_channel q) + mset (cq_running q)"

definition cq_ok :: "(string \<Rightarrow> shell) \<Rightarrow> Command \<Rightarrow> string list \<Rightarrow> queue_state \<Rightarrow> bool" where
  "cq_ok sh c cs q \<longleftrightarrow>
     mset cs = cq_held q + mset (map fst (cq_ended q)) \<and> cq_waitGroup q = int (size (cq_held q)) \<and>
     (\<forall>(command, r) \<in> set (cq_ended q). r = Command_run sh c command) \<and>
     (cq_stopped q \<longrightarrow> cq_closed q \<and> cq_channel q = [])"

lemma mset_remove_nth: "i < length xs \<Longrightarrow> mset xs = mset (take i xs @ drop (Suc i) xs) + {#xs ! i#}"
  by (metis add_mset_add_single id_take_nth_drop mset.simps(2) mset_append union_mset_add_mset_right)

lemma command_step_ok:
  assumes "command_step sh c q q'" and "cq_ok sh c cs q"
  shows "cq_ok sh c cs q'"
  using assms
proof cases
  case (send i)
  then show ?thesis using assms(2) mset_remove_nth [of i "cq_callers q"]
    by (auto simp: cq_send_def cq_ok_def cq_held_def split: if_splits)
next
  case receive
  then show ?thesis using assms(2) by (auto simp: cq_receive_def cq_ok_def cq_held_def split: if_splits list.splits)
next
  case (finish i)
  then show ?thesis using assms(2) mset_remove_nth [of i "cq_running q"]
    by (auto simp: cq_finish_def cq_ok_def cq_held_def split: if_splits)
qed

lemma command_reach_ok: "command_reach sh c cs q \<Longrightarrow> cq_ok sh c cs q"
proof (induction rule: command_reach.induct)
  case start
  then show ?case by (simp add: cq_ok_def Command_Run_def cq_held_def)
next
  case (call cs q command)
  then show ?case by (auto simp: cq_ok_def cq_call_def cq_held_def)
next
  case (close cs q)
  then show ?case by (auto simp: cq_ok_def cq_close_def cq_held_def)
next
  case (step cs q q')
  then show ?case by (auto intro: command_step_ok)
qed

text \<open>The work that is left: three steps for a waiting caller, one less in the channel, one when it runs.\<close>

definition cq_work :: "queue_state \<Rightarrow> nat" where
  "cq_work q = 3 * length (cq_callers q) + 2 * length (cq_channel q) + length (cq_running q) + (if cq_stopped q then 0 else 1)"

lemma nth_split: "i < length xs \<Longrightarrow> length (take i xs @ drop (Suc i) xs) = length xs - 1"
  by simp

lemma command_step_closed:
  assumes "command_step sh c q q'" and "cq_closed q" and "cq_callers q = []"
  shows "cq_closed q' \<and> cq_callers q' = [] \<and> cq_work q' < cq_work q"
  using assms
  by cases (auto simp: cq_send_def cq_receive_def cq_finish_def cq_work_def split: if_splits list.splits)

lemma command_steps_closed:
  assumes "(command_step sh c ^^ n) q q'" and "cq_closed q" and "cq_callers q = []" and "cq_ok sh c cs q"
  shows "cq_closed q' \<and> cq_callers q' = [] \<and> cq_ok sh c cs q' \<and> n + cq_work q' \<le> cq_work q"
  using assms(1)
proof (induction n arbitrary: q')
  case (Suc n)
  then obtain r where r: "(command_step sh c ^^ n) q r" "command_step sh c r q'" by auto
  with Suc.IH [OF r(1)] command_step_closed [OF r(2)] command_step_ok [OF r(2)] show ?case by fastforce
qed (use assms in simp)

lemma command_stuck_iff:
  assumes "cq_ok sh c cs q" and "cq_closed q" and "cq_callers q = []"
  shows "(\<nexists>q'. command_step sh c q q') \<longleftrightarrow> Stop_returns q"
proof
  assume stuck: "\<nexists>q'. command_step sh c q q'"
  have "cq_receive q = None" using stuck command_step.receive [of q] by (cases "cq_receive q") blast+
  then have "cq_stopped q" using assms(2) by (auto simp: cq_receive_def split: if_splits list.splits)
  moreover have "cq_finish sh c 0 q = None" using stuck command_step.finish [of sh c 0 q] by (cases "cq_finish sh c 0 q") blast+
  then have "cq_running q = []" by (simp add: cq_finish_def split: if_splits)
  ultimately show "Stop_returns q" using assms by (simp add: Stop_returns_def cq_ok_def cq_held_def)
next
  assume "Stop_returns q"
  then have "cq_stopped q" "cq_channel q = []" "cq_running q = []"
    using assms by (auto simp: Stop_returns_def cq_ok_def cq_held_def)
  then show "\<nexists>q'. command_step sh c q q'"
    using assms(3) by (auto simp: cq_send_def cq_receive_def cq_finish_def elim!: command_step.cases)
qed

lemma cq_ok_ended:
  assumes "cq_ok sh c cs q" and "Stop_returns q" and "cq_callers q = []"
  shows "mset (cq_ended q) = mset (map (\<lambda>command. (command, Command_run sh c command)) cs)"
proof -
  have "mset cs = mset (map fst (cq_ended q))" and r: "\<forall>(command, r) \<in> set (cq_ended q). r = Command_run sh c command"
    using assms by (auto simp: cq_ok_def cq_held_def Stop_returns_def)
  then have "mset (map (\<lambda>command. (command, Command_run sh c command)) cs)
      = mset (map (\<lambda>command. (command, Command_run sh c command)) (map fst (cq_ended q)))"
    by (simp only: mset_map)
  also have "map (\<lambda>command. (command, Command_run sh c command)) (map fst (cq_ended q)) = cq_ended q"
    unfolding map_map using r by (intro map_idI) auto
  finally show ?thesis by simp
qed

text \<open>Claim C35. Once the channel of commands is closed and no caller is still waiting for a place in it,
  the program takes a bounded number of steps, the only states in which it cannot go on are those in
  which \<open>Stop\<close> returns, and then every command that was ever requested has been executed exactly once,
  with the outcome that the shell and the timeout give it, whatever the order in which the goroutines ran.
\<close>

theorem Stop_executes_all:
  assumes "command_reach sh c cs q" and "cq_closed q" and "cq_callers q = []" and "(command_step sh c ^^ n) q q'"
  shows "n \<le> cq_work q \<and> ((\<nexists>q''. command_step sh c q' q'') \<longleftrightarrow> Stop_returns q') \<and>
    (Stop_returns q' \<longrightarrow> mset (cq_ended q') = mset (map (\<lambda>command. (command, Command_run sh c command)) cs))"
  using command_steps_closed [OF assms(4,2,3) command_reach_ok [OF assms(1)]]
    command_stuck_iff [of sh c cs q'] cq_ok_ended [of sh c cs q'] by auto

text \<open>Two calls, the first already executing when \<open>Stop\<close> closes the channel; it is killed, the second one fails.\<close>

definition demo_shell :: "string \<Rightarrow> shell" where
  "demo_shell command = (if command = ''a'' then Never else Ends 1 (Some (Error ''exit status 1'')))"

definition demo_queue :: "queue_state option" where
  "demo_queue =
     Option.bind (cq_send 0 (cq_call ''a'' Command_Run)) (\<lambda>q1.
     Option.bind (cq_receive q1) (\<lambda>q2.
     Option.bind (cq_send 0 (cq_call ''b'' q2)) (\<lambda>q3. Some (cq_close q3))))"

definition demo_stopped :: "queue_state option" where
  "demo_stopped =
     Option.bind demo_queue (\<lambda>q4.
     Option.bind (cq_receive q4) (\<lambda>q5.
     Option.bind (cq_finish demo_shell (NewCommand [] [] 10) 0 q5) (\<lambda>q6.
     Option.bind (cq_receive q6) (\<lambda>q7. cq_finish demo_shell (NewCommand [] [] 10) 0 q7))))"

lemmas cq_steps = cq_send_def cq_receive_def cq_finish_def cq_call_def cq_close_def Command_Run_def

lemma demo_queue_reach:
  assumes "demo_queue = Some q"
  shows "command_reach demo_shell (NewCommand [] [] 10) [''a'', ''b''] q"
proof -
  obtain q1 q2 q3 where q: "cq_send 0 (cq_call ''a'' Command_Run) = Some q1" "cq_receive q1 = Some q2"
      "cq_send 0 (cq_call ''b'' q2) = Some q3" "q = cq_close q3"
    using assms by (auto simp: demo_queue_def bind_eq_Some_conv)
  let ?reach = "command_reach demo_shell (NewCommand [] [] 10)"
  have "?reach [''a''] (cq_call ''a'' Command_Run)" using command_reach.call [OF command_reach.start] by simp
  then have "?reach [''a''] q2" using q(1,2) by (meson command_reach.step send receive)
  then have "?reach [''a'', ''b''] (cq_call ''b'' q2)" using command_reach.call by fastforce
  then have r3: "?reach [''a'', ''b''] q3" using q(3) by (meson command_reach.step send)
  have "\<not> cq_closed q3" using q(1-3) by (auto simp: cq_steps split: if_splits list.splits)
  with r3 show ?thesis using command_reach.close q(4) by simp
qed

lemma demo_stopped_steps:
  assumes "demo_queue = Some q" and "demo_stopped = Some q'"
  shows "(command_step demo_shell (NewCommand [] [] 10) ^^ 4) q q'"
proof -
  obtain q5 q6 q7 where "cq_receive q = Some q5" "cq_finish demo_shell (NewCommand [] [] 10) 0 q5 = Some q6"
      "cq_receive q6 = Some q7" "cq_finish demo_shell (NewCommand [] [] 10) 0 q7 = Some q'"
    using assms(2) unfolding demo_stopped_def assms(1) by (auto simp: bind_eq_Some_conv)
  then have "command_step demo_shell (NewCommand [] [] 10) q q5" "command_step demo_shell (NewCommand [] [] 10) q5 q6"
    "command_step demo_shell (NewCommand [] [] 10) q6 q7" "command_step demo_shell (NewCommand [] [] 10) q7 q'"
    by (meson receive finish)+
  then show ?thesis by (auto simp: eval_nat_numeral OO_def)
qed

theorem Stop_executes_all_witness:
  "mset (cq_ended (the demo_stopped)) = {# (''a'', Killed), (''b'', Exited (Some (Error ''exit status 1''))) #}"
proof -
  have q: "demo_queue = Some (the demo_queue)" "demo_stopped = Some (the demo_stopped)"
    "cq_closed (the demo_queue)" "cq_callers (the demo_queue) = []" "Stop_returns (the demo_stopped)"
    by (simp_all add: demo_queue_def demo_stopped_def cq_steps Stop_returns_def)
  show ?thesis
    using Stop_executes_all [OF demo_queue_reach [OF q(1)] q(3,4) demo_stopped_steps [OF q(1,2)]] q(5)
    by (simp add: Command_run_def demo_shell_def NewCommand_def)
qed

section \<open>A caller that comes too late\<close>

text \<open>A caller that is waiting for a place when the channel is closed, or that sends later, panics.\<close>

lemma late_caller_panics:
  assumes "cq_closed q" and "i < length (cq_callers q)"
  shows "\<exists>q'. cq_send i q = Some q' \<and> cq_panic q'"
  using assms by (simp add: cq_send_def)

section \<open>The templates\<close>

lemma Replace_Nil [simp]: "Replace [] old new = []"
  by (simp add: Replace.simps)

lemma Replace_hit: "old \<noteq> [] \<Longrightarrow> Replace (old @ s) old new = new @ Replace s old new"
  by (subst Replace.simps) (simp add: HasPrefix_def)

lemma Replace_literal: "p \<notin> set s \<Longrightarrow> Replace (s @ t) (p # old) new = s @ Replace t (p # old) new"
  by (induction s) (auto simp: Replace.simps [of "_ # _"] HasPrefix_def)

lemma Replace_other:
  assumes "p \<notin> set s" and "length old \<le> length s" and "take (length old) s \<noteq> old"
  shows "Replace (p # s @ t) (p # old) new = p # s @ Replace t (p # old) new"
  using assms Replace_literal [OF assms(1)] by (subst Replace.simps) (auto simp: HasPrefix_def)

lemma runOnComplete_plain:
  "CHR ''%'' \<notin> set command \<Longrightarrow> runOnComplete command fileCount totalFileSize elapsedTime = command"
  using Replace_literal [of "CHR ''%''" command "[]"]
  by (simp add: runOnComplete_def TemplateFileCount_def TemplateTotalFileSize_def TemplateElapsedTime_def)



end
