(* ===== verification/Main_Program.thy ===== *)
theory Main_Program
  imports Command Statistics Manifest_Build Peer_Registry Transfer_Steps
begin

text \<open>
  File \<open>main.go\<close> and the function \<open>DownloadFiles\<close> of \<open>downloader.go\<close>: the flags, the initialisation, the
  waiting for another host, the download with its idle timeout, and the three goroutines of the
  running program as a step function on labels. The storages are local storages over the
  file-system model.
\<close>

section \<open>The flags\<close>

record flags =
  fl_Version :: bool
  fl_Verbose :: bool
  fl_Statistics :: bool
  fl_ShowHelp :: bool
  fl_WaitHost :: string
  fl_WaitHostTimeout :: duration
  fl_ExitComplete :: bool
  fl_PeerNumConcurrent :: int
  fl_LocalNumConcurrent :: int
  fl_CompressType :: string
  fl_MaxFileCountPerChunk :: int
  fl_ChunkSize :: int
  fl_VerifyOnComplete :: bool
  fl_ExecuteOnComplete :: string
  fl_ExecuteOnEachFileComplete :: string
  fl_CommandTimeout :: duration
  fl_ListenAddr :: string
  fl_PeerList :: string
  fl_PeerListURL :: string
  fl_PeerListSRV :: string
  fl_PeerListA :: string
  fl_PeerListDNSServer :: string
  fl_PeerListPollInterval :: duration
  fl_PeerWaitTimeout :: duration
  fl_PeerRegistryHeartbeatURL :: string
  fl_PeerRegistrySelfEndpoint :: string
  fl_PeerRegistryHeartbeatInterval :: duration
  fl_PeerRegistryTimeout :: duration
  fl_Src :: string
  fl_Dst :: string
  fl_TransferIdleTimeout :: duration
  fl_SeedIdleTimeout :: duration
  fl_AvailableListSyncInterval :: duration

definition flag_defaults :: flags where
  "flag_defaults =
     \<lparr>fl_Version = False, fl_Verbose = False, fl_Statistics = False, fl_ShowHelp = False,
      fl_WaitHost = [], fl_WaitHostTimeout = 600 * second, fl_ExitComplete = False,
      fl_PeerNumConcurrent = 2, fl_LocalNumConcurrent = 1, fl_CompressType = EncodingTypeNone,
      fl_MaxFileCountPerChunk = 5, fl_ChunkSize = 16777216, fl_VerifyOnComplete = False,
      fl_ExecuteOnComplete = [], fl_ExecuteOnEachFileComplete = [], fl_CommandTimeout = 10 * second,
      fl_ListenAddr = ''0.0.0.0:'' @ FormatInt DefaultPort, fl_PeerList = [], fl_PeerListURL = [], fl_PeerListSRV = [],
      fl_PeerListA = [], fl_PeerListDNSServer = [], fl_PeerListPollInterval = 3 * second,
      fl_PeerWaitTimeout = 20 * second, fl_PeerRegistryHeartbeatURL = [], fl_PeerRegistrySelfEndpoint = [],
      fl_PeerRegistryHeartbeatInterval = 5 * second, fl_PeerRegistryTimeout = 3 * second, fl_Src = [], fl_Dst = [],
      fl_TransferIdleTimeout = 30 * second, fl_SeedIdleTimeout = 0, fl_AvailableListSyncInterval = 2 * second\<rparr>"

section \<open>MainContext and Init\<close>

text \<open>
  The world of the local storages, the goroutine of the registry, which is started by \<open>Init\<close>, and the
  flag \<open>-compress-type\<close> as \<open>IsAvailableEncoding\<close> leaves it are kept with the context.
\<close>

record MainContext =
  mc_ExitCode :: int
  mc_UUID :: string
  mc_PeerListProvider :: "Provider option"
  mc_PeerRegistry :: "Registry option"
  mc_ChunkManager :: ChunkManager
  mc_Completed :: bool
  mc_ServeOnly :: bool
  mc_LastSentAt :: AtomicTime
  mc_Src :: "LocalStorage option"
  mc_Dst :: "LocalStorage option"
  mc_Command :: Command
  mc_Statistics :: Statistics
  mc_world :: world
  mc_heartbeats :: "goroutine option"
  mc_CompressType :: string

text \<open>
  What \<open>Init\<close> gets from outside: the hash, the version, a fresh UUID, the states of the network during
  the rounds of the search for a manifest and at the first heartbeat, and the file system.
\<close>

record init_env =
  ie_hash :: "byte list \<Rightarrow> uint64"
  ie_version :: Version
  ie_uuid :: string
  ie_rounds :: "(http_env \<times> dns_env) list"
  ie_registry :: http_env
  ie_world :: world

text \<open>One storage of the command line; \<open>None\<close> is the nil storage.\<close>

definition Init_storage :: "world \<Rightarrow> string \<Rightarrow> LocalStorage option result" where
  "Init_storage w rawURL =
     (case NewStorageFactory w rawURL of
        Inl err \<Rightarrow> Inl (Error ''failed to create factory'')
      | Inr f \<Rightarrow>
          (case StorageFactory_Create f [] of
             Inl err \<Rightarrow> Inl (Error ''failed to create storage'')
           | Inr s \<Rightarrow> Inr s))"

definition Init_provider :: "flags \<Rightarrow> Provider option result" where
  "Init_provider fl =
     (case NewPeersFactory (fl_PeerList fl) DefaultPort of
        Inl err \<Rightarrow> Inl err
      | Inr f \<Rightarrow>
          PeersFactory_Create f
            [WithARecord (fl_PeerListA fl), WithSRVRecord (fl_PeerListSRV fl), WithURL (fl_PeerListURL fl),
             WithDNSServer (fl_PeerListDNSServer fl)])"

text \<open>The registry, with the goroutine that \<open>Start\<close> leaves behind.\<close>

definition Init_registry :: "init_env \<Rightarrow> flags \<Rightarrow> (Registry \<times> goroutine option) option result" where
  "Init_registry ie fl =
     (if fl_PeerRegistryHeartbeatURL fl = [] then Inr None
      else case NewRegistry (fl_PeerRegistryHeartbeatURL fl) (fl_PeerRegistrySelfEndpoint fl) (ie_uuid ie)
                  (fl_PeerRegistryHeartbeatInterval fl) (fl_PeerRegistryTimeout fl) of
             Inl err \<Rightarrow> Inl err
           | Inr pr \<Rightarrow>
               (case Registry_Start (ie_registry ie) pr of
                  ((Some err, g), pr') \<Rightarrow> Inl err
                | ((None, g), pr') \<Rightarrow> Inr (Some (pr', g))))"

text \<open>\<open>None\<close> is the computation of the chunks that does not end.\<close>

definition Init :: "init_env \<Rightarrow> flags \<Rightarrow> MainContext result option" where
  "Init ie fl =
     (if \<not> fst (IsAvailableEncoding (Some (fl_CompressType fl))) then Some (Inl (Error ''unsupported compress type''))
      else if fl_ChunkSize fl \<le> 0 \<or> fl_ChunkSize fl > MaxChunkSize then Some (Inl (Error ''invalid chunk size parameter''))
      else case Init_storage (ie_world ie) (fl_Src fl) of Inl err \<Rightarrow> Some (Inl err) | Inr src \<Rightarrow>
      (case Init_storage (ie_world ie) (fl_Dst fl) of Inl err \<Rightarrow> Some (Inl err) | Inr dst \<Rightarrow>
      (let serveOnly = src \<noteq> None \<and> dst = None in
      case Init_provider fl of Inl err \<Rightarrow> Some (Inl err) | Inr provider \<Rightarrow>
      (case NewChunkManager (ie_hash ie) (ie_version ie) (ie_rounds ie)
              (map_option (\<lambda>s. (local_storage s, ie_world ie)) src) provider (fl_ChunkSize fl) (fl_MaxFileCountPerChunk fl) of
         None \<Rightarrow> None | Some (Inl err) \<Rightarrow> Some (Inl err) | Some (Inr cm) \<Rightarrow>
      if fl_PeerNumConcurrent fl < 1 \<or> fl_PeerNumConcurrent fl > MaxPeerNumConcurrent
      then Some (Inl (Error ''invalid concurrent download jobs parameter''))
      else if fl_LocalNumConcurrent fl < 1 \<or> fl_LocalNumConcurrent fl > MaxLocalNumConcurrent
      then Some (Inl (Error ''invalid concurrent download jobs parameter''))
      else case Init_registry ie fl of Inl err \<Rightarrow> Some (Inl err) | Inr registry \<Rightarrow>
        Some (Inr \<lparr>mc_ExitCode = 0, mc_UUID = ie_uuid ie, mc_PeerListProvider = provider,
          mc_PeerRegistry = map_option fst registry, mc_ChunkManager = cm, mc_Completed = serveOnly, mc_ServeOnly = serveOnly,
          mc_LastSentAt = None, mc_Src = src, mc_Dst = dst,
          mc_Command = NewCommand (fl_ExecuteOnComplete fl) (fl_ExecuteOnEachFileComplete fl) (fl_CommandTimeout fl),
          mc_Statistics = NewStatistics (fl_Statistics fl), mc_world = ie_world ie,
          mc_heartbeats = Option.bind registry snd,
          mc_CompressType = the (snd (IsAvailableEncoding (Some (fl_CompressType fl))))\<rparr>)))))"

text \<open>
  \<open>Fin\<close>: the registry is stopped, the commands are waited for (\<open>Stop_returns\<close> in \<open>Command\<close>), and the
  statistics are printed.
\<close>

definition Fin :: "Version \<Rightarrow> MainContext \<Rightarrow> string list \<times> MainContext" where
  "Fin v mc =
     (PrintAll v (mc_Statistics mc), mc\<lparr>mc_PeerRegistry := map_option Registry_Stop (mc_PeerRegistry mc)\<rparr>)"

section \<open>Waiting for another host\<close>

text \<open>
  The loop of \<open>-wait-host\<close>: each iteration with the time since its start and the state of the network.
  \<open>None\<close> is a loop that is still going on after these iterations.
\<close>

definition completed_url :: "string \<Rightarrow> string" where
  "completed_url host = ''http://'' @ host @ ''/completed''"

fun wait_host :: "flags \<Rightarrow> (duration \<times> http_env) list \<Rightarrow> go_error option option" where
  "wait_host fl [] = None"
| "wait_host fl ((since, env) # ticks) =
     (if since < fl_WaitHostTimeout fl then
        (case Request_default env (completed_url (fl_WaitHost fl)) [] of
           Inr body \<Rightarrow> Some None
         | Inl err \<Rightarrow> wait_host fl ticks)
      else Some (Some (Error ''wait timeout exceeded'')))"

section \<open>DownloadFiles\<close>

text \<open>
  The idle timeout: what its goroutine sees, an end of the download context or a tick with the time and
  the last update. The value is whether the timeout was exceeded; \<open>None\<close> is a loop that goes on.
\<close>

datatype idle_event = DownloadCtxDone | IdleTick time AtomicTime

fun idle_loop :: "duration \<Rightarrow> idle_event list \<Rightarrow> bool option" where
  "idle_loop timeout [] = None"
| "idle_loop timeout (DownloadCtxDone # es) = Some False"
| "idle_loop timeout (IdleTick now lastUpdatedAt # es) =
     (if now - AtomicTime_Load lastUpdatedAt \<ge> timeout then Some True else idle_loop timeout es)"

text \<open>
  What the downloaders and the idle goroutine leave when all of them have ended: the chunk manager, the
  file system, the statistics and the flag of completion they share, whether the idle timeout was
  exceeded, whether one of the goroutines panicked, and the time that has passed.
\<close>

record phase =
  ph_ChunkManager :: ChunkManager
  ph_world :: world
  ph_Statistics :: Statistics
  ph_Completed :: bool
  ph_idle :: bool
  ph_panic :: bool
  ph_elapsed :: duration

text \<open>
  The nil destination is dereferenced by \<open>SetupTransfer\<close>, which ends the program, and so do a panic of
  the ticker of the controller, for an interval that is not positive, and one of another goroutine.
  A download that returns without an error has handed its command, if there is one, to the goroutine of the commands.
\<close>

datatype download_end = DownloadPanic | DownloadError go_error | DownloadOk "string option"

definition DownloadFiles :: "flags \<Rightarrow> (ChunkManager \<Rightarrow> world \<Rightarrow> phase) \<Rightarrow> MainContext \<Rightarrow> download_end \<times> MainContext" where
  "DownloadFiles fl run mc =
     (case mc_Dst mc of
        None \<Rightarrow> (DownloadPanic, mc)
      | Some dst \<Rightarrow>
          (case SetupTransfer (mc_ChunkManager mc) (local_storage dst) (mc_world mc) of
             (Some err, w1) \<Rightarrow> (DownloadError err, mc\<lparr>mc_world := w1\<rparr>)
           | (None, w1) \<Rightarrow>
               let ph = run (mc_ChunkManager mc) w1 in
               if (mc_PeerListProvider mc \<noteq> None \<and> fl_PeerListPollInterval fl \<le> 0) \<or> ph_panic ph
               then (DownloadPanic, mc\<lparr>mc_world := w1\<rparr>) else
               let
                   mc1 = mc\<lparr>mc_ChunkManager := ph_ChunkManager ph, mc_Statistics := ph_Statistics ph, mc_Completed := ph_Completed ph,
                     mc_ExitCode := (if 0 < fl_TransferIdleTimeout fl \<and> ph_idle ph then 1 else mc_ExitCode mc)\<rparr>
               in case CompleteTransfer (mc_ChunkManager mc1) (local_storage dst) (ph_world ph) of
                    (Some err, w2) \<Rightarrow> (DownloadError err, mc1\<lparr>mc_world := w2\<rparr>)
                  | (None, w2) \<Rightarrow>
                      let mc2 = mc1\<lparr>mc_world := w2, mc_Statistics := SetElapsed (ph_elapsed ph) (mc_Statistics mc1),
                            mc_ExitCode := (if fl_VerifyOnComplete fl \<and> \<not> VerifyTransfer (mc_ChunkManager mc1) (local_storage dst) w2
                                            then 1 else mc_ExitCode mc1)\<rparr>
                      in (DownloadOk (RunOnComplete (int (GetFileCount (mc_ChunkManager mc2))) (GetBytesReceivedTotal (mc_Statistics mc2))
                            (DurationString (ph_elapsed ph)) (mc_Command mc2)), mc2)))"

section \<open>The running program\<close>

text \<open>
  The three goroutines that \<open>main\<close> waits for: the HTTP server, which serves until it fails or is shut
  down, the download, and the control loop with the ticker and the signals.
\<close>

datatype serving = Serving | ShutDown | ServingEnded
datatype controlling = Looping | Closing | ControlEnded

record program =
  pg_mc :: MainContext
  pg_cancelled :: bool
  pg_server :: serving
  pg_downloading :: bool
  pg_control :: controlling
  pg_commands :: "string list"
  pg_panic :: bool

definition program_start :: "MainContext \<Rightarrow> time \<Rightarrow> program" where
  "program_start mc now =
     \<lparr>pg_mc = mc\<lparr>mc_LastSentAt := AtomicTime_Store now (mc_LastSentAt mc)\<rparr>, pg_cancelled = False, pg_server = Serving,
      pg_downloading = \<not> mc_ServeOnly mc, pg_control = Looping, pg_commands = [], pg_panic = False\<rparr>"

datatype label =
    ServeFails
  | ServeReturns
  | DownloadReturns "ChunkManager \<Rightarrow> world \<Rightarrow> phase"
  | HeartbeatsStart
  | Answered time
  | ControlTick time
  | Signal string
  | CtxDone
  | Close

definition download_returns :: "flags \<Rightarrow> (ChunkManager \<Rightarrow> world \<Rightarrow> phase) \<Rightarrow> program \<Rightarrow> program" where
  "download_returns fl run pg =
     (case DownloadFiles fl run (pg_mc pg) of
        (DownloadPanic, mc) \<Rightarrow> pg\<lparr>pg_panic := True\<rparr>
      | (DownloadError err, mc) \<Rightarrow>
          pg\<lparr>pg_mc := mc\<lparr>mc_ExitCode := 1\<rparr>, pg_cancelled := True, pg_downloading := False\<rparr>
      | (DownloadOk command, mc) \<Rightarrow>
          pg\<lparr>pg_mc := mc, pg_cancelled := (pg_cancelled pg \<or> fl_ExitComplete fl), pg_downloading := False,
             pg_commands := pg_commands pg @ (case command of None \<Rightarrow> [] | Some c \<Rightarrow> [c])\<rparr>)"

definition seed_idle :: "flags \<Rightarrow> time \<Rightarrow> program \<Rightarrow> bool" where
  "seed_idle fl now pg \<longleftrightarrow>
     0 < fl_SeedIdleTimeout fl \<and> now - AtomicTime_Load (mc_LastSentAt (pg_mc pg)) \<ge> fl_SeedIdleTimeout fl"

definition program_step :: "flags \<Rightarrow> label \<Rightarrow> program \<Rightarrow> program option" where
  "program_step fl l pg =
     (if pg_panic pg then None
      else case l of
        ServeFails \<Rightarrow>
          if pg_server pg = Serving
          then Some (pg\<lparr>pg_server := ServingEnded, pg_cancelled := True, pg_mc := (pg_mc pg)\<lparr>mc_ExitCode := 1\<rparr>\<rparr>) else None
      | ServeReturns \<Rightarrow> if pg_server pg = ShutDown then Some (pg\<lparr>pg_server := ServingEnded\<rparr>) else None
      | DownloadReturns run \<Rightarrow> if pg_downloading pg then Some (download_returns fl run pg) else None
      | HeartbeatsStart \<Rightarrow> Some (pg\<lparr>pg_panic := (mc_heartbeats (pg_mc pg) = Some TickerPanic)\<rparr>)
      | Answered now \<Rightarrow>
          Some (pg\<lparr>pg_mc := (pg_mc pg)\<lparr>mc_LastSentAt := AtomicTime_Store now (mc_LastSentAt (pg_mc pg))\<rparr>\<rparr>)
      | ControlTick now \<Rightarrow>
          if pg_control pg = Looping
          then Some (if seed_idle fl now pg then pg\<lparr>pg_cancelled := True, pg_control := Closing\<rparr> else pg) else None
      | Signal sig \<Rightarrow>
          if pg_control pg = Looping then Some (pg\<lparr>pg_cancelled := True, pg_control := Closing\<rparr>) else None
      | CtxDone \<Rightarrow>
          if pg_control pg = Looping \<and> pg_cancelled pg then Some (pg\<lparr>pg_control := Closing\<rparr>) else None
      | Close \<Rightarrow>
          if pg_control pg = Closing
          then Some (pg\<lparr>pg_control := ControlEnded, pg_server := (if pg_server pg = Serving then ShutDown else pg_server pg)\<rparr>)
          else None)"

fun program_run :: "flags \<Rightarrow> label list \<Rightarrow> program \<Rightarrow> program option" where
  "program_run fl [] pg = Some pg"
| "program_run fl (l # ls) pg = Option.bind (program_step fl l pg) (program_run fl ls)"

text \<open>The wait group of \<open>main\<close> is empty.\<close>

definition program_ended :: "program \<Rightarrow> bool" where
  "program_ended pg \<longleftrightarrow> \<not> pg_panic pg \<and> pg_server pg = ServingEnded \<and> \<not> pg_downloading pg \<and> pg_control pg = ControlEnded"

definition exit_code :: "program \<Rightarrow> int" where
  "exit_code pg = mc_ExitCode (pg_mc pg)"

text \<open>
  \<open>main\<close> up to its goroutines: the exit code of a program that ends before, or the running program.
  \<open>None\<close> is a program that is still waiting or computing.
\<close>

definition main_start :: "init_env \<Rightarrow> (duration \<times> http_env) list \<Rightarrow> bool \<Rightarrow> time \<Rightarrow> flags \<Rightarrow> (int + program) option" where
  "main_start ie ticks listens now fl =
     (if fl_ShowHelp fl \<or> fl_Version fl then Some (Inl 0)
      else case (if fl_WaitHost fl = [] then Some None else wait_host fl ticks) of
        None \<Rightarrow> None
      | Some (Some err) \<Rightarrow> Some (Inl 1)
      | Some None \<Rightarrow>
          (case Init ie fl of
             None \<Rightarrow> None
           | Some (Inl err) \<Rightarrow> Some (Inl 1)
           | Some (Inr mc) \<Rightarrow> if listens then Some (Inr (program_start mc now)) else Some (Inl 1)))"

end
