(* ===== verification/Main_Props.thy ===== *)
theory Main_Props
  imports Main_Program Transfer_Flow
begin

text \<open>
  The program as a whole: the exit code, the end of a cancelled program, and what an interrupted
  transfer leaves and reports.
\<close>

section \<open>The exit code\<close>

text \<open>A download fails when one of its phases has an error, its idle timeout was exceeded, or the verification fails.\<close>

definition download_failed :: "flags \<Rightarrow> (ChunkManager \<Rightarrow> world \<Rightarrow> phase) \<Rightarrow> MainContext \<Rightarrow> bool" where
  "download_failed fl run mc \<longleftrightarrow>
     (case mc_Dst mc of None \<Rightarrow> False | Some dst \<Rightarrow>
       (let (e1, w1) = SetupTransfer (mc_ChunkManager mc) (local_storage dst) (mc_world mc);
            ph = run (mc_ChunkManager mc) w1;
            (e2, w2) = CompleteTransfer (ph_ChunkManager ph) (local_storage dst) (ph_world ph)
        in e1 \<noteq> None \<or> (0 < fl_TransferIdleTimeout fl \<and> ph_idle ph) \<or> e2 \<noteq> None \<or>
           (fl_VerifyOnComplete fl \<and> \<not> VerifyTransfer (ph_ChunkManager ph) (local_storage dst) w2)))"

definition failing :: "flags \<Rightarrow> MainContext \<Rightarrow> label \<Rightarrow> bool" where
  "failing fl mc l \<longleftrightarrow>
     (case l of ServeFails \<Rightarrow> True | DownloadReturns run \<Rightarrow> download_failed fl run mc | _ \<Rightarrow> False)"

lemma program_run_snoc:
  "program_run fl (ls @ [l]) pg = Option.bind (program_run fl ls pg) (program_step fl l)"
  by (induction ls arbitrary: pg) (auto split: bind_splits)

definition same_transfer :: "MainContext \<Rightarrow> MainContext \<Rightarrow> bool" where
  "same_transfer a b \<longleftrightarrow> mc_Dst a = mc_Dst b \<and> mc_ChunkManager a = mc_ChunkManager b \<and> mc_world a = mc_world b"

lemma same_transfer_simps [simp]:
  "same_transfer mc mc"
  "same_transfer (a\<lparr>mc_ExitCode := c\<rparr>) b = same_transfer a b"
  "same_transfer (a\<lparr>mc_LastSentAt := t\<rparr>) b = same_transfer a b"
  by (simp_all add: same_transfer_def)

lemma download_failed_cong: "same_transfer a b \<Longrightarrow> download_failed fl run a = download_failed fl run b"
  by (cases "mc_Dst b") (simp_all add: download_failed_def same_transfer_def)

lemma download_returns_code:
  assumes "\<not> pg_panic (download_returns fl run pg)" and "pg_panic pg = False"
  shows "exit_code (download_returns fl run pg) = (if download_failed fl run (pg_mc pg) then 1 else exit_code pg) \<and>
    \<not> pg_downloading (download_returns fl run pg)"
  using assms
  by (auto simp: download_returns_def DownloadFiles_def download_failed_def exit_code_def Let_def
      split: option.splits prod.splits if_splits)

lemma program_run_code:
  assumes "mc_ExitCode mc = 0" and "program_run fl ls (program_start mc now) = Some pg" and "\<not> pg_panic pg"
  shows "exit_code pg = (if \<exists>l \<in> set ls. failing fl mc l then 1 else 0) \<and>
    (pg_downloading pg \<longrightarrow> same_transfer (pg_mc pg) mc)"
  using assms(2,3)
proof (induction ls arbitrary: pg rule: rev_induct)
  case Nil
  then show ?case using assms(1) by (auto simp: exit_code_def program_start_def)
next
  case (snoc l ls)
  then obtain p where p: "program_run fl ls (program_start mc now) = Some p" "program_step fl l p = Some pg"
    by (auto simp: program_run_snoc bind_eq_Some_conv)
  then have ok: "\<not> pg_panic p" by (auto simp: program_step_def split: if_splits)
  note IH = snoc.IH [OF p(1) ok]
  show ?case
  proof (cases l)
    case (DownloadReturns run)
    then have d: "pg_downloading p" "pg = download_returns fl run p"
      using p(2) by (auto simp: program_step_def split: if_splits)
    then have "same_transfer (pg_mc p) mc" using IH by blast
    then have "download_failed fl run (pg_mc p) = failing fl mc l"
      by (simp add: DownloadReturns failing_def download_failed_cong [of "pg_mc p" mc])
    then show ?thesis
      using download_returns_code [of fl run p] d(2) ok snoc.prems(2) IH by auto
  next
    case ServeFails
    then show ?thesis using p(2) IH by (auto simp: program_step_def failing_def exit_code_def split: if_splits)
  next
    case (Answered u)
    then show ?thesis using p(2) IH by (auto simp: program_step_def failing_def exit_code_def split: if_splits)
  qed (use p(2) IH in \<open>auto simp: program_step_def failing_def exit_code_def split: if_splits\<close>)
qed


text \<open>Claim C37. The exit code of the running program. It is 1 exactly when the HTTP server failed or the download
  failed, that is an error of its preparation or its completion, an exceeded idle timeout or a failed
  verification, and 0 otherwise, whatever else happened in whatever order; in particular signals, the
  idle timeout of a seed and chunks that were never transferred do not change it.\<close>

theorem exit_code_failures:
  assumes "mc_ExitCode mc = 0" and "program_run fl ls (program_start mc now) = Some pg" and "program_ended pg"
  shows "exit_code pg = (if \<exists>l \<in> set ls. failing fl mc l then 1 else 0)"
  using program_run_code [OF assms(1,2)] assms(3) by (simp add: program_ended_def)

section \<open>The end of a cancelled program\<close>

lemma program_run_shut:
  "program_run fl ls (program_start mc now) = Some pg \<Longrightarrow> pg_control pg = ControlEnded \<longrightarrow> pg_server pg \<noteq> Serving"
proof (induction ls arbitrary: pg rule: rev_induct)
  case (snoc l ls)
  then obtain p where p: "program_run fl ls (program_start mc now) = Some p" "program_step fl l p = Some pg"
    by (auto simp: program_run_snoc bind_eq_Some_conv)
  from snoc.IH [OF p(1)] p(2) show ?case
    by (cases l) (auto simp: program_step_def download_returns_def split: if_splits prod.splits download_end.splits)
qed (simp add: program_start_def)

text \<open>Once the context is cancelled and the download has returned, at most three steps end the program.\<close>

lemma cancelled_program_ends:
  assumes "program_run fl ls (program_start mc now) = Some pg" and "\<not> pg_panic pg"
    and "pg_cancelled pg" and "\<not> pg_downloading pg"
  shows "\<exists>ls' pg'. length ls' \<le> 3 \<and> set ls' \<subseteq> {CtxDone, Close, ServeReturns} \<and>
    program_run fl ls' pg = Some pg' \<and> program_ended pg' \<and> exit_code pg' = exit_code pg"
proof -
  define ls' where "ls' = (if pg_control pg = Looping then [CtxDone] else []) @
    (if pg_control pg \<noteq> ControlEnded then [Close] else []) @ (if pg_server pg \<noteq> ServingEnded then [ServeReturns] else [])"
  have "length ls' \<le> 3" "set ls' \<subseteq> {CtxDone, Close, ServeReturns}" by (auto simp: ls'_def)
  moreover have "\<exists>pg'. program_run fl ls' pg = Some pg' \<and> program_ended pg' \<and> exit_code pg' = exit_code pg"
    using assms(2-4) program_run_shut [OF assms(1)]
    by (cases "pg_control pg"; cases "pg_server pg")
       (auto simp: ls'_def program_step_def program_ended_def exit_code_def)
  ultimately show ?thesis by blast
qed

section \<open>An interrupted transfer\<close>

text \<open>The downloaders have written the chunks \<open>ds\<close> when the download context is cancelled.\<close>

definition interrupted_phase ::
  "(byte list \<Rightarrow> uint64) \<Rightarrow> LocalStorage \<Rightarrow> delivery list \<Rightarrow> Statistics \<Rightarrow> duration \<Rightarrow> ChunkManager \<Rightarrow> world \<Rightarrow> phase" where
  "interrupted_phase hash dst ds stat t cm w =
     (case WriteChunks hash (local_storage dst) ds cm w of
        (results, complete, cm', w') \<Rightarrow>
          \<lparr>ph_ChunkManager = cm', ph_world = w', ph_Statistics = stat, ph_Completed = False, ph_idle = False, ph_panic = False,
           ph_elapsed = t\<rparr>)"

text \<open>Claim C38. A transfer that is interrupted by a signal after any part of its chunks, none included, is reported as a
  success: \<open>DownloadFiles\<close> does not ask whether the chunks are all there, so it gives the files, which
  already have their final lengths, their final permissions, hands the command for a complete transfer
  to the shell, and the program ends with exit code 0.\<close>

theorem interrupted_transfer_exits_zero:
  assumes cm: "built_manager chunkSize maxFiles (mc_ChunkManager mc)"
    and flat: "mf_Dirs (cm_manifest (mc_ChunkManager mc)) = []" "mf_Symlinks (cm_manifest (mc_ChunkManager mc)) = []"
      "mf_EmptyFiles (cm_manifest (mc_ChunkManager mc)) = []"
    and dst: "mc_Dst mc = Some \<lparr>BaseDir = abs_path bs\<rparr>" and mc: "\<not> mc_ServeOnly mc" "mc_ExitCode mc = 0"
    and target: "base_ready bs (mc_world mc)" "\<forall>f \<in> set (cm_Files (mc_ChunkManager mc)). free_or_file bs (mc_world mc) f"
    and src: "map (\<lambda>bs. int (length bs)) src = map fe_Size (cm_Files (mc_ChunkManager mc))"
    and ds: "distinct (map fst ds)" "\<forall>d \<in> set ds. delivers hash src (cm_chunks (mc_ChunkManager mc)) d"
    and fl: "\<not> fl_VerifyOnComplete fl" "0 < fl_PeerListPollInterval fl"
  shows "\<exists>pg. program_run fl
      [Signal sig, DownloadReturns (interrupted_phase hash \<lparr>BaseDir = abs_path bs\<rparr> ds stat t), Close, ServeReturns]
      (program_start mc now) = Some pg \<and> program_ended pg \<and> exit_code pg = 0 \<and> \<not> mc_Completed (pg_mc pg) \<and>
    pg_commands pg = (case RunOnComplete (int (GetFileCount (mc_ChunkManager mc))) (GetBytesReceivedTotal stat)
        (DurationString t) (mc_Command mc) of None \<Rightarrow> [] | Some c \<Rightarrow> [c]) \<and>
    (\<forall>f \<in> set (cm_Files (mc_ChunkManager mc)). \<exists>xs.
       node_at (mc_world (pg_mc pg)) (bs @ [fe_Name f]) = Some (NFile (fe_Perm f) xs) \<and> int (length xs) = fe_Size f)"
proof -
  let ?cm = "mc_ChunkManager mc" and ?st = "\<lparr>BaseDir = abs_path bs\<rparr>"
  let ?run = "interrupted_phase hash ?st ds stat t"
  obtain w1 results complete cm' w2 w3 where run:
    "SetupTransfer ?cm (local_storage ?st) (mc_world mc) = (None, w1)"
    "WriteChunks hash (local_storage ?st) ds ?cm w1 = (results, complete, cm', w2)"
    "GetFileCount cm' = GetFileCount ?cm"
    "CompleteTransfer cm' (local_storage ?st) w2 = (None, w3)"
    and all: "\<forall>j < length (cm_Files ?cm). let f = cm_Files ?cm ! j in
       \<exists>xs. node_at w3 (bs @ [fe_Name f]) = Some (NFile (fe_Perm f) xs) \<and> int (length xs) = fe_Size f \<and>
         (all_chunks_in (cm_chunks ?cm) (map fst ds) j \<longrightarrow> xs = src ! j)"
    using partial_transfer [OF cm flat target src ds] by blast
  have phase: "?run ?cm w1 = \<lparr>ph_ChunkManager = cm', ph_world = w2, ph_Statistics = stat, ph_Completed = False,
      ph_idle = False, ph_panic = False, ph_elapsed = t\<rparr>"
    by (simp add: interrupted_phase_def run(2))
  define mc1 where "mc1 = mc\<lparr>mc_LastSentAt := AtomicTime_Store now (mc_LastSentAt mc)\<rparr>"
  define mc2 where "mc2 = mc1\<lparr>mc_ChunkManager := cm', mc_Statistics := SetElapsed t stat, mc_Completed := False, mc_world := w3\<rparr>"
  have download: "DownloadFiles fl ?run mc1 =
      (DownloadOk (RunOnComplete (int (GetFileCount ?cm)) (GetBytesReceivedTotal stat) (DurationString t) (mc_Command mc)), mc2)"
    using run dst fl phase
    by (simp add: DownloadFiles_def mc1_def mc2_def SetElapsed_def GetBytesReceivedTotal_def Let_def)
  define pg where "pg = \<lparr>pg_mc = mc2, pg_cancelled = True, pg_server = ServingEnded, pg_downloading = False,
      pg_control = ControlEnded, pg_commands = (case RunOnComplete (int (GetFileCount ?cm)) (GetBytesReceivedTotal stat)
        (DurationString t) (mc_Command mc) of None \<Rightarrow> [] | Some c \<Rightarrow> [c]), pg_panic = False\<rparr>"
  have "program_run fl [Signal sig, DownloadReturns ?run, Close, ServeReturns] (program_start mc now) = Some pg"
    using mc(1) download by (simp add: program_start_def program_step_def download_returns_def pg_def flip: mc1_def)
  moreover have "\<forall>f \<in> set (cm_Files ?cm). \<exists>xs. node_at w3 (bs @ [fe_Name f]) = Some (NFile (fe_Perm f) xs) \<and> int (length xs) = fe_Size f"
    using all unfolding all_set_conv_all_nth Let_def by blast
  ultimately show ?thesis
    using mc(2) by (simp add: pg_def program_ended_def exit_code_def mc2_def mc1_def)
qed

text \<open>The destination of the examples is empty, and the first of two chunks has been written.\<close>

definition demo_context :: MainContext where
  "demo_context = \<lparr>mc_ExitCode = 0, mc_UUID = ''u'', mc_PeerListProvider = None, mc_PeerRegistry = None,
     mc_ChunkManager = demo_manager, mc_Completed = False, mc_ServeOnly = False, mc_LastSentAt = None,
     mc_Src = None, mc_Dst = Some \<lparr>BaseDir = abs_path [''d'']\<rparr>, mc_Command = NewCommand ''publish'' [] 10,
     mc_Statistics = NewStatistics False, mc_world = demo_world_other, mc_heartbeats = None, mc_CompressType = EncodingTypeNone\<rparr>"

theorem interrupted_transfer_exits_zero_witness:
  "\<exists>pg xs. program_run flag_defaults
      [Signal ''interrupt'', DownloadReturns (interrupted_phase (\<lambda>_. 0) \<lparr>BaseDir = abs_path [''d'']\<rparr>
         [(0, 0, \<lparr>rd_data = [1, 2, 3], rd_fin = EOF\<rparr>)] (NewStatistics False) 5), Close, ServeReturns]
      (program_start demo_context 0) = Some pg \<and> exit_code pg = 0 \<and> pg_commands pg = [''publish''] \<and>
    node_at (mc_world (pg_mc pg)) [''d'', ''f''] = Some (NFile 420 xs) \<and> length xs = 5"
proof -
  have cm: "mc_ChunkManager demo_context = demo_manager" "mc_world demo_context = demo_world_other"
    "mc_Command demo_context = NewCommand ''publish'' [] 10"
    "mc_Dst demo_context = Some \<lparr>BaseDir = abs_path [''d'']\<rparr>" "\<not> mc_ServeOnly demo_context" "mc_ExitCode demo_context = 0"
    by (simp_all add: demo_context_def)
  have m: "cm_Files demo_manager = [demo_file]" "mf_Dirs (cm_manifest demo_manager) = []"
    "mf_Symlinks (cm_manifest demo_manager) = []" "mf_EmptyFiles (cm_manifest demo_manager) = []"
    "fe_Name demo_file = ''f''" "fe_Perm demo_file = 420" "fe_Size demo_file = 5" "GetFileCount demo_manager = 1"
    by (simp_all add: demo_manager_def demo_file_def GetFileCount_def)
  have base: "base_ready [''d''] demo_world_other"
    by (simp add: base_ready_def plain_def demo_world_other_def node_at_def permits_def clean_name_def)
  have free: "free_or_file [''d''] demo_world_other demo_file"
    by (simp add: free_or_file_def m demo_world_other_def node_at_def clean_name_def)
  have d: "delivers (\<lambda>_. 0) [[1, 2, 3, 4, 5]] (cm_chunks demo_manager) (0, 0, \<lparr>rd_data = [1, 2, 3], rd_fin = EOF\<rparr>)"
    by (simp add: delivers_def demo_manager_def chunk_data_def Chunk0_def range_data_def window_def)
  have command: "RunOnComplete 1 (GetBytesReceivedTotal (NewStatistics False)) (DurationString 5) (NewCommand ''publish'' [] 10) = Some ''publish''"
    by (simp add: RunOnComplete_def NewCommand_def runOnComplete_plain)
  have flags: "\<not> fl_VerifyOnComplete flag_defaults" "0 < fl_PeerListPollInterval flag_defaults"
    by (simp_all add: flag_defaults_def second_def millisecond_def)
  obtain pg where pg: "program_run flag_defaults
      [Signal ''interrupt'', DownloadReturns (interrupted_phase (\<lambda>_. 0) \<lparr>BaseDir = abs_path [''d'']\<rparr>
         [(0, 0, \<lparr>rd_data = [1, 2, 3], rd_fin = EOF\<rparr>)] (NewStatistics False) 5), Close, ServeReturns]
      (program_start demo_context 0) = Some pg" "exit_code pg = 0" "pg_commands pg = [''publish'']"
    "\<exists>xs. node_at (mc_world (pg_mc pg)) [''d'', ''f''] = Some (NFile 420 xs) \<and> int (length xs) = 5"
    using interrupted_transfer_exits_zero [of 3 0 demo_context "[''d'']" "[[1, 2, 3, 4, 5]]"
        "[(0, 0, \<lparr>rd_data = [1, 2, 3], rd_fin = EOF\<rparr>)]" "\<lambda>_. 0" flag_defaults "''interrupt''" "NewStatistics False" 5 0]
      demo_built base free d command flags
    by (auto simp: cm m simp del: GetFileCount_def)
  then show ?thesis by auto
qed

theorem exit_code_failures_witness:
  "\<exists>pg. program_run flag_defaults [ServeFails, CtxDone, Close] (program_start (demo_context\<lparr>mc_ServeOnly := True\<rparr>) 0) = Some pg \<and>
    exit_code pg = 1"
proof -
  have mc: "mc_ExitCode (demo_context\<lparr>mc_ServeOnly := True\<rparr>) = 0" by (simp add: demo_context_def)
  obtain pg where pg: "program_run flag_defaults [ServeFails, CtxDone, Close]
      (program_start (demo_context\<lparr>mc_ServeOnly := True\<rparr>) 0) = Some pg" "program_ended pg"
    by (simp add: program_step_def program_start_def program_ended_def)
  then show ?thesis using exit_code_failures [OF mc pg] by (auto simp: failing_def)
qed

end
