(* ===== verification/Main_Init.thy ===== *)
theory Main_Init
  imports Main_Program Network_Props
begin

text \<open>
  What a successful initialisation has checked, and the modes of the program that follow from the
  source and the destination.
\<close>

section \<open>The storages and the peers\<close>

lemma Init_storage_None:
  assumes "Init_storage w rawURL = Inr s"
  shows "s = None \<longleftrightarrow> rawURL = []"
  using assms
  by (auto simp: Init_storage_def NewStorageFactory_def StorageFactory_Create_def StorageTypeFrom_def Let_def
      split: if_splits sum.splits StorageType.splits)

lemma Init_provider_exclusive:
  assumes "Init_provider fl = Inr p"
  shows "length (filter (\<lambda>s. s \<noteq> []) [fl_PeerListA fl, fl_PeerListSRV fl, fl_PeerListURL fl]) \<le> 1"
  using assms
  by (auto simp: Init_provider_def PeersFactory_Create_def WithARecord_def WithSRVRecord_def WithURL_def WithDNSServer_def Let_def
      split: if_splits sum.splits)

lemma NewChunkManager_origin:
  "NewChunkManager hash v rounds None provider chunkSize maxFiles = Some (Inr cm) \<Longrightarrow> provider \<noteq> None"
  by (cases provider) (auto simp: NewChunkManager_def newManifest_def)

text \<open>The branches of \<open>Init\<close> that succeed.\<close>

lemma InitE:
  assumes "Init ie fl = Some (Inr mc)"
  obtains src dst provider cm registry where
    "fst (IsAvailableEncoding (Some (fl_CompressType fl)))" "0 < fl_ChunkSize fl" "fl_ChunkSize fl \<le> MaxChunkSize"
    "Init_storage (ie_world ie) (fl_Src fl) = Inr src" "Init_storage (ie_world ie) (fl_Dst fl) = Inr dst"
    "Init_provider fl = Inr provider"
    "NewChunkManager (ie_hash ie) (ie_version ie) (ie_rounds ie) (map_option (\<lambda>s. (local_storage s, ie_world ie)) src)
       provider (fl_ChunkSize fl) (fl_MaxFileCountPerChunk fl) = Some (Inr cm)"
    "1 \<le> fl_PeerNumConcurrent fl" "fl_PeerNumConcurrent fl \<le> MaxPeerNumConcurrent"
    "1 \<le> fl_LocalNumConcurrent fl" "fl_LocalNumConcurrent fl \<le> MaxLocalNumConcurrent"
    "Init_registry ie fl = Inr registry"
    "mc_PeerListProvider mc = provider" "mc_ChunkManager mc = cm" "mc_Src mc = src" "mc_Dst mc = dst" "mc_ExitCode mc = 0"
    "mc_ServeOnly mc = (src \<noteq> None \<and> dst = None)" "mc_Completed mc = (src \<noteq> None \<and> dst = None)"
proof -
  have enc: "fst (IsAvailableEncoding (Some (fl_CompressType fl)))" and size_ok: "\<not> (fl_ChunkSize fl \<le> 0 \<or> fl_ChunkSize fl > MaxChunkSize)"
    using assms by (auto simp: Init_def Let_def split: if_splits)
  obtain src where src: "Init_storage (ie_world ie) (fl_Src fl) = Inr src"
    using assms enc size_ok by (auto simp: Init_def Let_def split: sum.splits)
  obtain dst where dst: "Init_storage (ie_world ie) (fl_Dst fl) = Inr dst"
    using assms enc size_ok src by (auto simp: Init_def Let_def split: sum.splits)
  obtain provider where p: "Init_provider fl = Inr provider"
    using assms enc size_ok src dst by (auto simp: Init_def Let_def split: sum.splits)
  obtain cm where cm: "NewChunkManager (ie_hash ie) (ie_version ie) (ie_rounds ie)
      (map_option (\<lambda>s. (local_storage s, ie_world ie)) src) provider (fl_ChunkSize fl) (fl_MaxFileCountPerChunk fl) = Some (Inr cm)"
    using assms enc size_ok src dst p by (auto simp: Init_def Let_def split: sum.splits option.splits)
  have conc: "\<not> (fl_PeerNumConcurrent fl < 1 \<or> fl_PeerNumConcurrent fl > MaxPeerNumConcurrent)"
    "\<not> (fl_LocalNumConcurrent fl < 1 \<or> fl_LocalNumConcurrent fl > MaxLocalNumConcurrent)"
    using assms enc size_ok src dst p cm by (auto simp: Init_def Let_def split: if_splits)
  obtain registry where r: "Init_registry ie fl = Inr registry"
    using assms enc size_ok src dst p cm conc by (auto simp: Init_def Let_def split: sum.splits)
  show thesis
    using assms enc size_ok src dst p cm conc r by (intro that) (auto simp: Init_def Let_def)
qed

text \<open>Claim C39. What \<open>Init\<close> has established when it succeeds: a known encoding, a chunk size and numbers of workers in
  their ranges, at most one way to find peers besides the static list, and a provider of peers when
  there is no source. The program only serves, and counts as complete, exactly when it has a source and
  no destination. With neither of them it is accepted as well, although its download then dereferences
  the nil destination: whatever the network does, the download goroutine ends the program with a panic.\<close>

theorem Init_accepts:
  assumes "Init ie fl = Some (Inr mc)"
  shows "fst (IsAvailableEncoding (Some (fl_CompressType fl))) \<and> 0 < fl_ChunkSize fl \<and> fl_ChunkSize fl \<le> MaxChunkSize \<and>
    1 \<le> fl_PeerNumConcurrent fl \<and> fl_PeerNumConcurrent fl \<le> MaxPeerNumConcurrent \<and>
    1 \<le> fl_LocalNumConcurrent fl \<and> fl_LocalNumConcurrent fl \<le> MaxLocalNumConcurrent \<and>
    length (filter (\<lambda>s. s \<noteq> []) [fl_PeerListA fl, fl_PeerListSRV fl, fl_PeerListURL fl]) \<le> 1 \<and>
    (fl_Src fl = [] \<longrightarrow> mc_PeerListProvider mc \<noteq> None) \<and>
    (mc_ServeOnly mc \<longleftrightarrow> fl_Src fl \<noteq> [] \<and> fl_Dst fl = []) \<and> mc_Completed mc = mc_ServeOnly mc \<and>
    (fl_Src fl = [] \<and> fl_Dst fl = [] \<longrightarrow>
       (\<forall>run now. \<exists>pg. program_step fl (DownloadReturns run) (program_start mc now) = Some pg \<and> pg_panic pg))"
  using assms
proof (rule InitE)
  fix src dst provider cm registry
  assume I: "fst (IsAvailableEncoding (Some (fl_CompressType fl)))" "0 < fl_ChunkSize fl" "fl_ChunkSize fl \<le> MaxChunkSize"
    "Init_storage (ie_world ie) (fl_Src fl) = Inr src" "Init_storage (ie_world ie) (fl_Dst fl) = Inr dst"
    "Init_provider fl = Inr provider"
    "NewChunkManager (ie_hash ie) (ie_version ie) (ie_rounds ie) (map_option (\<lambda>s. (local_storage s, ie_world ie)) src)
       provider (fl_ChunkSize fl) (fl_MaxFileCountPerChunk fl) = Some (Inr cm)"
    "1 \<le> fl_PeerNumConcurrent fl" "fl_PeerNumConcurrent fl \<le> MaxPeerNumConcurrent"
    "1 \<le> fl_LocalNumConcurrent fl" "fl_LocalNumConcurrent fl \<le> MaxLocalNumConcurrent"
    "mc_PeerListProvider mc = provider" "mc_Dst mc = dst"
    "mc_ServeOnly mc = (src \<noteq> None \<and> dst = None)" "mc_Completed mc = (src \<noteq> None \<and> dst = None)"
  note none = Init_storage_None [OF I(4)] Init_storage_None [OF I(5)]
  have origin: "fl_Src fl = [] \<longrightarrow> provider \<noteq> None" using I(7) none(1) NewChunkManager_origin by fastforce
  have "program_step fl (DownloadReturns run) (program_start mc now) = Some ((program_start mc now)\<lparr>pg_panic := True\<rparr>)"
    if "fl_Src fl = []" "fl_Dst fl = []" for run now
    using that none I(13,14)
    by (simp add: program_step_def program_start_def download_returns_def DownloadFiles_def)
  then have panic: "fl_Src fl = [] \<and> fl_Dst fl = [] \<longrightarrow>
      (\<forall>run now. \<exists>pg. program_step fl (DownloadReturns run) (program_start mc now) = Some pg \<and> pg_panic pg)"
    by simp
  show ?thesis
    using I none origin panic Init_provider_exclusive [OF I(6)] by (simp only: simp_thms)
qed

text \<open>A program that is given one seeding peer and no path.\<close>

definition demo_init_env :: init_env where
  "demo_init_env = \<lparr>ie_hash = (\<lambda>_. 7), ie_version = demo_version, ie_uuid = ''u'',
     ie_rounds = [(connected (\<lambda>bs. 7) demo_http demo_codec ''seeder:7'' (demo_server (demo_manager ''a'')), demo_dns)],
     ie_registry = demo_http, ie_world = \<lparr>files = [], cwd = [], umask = 18, superuser = False\<rparr>\<rparr>"

definition demo_init_flags :: flags where
  "demo_init_flags = flag_defaults\<lparr>fl_ChunkSize := 10, fl_PeerList := ''seeder:7''\<rparr>"

definition demo_phase :: "ChunkManager \<Rightarrow> world \<Rightarrow> phase" where
  "demo_phase cm w = \<lparr>ph_ChunkManager = cm, ph_world = w, ph_Statistics = NewStatistics False, ph_Completed = False,
     ph_idle = False, ph_panic = False, ph_elapsed = 0\<rparr>"

lemma demo_init_provider: "Init_provider demo_init_flags = Inr (Some (PStatic \<lparr>sp_peers = [''seeder:7'']\<rparr>))"
proof -
  have "NewPeersFactory ''seeder:7'' 10090 = Inr \<lparr>pf_staticProvider = Some \<lparr>sp_peers = [''seeder:7'']\<rparr>, pf_defaultPort = 10090\<rparr>"
    by code_simp
  then show ?thesis
    by (simp add: Init_provider_def demo_init_flags_def flag_defaults_def DefaultPort_def PeersFactory_Create_def
        WithARecord_def WithSRVRecord_def WithURL_def WithDNSServer_def Let_def)
qed

lemma demo_init: "\<exists>mc. Init demo_init_env demo_init_flags = Some (Inr mc)"
proof -
  have cm: "NewChunkManager (\<lambda>bs. 7) demo_version
      [(connected (\<lambda>bs. 7) demo_http demo_codec ''seeder:7'' (demo_server (demo_manager ''a'')), demo_dns)]
      (None :: (world Storage \<times> world) option) (Some (PStatic \<lparr>sp_peers = [''seeder:7'']\<rparr>)) 10 5 = Some (Inr (demo_manager ''a''))"
    using join_source [OF demo_new [of "[]" "''a''" None None] _ _ seeder_ok(1),
        of "demo_server (demo_manager ''a'')" demo_http demo_codec demo_dns "PStatic \<lparr>sp_peers = [''seeder:7'']\<rparr>" "[]" "[]"]
      demo_source_ok seeder_ok(2)
    by (simp add: demo_server_def demo_manager_def StaticProvider_GetPeers_def)
  have paths: "Init_storage w [] = Inr None" for w
    by (simp add: Init_storage_def NewStorageFactory_def StorageFactory_Create_def)
  have fl: "fl_Src demo_init_flags = []" "fl_Dst demo_init_flags = []" "fl_ChunkSize demo_init_flags = 10"
    "fl_MaxFileCountPerChunk demo_init_flags = 5" "fl_PeerNumConcurrent demo_init_flags = 2"
    "fl_LocalNumConcurrent demo_init_flags = 1" "fl_PeerRegistryHeartbeatURL demo_init_flags = []"
    "fst (IsAvailableEncoding (Some (fl_CompressType demo_init_flags)))"
    by (simp_all add: demo_init_flags_def flag_defaults_def IsAvailableEncoding_def EncodingPriorMap_def EncodingTypeNone_def)
  show ?thesis
    using cm by (simp add: Init_def fl paths demo_init_provider Init_registry_def demo_init_env_def MaxChunkSize_def
        MaxPeerNumConcurrent_def MaxLocalNumConcurrent_def Let_def)
qed

theorem Init_accepts_witness:
  "\<exists>mc pg. Init demo_init_env demo_init_flags = Some (Inr mc) \<and> mc_PeerListProvider mc \<noteq> None \<and> \<not> mc_ServeOnly mc \<and>
    program_step demo_init_flags (DownloadReturns demo_phase) (program_start mc 0) = Some pg \<and> pg_panic pg"
proof -
  obtain mc where mc: "Init demo_init_env demo_init_flags = Some (Inr mc)" using demo_init by blast
  have "fl_Src demo_init_flags = []" "fl_Dst demo_init_flags = []"
    by (simp_all add: demo_init_flags_def flag_defaults_def)
  with Init_accepts [OF mc] mc show ?thesis by blast
qed

end
