(* ===== verification/Init_Ends.thy ===== *)
theory Init_Ends
  imports Main_Init
begin

text \<open>
  The initialisation ends: the loop of \<open>BuildChunks\<close> ends for every positive chunk size and all sizes
  of type \<open>int64\<close>, also those whose sums overflow, a manifest from a peer has no other sizes, and so
  neither a file system nor any network can keep \<open>Init\<close> from returning.
\<close>

section \<open>BuildChunks ends\<close>

lemma i64_int64_range: "int64_range (i64 x)"
  by (auto simp: int64_range_def i64_def)

lemma i64_same: "int64_range x \<Longrightarrow> i64 x = x"
  by (simp add: int64_range_def)

lemma i64_diff_i64: "i64 (a - i64 b) = i64 (a - b)"
proof -
  have "(a - ((b + 2 ^ 63) mod 2 ^ 64 - 2 ^ 63) + 2 ^ 63) mod 2 ^ 64 = ((a + 2 ^ 64) - (b + 2 ^ 63) mod 2 ^ 64) mod (2 ^ 64 :: int)"
    by (simp add: algebra_simps)
  also have "\<dots> = ((a + 2 ^ 64) - (b + 2 ^ 63)) mod 2 ^ 64" by (rule mod_diff_right_eq)
  finally show ?thesis by (simp add: i64_def algebra_simps)
qed

lemma i64_i64_diff: "i64 (i64 a - b) = i64 (a - b)"
proof -
  have "((a + 2 ^ 63) mod 2 ^ 64 - 2 ^ 63 - b + 2 ^ 63) mod 2 ^ 64 = ((a + 2 ^ 63) mod 2 ^ 64 - b) mod (2 ^ 64 :: int)"
    by (simp add: algebra_simps)
  also have "\<dots> = ((a + 2 ^ 63) - b) mod 2 ^ 64" by (rule mod_diff_left_eq)
  finally show ?thesis by (simp add: i64_def algebra_simps)
qed

lemma i64_wrap: "2 ^ 63 \<le> x \<Longrightarrow> x < 3 * 2 ^ 63 \<Longrightarrow> i64 x = x - 2 ^ 64"
proof -
  assume x: "2 ^ 63 \<le> x" "x < 3 * 2 ^ 63"
  have "(x + 2 ^ 63) mod 2 ^ 64 = (x + 2 ^ 63 - 2 ^ 64) mod (2 ^ 64 :: int)" by (simp only: minus_mod_self2)
  also have "\<dots> = x + 2 ^ 63 - 2 ^ 64" using x by (intro mod_pos_pos_trivial) simp_all
  finally show ?thesis by (simp add: i64_def)
qed

text \<open>The size of the chunk being filled stays below the chunk size, although it may wrap around.\<close>

definition filling :: "int \<Rightarrow> build_state \<Rightarrow> bool" where
  "filling C st \<longleftrightarrow> int64_range (bs_currentChunkSize st) \<and> bs_currentChunkSize st < C"

lemma BuildChunks_split_size:
  assumes "filling C st" and "0 < C" and "C < 2 ^ 63" and "0 < remain" and "remain < 2 ^ 63"
    and "\<not> i64 (bs_currentChunkSize st + remain) < C"
  shows "0 < C - bs_currentChunkSize st \<and> C - bs_currentChunkSize st \<le> remain \<and>
    i64 (C - bs_currentChunkSize st) = C - bs_currentChunkSize st"
proof -
  let ?cur = "bs_currentChunkSize st"
  have cur: "- (2 ^ 63) \<le> ?cur" "?cur < C" using assms(1) by (simp_all add: filling_def int64_range_def)
  have "?cur + remain < 2 ^ 63"
  proof (rule ccontr)
    assume "\<not> ?cur + remain < 2 ^ 63"
    then have "i64 (?cur + remain) = ?cur + remain - 2 ^ 64"
      using cur assms(3,5) by (intro i64_wrap) simp_all
    with assms(2,6) cur assms(3,5) show False by simp
  qed
  then have "i64 (?cur + remain) = ?cur + remain" using cur(1) assms(4) by simp
  with assms(6) have "C - ?cur \<le> remain" by simp
  with cur assms(2,5) show ?thesis by simp
qed

lemma BuildChunks_file_ends:
  assumes "0 < C" and "C < 2 ^ 63" and "filling C st" and "int64_range remain"
    and "0 < remain \<Longrightarrow> i64 (fe_Size f - start) = remain"
  shows "\<exists>f' st'. BuildChunks_file C m i start remain f st = Some (f', st') \<and> filling C st'"
  using assms(3-5)
proof (induction "nat remain" arbitrary: start remain f st rule: less_induct)
  case less
  let ?cur = "bs_currentChunkSize st" and ?f = "snd (IncrementRemainingChunkCount f)"
  have f: "fe_Size ?f = fe_Size f" by (simp add: IncrementRemainingChunkCount_def Let_def)
  have new: "filling C (newChunk st')" for st'
    using assms(1) by (simp add: filling_def newChunk_def int64_range_def)
  have remain: "remain < 2 ^ 63" using less.prems(2) by (simp add: int64_range_def)
  consider (none) "remain \<le> 0" | (fits) "0 < remain" "i64 (?cur + remain) < C" | (split) "0 < remain" "\<not> i64 (?cur + remain) < C"
    by linarith
  then show ?case
  proof cases
    case none
    then show ?thesis using less.prems(1) by (subst BuildChunks_file.simps) simp
  next
    case fits
    then have "filling C (addToChunk i start (fe_Size f) st)"
      using less.prems(3) i64_int64_range [of "?cur + remain"] by (simp add: filling_def addToChunk_def)
    then show ?thesis using fits new by (subst BuildChunks_file.simps) (simp add: Let_def f)
  next
    case split
    let ?sz = "i64 (C - ?cur)"
    let ?st = "newChunk (addToChunk i start (i64 (start + ?sz)) st)"
    have sz: "0 < ?sz" "?sz \<le> remain"
      using BuildChunks_split_size [OF less.prems(1) assms(1,2) split(1) remain split(2)] by simp_all
    then have rest: "i64 (remain - ?sz) = remain - ?sz" using remain by simp
    have "i64 (fe_Size ?f - i64 (start + ?sz)) = i64 (i64 (fe_Size f - start) - ?sz)"
      using i64_diff_i64 [of "fe_Size f" "start + ?sz"] i64_i64_diff [of "fe_Size f - start" ?sz]
      by (simp only: f diff_diff_eq)
    then have start: "i64 (fe_Size ?f - i64 (start + ?sz)) = remain - ?sz" using less.prems(3) split(1) rest by simp
    have "\<exists>f' st'. BuildChunks_file C m i (i64 (start + ?sz)) (remain - ?sz) ?f ?st = Some (f', st') \<and> filling C st'"
      using sz remain by (intro less.hyps new start) (simp_all add: int64_range_def)
    then show ?thesis using split by (subst BuildChunks_file.simps) (simp add: Let_def rest)
  qed
qed

lemma BuildChunks_files_end:
  assumes "0 < C" and "C < 2 ^ 63" and "filling C st" and "\<forall>f \<in> set fs. int64_range (fe_Size f)"
  shows "\<exists>r. BuildChunks_files C m i fs st = Some r"
  using assms(3,4)
proof (induction fs arbitrary: i st)
  case (Cons f fs)
  obtain f' st' where "BuildChunks_file C m i 0 (fe_Size f) f st = Some (f', st')" "filling C st'"
    using BuildChunks_file_ends [OF assms(1,2) Cons.prems(1), of "fe_Size f" f 0 m i] Cons.prems(2) by (auto simp: i64_same)
  then show ?case using Cons.IH [of st' "Suc i"] Cons.prems(2) by auto
qed simp

lemma BuildChunks_ends:
  assumes "0 < C" and "C < 2 ^ 63" and "\<forall>f \<in> set fs. int64_range (fe_Size f)"
  shows "BuildChunks fs C m \<noteq> None"
proof -
  have "filling C \<lparr>bs_chunkList = [], bs_chunk = Chunk0, bs_currentChunkSize = 0\<rparr>"
    using assms(1) by (simp add: filling_def int64_range_def)
  then have "\<exists>r. BuildChunks_files C m 0 (sort_key fe_Name fs) \<lparr>bs_chunkList = [], bs_chunk = Chunk0, bs_currentChunkSize = 0\<rparr> = Some r"
    using assms by (intro BuildChunks_files_end) simp_all
  then show ?thesis by (auto simp: BuildChunks_def)
qed

section \<open>The sizes in a manifest\<close>

lemma Atoi_range: "Atoi s = Inr i \<Longrightarrow> int64_range i"
  by (auto simp: Atoi_def int64_range_def Let_def split: list.splits if_splits option.splits prod.splits)

lemma decode_fields_invariant:
  assumes "decode_fields f fs r = Inr r'" and "P r" and "\<And>k j r r'. f k j r = Inr r' \<Longrightarrow> P r \<Longrightarrow> P r'"
  shows "P r'"
  using assms(1,2)
proof (induction fs arbitrary: r)
  case (Cons kj fs)
  obtain k j r1 where kj: "kj = (k, j)" "f (ToLower k) j r = Inr r1" "decode_fields f fs r1 = Inr r'"
    using Cons.prems(1) by (cases kj) (auto split: sum.splits)
  from Cons.IH [OF kj(3) assms(3) [OF kj(2) Cons.prems(2)]] show ?case .
qed simp

lemma decode_struct_invariant:
  assumes "decode_struct f j r = Inr r'" and "P r" and "\<And>k j r r'. f k j r = Inr r' \<Longrightarrow> P r \<Longrightarrow> P r'"
  shows "P r'"
  using assms decode_fields_invariant [of f _ r r' P] by (cases j) (auto simp: type_error_def)

lemma decode_elems_all:
  "decode_elems f js = Inr xs \<Longrightarrow> (\<And>j x. f j = Inr x \<Longrightarrow> P x) \<Longrightarrow> \<forall>x \<in> set xs. P x"
  by (induction f js arbitrary: xs rule: decode_elems.induct) (auto split: sum.splits simp: map_sum_def)

lemma decode_int64_range: "decode_int64 j old = Inr i \<Longrightarrow> int64_range old \<Longrightarrow> int64_range i"
  by (cases j) (auto simp: decode_int64.simps type_error_def dest: Atoi_range split: sum.splits)

lemma map_sum_Inr: "map_sum id f x = Inr y \<longleftrightarrow> (\<exists>z. x = Inr z \<and> y = f z)"
  by (cases x) auto

lemma decode_FileEntry_range:
  assumes "decode_FileEntry j = Inr e"
  shows "int64_range (fe_Size e)"
proof (rule decode_struct_invariant [OF assms [unfolded decode_FileEntry_def]])
  show "int64_range (fe_Size \<lparr>fe_Name = [], fe_Size = 0, fe_Perm = 0, fe_remainingChunkCount = 0\<rparr>)"
    by (simp add: int64_range_def)
  show "int64_range (fe_Size r')" if "FileEntry_field k j r = Inr r'" "int64_range (fe_Size r)" for k j and r r' :: FileEntry
    using that decode_int64_range by (auto simp: FileEntry_field_def map_sum_Inr split: if_splits)
qed

lemma decode_slice_all:
  "decode_slice f j = Inr xs \<Longrightarrow> (\<And>j x. f j = Inr x \<Longrightarrow> P x) \<Longrightarrow> \<forall>x \<in> set xs. P x"
  using decode_elems_all [of f _ xs P] by (cases j) (auto simp: type_error_def)

lemma Unmarshal_Manifest_range:
  assumes "Unmarshal_Manifest s = Inr m"
  shows "\<forall>f \<in> set (mf_Files m). int64_range (fe_Size f)"
proof -
  obtain j where "decode_struct Manifest_field j Manifest0 = Inr m"
    using assms by (auto simp: Unmarshal_Manifest_def decode_Manifest_def split: option.splits)
  then show ?thesis
  proof (rule decode_struct_invariant)
    show "\<forall>f \<in> set (mf_Files Manifest0). int64_range (fe_Size f)" by (simp add: Manifest0_def)
    show "\<forall>f \<in> set (mf_Files r'). int64_range (fe_Size f)"
      if "Manifest_field k j r = Inr r'" "\<forall>f \<in> set (mf_Files r). int64_range (fe_Size f)" for k j and r r' :: Manifest
      using that decode_slice_all [of decode_FileEntry j _ "\<lambda>e. int64_range (fe_Size e)"] decode_FileEntry_range
      by (auto simp: Manifest_field_def map_sum_Inr split: if_splits)
  qed
qed

lemma getManifestFromPeer_ends:
  assumes "0 < mf_ChunkSize m" and "mf_ChunkSize m < 2 ^ 63"
  shows "getManifestFromPeer hash env peer mfc m \<noteq> None"
proof
  assume none: "getManifestFromPeer hash env peer mfc m = None"
  then obtain content received where "Unmarshal_Manifest content = Inr received"
    "BuildChunks (mf_Files received) (mf_ChunkSize m) mfc = None"
    unfolding getManifestFromPeer_def Let_def by (auto split: sum.splits if_splits option.splits prod.splits)
  then show False using BuildChunks_ends [OF assms Unmarshal_Manifest_range] by blast
qed

lemma try_peers_ends:
  assumes "0 < mf_ChunkSize m" and "mf_ChunkSize m < 2 ^ 63"
  shows "try_peers hash env ps mfc m \<noteq> None"
proof (induction ps)
  case (Cons p ps)
  obtain r where "getManifestFromPeer hash env p mfc m = Some r"
    using getManifestFromPeer_ends [OF assms] by blast
  then show ?case using Cons.IH by (cases r) auto
qed simp

lemma getManifestFromPeerList_ends:
  assumes "0 < mf_ChunkSize m" and "mf_ChunkSize m < 2 ^ 63"
  shows "getManifestFromPeerList hash rounds p mfc m \<noteq> None"
proof (induction rounds)
  case (Cons ed rounds)
  obtain env dns where ed: "ed = (env, dns)" by fastforce
  show ?case
  proof (cases "GetPeers env dns p")
    case (Inr ps)
    obtain r where "try_peers hash env ps mfc m = Some r" using try_peers_ends [OF assms] by blast
    then show ?thesis using Cons.IH ed Inr by (cases r) auto
  qed (use Cons.IH ed in auto)
qed simp

section \<open>The sizes in a directory\<close>

text \<open>What \<open>Walk\<close> lists has the sizes of the files of the file system.\<close>

definition sized_files :: "world \<Rightarrow> bool" where
  "sized_files w \<longleftrightarrow> (\<forall>(p, n) \<in> set (files w). case n of NFile m bs \<Rightarrow> length bs < 2 ^ 63 | _ \<Rightarrow> True)"

definition entry_sized :: "Entry \<Rightarrow> bool" where
  "entry_sized e \<longleftrightarrow> (case e of EFile f \<Rightarrow> int64_range (fe_Size f) | _ \<Rightarrow> True)"

lemma node_at_sized: "sized_files w \<Longrightarrow> node_at w q = Some (NFile m bs) \<Longrightarrow> length bs < 2 ^ 63"
  by (fastforce simp: sized_files_def node_at_def split: if_splits option.splits dest!: map_of_SomeD)

lemma os_Lstat_sized: "sized_files w \<Longrightarrow> os_Lstat w p = Inr (NFile m bs) \<Longrightarrow> length bs < 2 ^ 63"
  using node_at_sized by (auto simp: os_Lstat_def split: sum.splits option.splits)

lemma scan_sized:
  "scanLocalDirectory k w d sub collect_entry es = Some r \<Longrightarrow> sized_files w \<Longrightarrow> \<forall>e \<in> set es. entry_sized e \<Longrightarrow>
     \<forall>e \<in> set (snd r). entry_sized e"
  "scan_entries k w d sub names collect_entry es = Some r \<Longrightarrow> sized_files w \<Longrightarrow> \<forall>e \<in> set es. entry_sized e \<Longrightarrow>
     \<forall>e \<in> set (snd r). entry_sized e"
proof (induction k w d sub "collect_entry" es and k w d sub names "collect_entry" es
    arbitrary: r and r rule: scanLocalDirectory_scan_entries.induct)
  case (2 k w dirSrc subDir s)
  then show ?case by (auto split: sum.splits)
next
  case (4 k w dirSrc subDir localFile localFiles s)
  let ?p = "Join (Join dirSrc subDir) localFile"
  have file_sized: "length bs < 2 ^ 63" if "os_Lstat w ?p = Inr (NFile m bs)" for m bs
    using os_Lstat_sized [OF 4(7) that] .
  have collected: "(None, es @ [e]) = collect_entry e es" for e es by (simp add: collect_entry_def)
  show ?case
  proof (cases "os_Lstat w ?p")
    case (Inl e)
    then show ?thesis using 4(6,8) by (auto simp: Let_def)
  next
    case (Inr n)
    note L = Inr
    show ?thesis
    proof (cases n)
      case (NFile m bs)
      let ?e = "if length bs = 0 then EEmptyFile \<lparr>ee_Name = Join subDir localFile, ee_Perm = m AND 511\<rparr>
        else EFile \<lparr>fe_Name = Join subDir localFile, fe_Size = int (length bs), fe_Perm = m AND 511, fe_remainingChunkCount = 0\<rparr>"
      have run: "scan_entries k w dirSrc subDir localFiles collect_entry (s @ [?e]) = Some r"
        using 4(6) L NFile by (simp add: Let_def collect_entry_def)
      have "entry_sized ?e"
        using file_sized [of m bs] L NFile by (simp add: entry_sized_def int64_range_def)
      then have "\<forall>e \<in> set (s @ [?e]). entry_sized e" using 4(8) by simp
      then show ?thesis by (rule 4(1) [OF refl L NFile collected refl run 4(7)])
    next
      case (NDir m)
      let ?e = "EDir \<lparr>de_Name = Join subDir localFile, de_Perm = m AND 511\<rparr>"
      obtain err s1 where sub: "scanLocalDirectory k w dirSrc (Join subDir localFile) collect_entry s = Some (err, s1)"
        using 4(6) L NDir by (auto simp: Let_def split: option.splits)
      have s1: "\<forall>e \<in> set s1. entry_sized e" using 4(2) [OF refl L NDir sub 4(7,8)] by simp
      show ?thesis
      proof (cases err)
        case None
        then have run: "scan_entries k w dirSrc subDir localFiles collect_entry (s1 @ [?e]) = Some r"
          using 4(6) L NDir sub by (simp add: Let_def collect_entry_def)
        have "\<forall>e \<in> set (s1 @ [?e]). entry_sized e" using s1 by (simp add: entry_sized_def)
        then show ?thesis by (rule 4(3) [OF refl L NDir sub refl None collected refl run 4(7)])
      next
        case (Some e)
        then show ?thesis using 4(6) L NDir sub s1 by (auto simp: Let_def)
      qed
    next
      case (NSymlink t)
      show ?thesis
      proof (cases "os_Readlink w (Join dirSrc (Join subDir localFile))")
        case (Inl e)
        then show ?thesis using 4(6,8) L NSymlink by (auto simp: Let_def)
      next
        case (Inr target)
        let ?e = "ESymlink \<lparr>se_Name = Join subDir localFile, se_SymlinkTo = target\<rparr>"
        have run: "scan_entries k w dirSrc subDir localFiles collect_entry (s @ [?e]) = Some r"
          using 4(6) L NSymlink Inr by (simp add: Let_def collect_entry_def)
        have "\<forall>e \<in> set (s @ [?e]). entry_sized e" using 4(8) by (simp add: entry_sized_def)
        then show ?thesis by (rule 4(4) [OF refl L NSymlink Inr collected refl run 4(7)])
      qed
    next
      case (NOther m)
      then show ?thesis using 4(5) [OF refl L NOther] 4(6-8) L by (auto simp: Let_def)
    qed
  qed
qed auto

lemma Walk_sized: "sized_files w \<Longrightarrow> \<forall>e \<in> set (fst (LocalStorage_Walk st path w)). entry_sized e"
  using scan_sized(1) [of "scan_fuel w" w "Join (BaseDir st) path" "[]" "[]"]
  by (fastforce simp: LocalStorage_Walk_def split: option.splits)

lemma add_entry_sized:
  "\<forall>e \<in> set es. entry_sized e \<Longrightarrow> \<forall>f \<in> set (mf_Files m). int64_range (fe_Size f) \<Longrightarrow>
   \<forall>f \<in> set (mf_Files (fold add_entry es m)). int64_range (fe_Size f)"
proof (induction es arbitrary: m)
  case (Cons e es)
  then have "\<forall>f \<in> set (mf_Files (add_entry e m)). int64_range (fe_Size f)"
    by (cases e) (auto simp: entry_sized_def FileEntry_Copy_def)
  then show ?case using Cons by simp
qed simp

section \<open>Init returns\<close>

lemma NewChunkManager_ends:
  assumes "0 < C" and "C < 2 ^ 63" and "sized_files w"
  shows "NewChunkManager hash v rounds (map_option (\<lambda>s. (local_storage s, w)) src) provider C mfc \<noteq> None"
proof (cases src)
  case None
  then show ?thesis
    using getManifestFromPeerList_ends [of "Manifest0\<lparr>mf_MajorVersion := v_Major v, mf_MinorVersion := v_Minor v, mf_ChunkSize := C\<rparr>"]
      assms(1,2) by (cases provider) (auto simp: NewChunkManager_def newManifest_def Let_def)
next
  case (Some st)
  let ?es = "fst (st_Walk (local_storage st) [] w)"
  have "\<forall>e \<in> set ?es. entry_sized e" using Walk_sized [OF assms(3)] by (simp add: local_storage_def)
  then have "\<forall>f \<in> set (mf_Files (listed ?es (bare_manifest v C))). int64_range (fe_Size f)"
    unfolding listed_def by (rule add_entry_sized) simp
  then have "BuildChunks (mf_Files (listed ?es (bare_manifest v C))) C mfc \<noteq> None"
    using BuildChunks_ends [OF assms(1,2)] by blast
  moreover have "mf_ChunkSize (bare_manifest v C) = C" by (simp add: bare_manifest_def)
  ultimately have "getManifestFromStorage hash (local_storage st) w mfc (bare_manifest v C) \<noteq> None"
    by (auto simp: getManifestFromStorage_listed Let_def split: option.splits)
  then show ?thesis using Some by (simp add: NewChunkManager_source)
qed

text \<open>Claim C40. The initialisation always returns, with a context or an error: for every command line, every file system whose
  files have sizes of type \<open>int64\<close>, and whatever peers, resolvers and registries answer in the rounds
  before the timeout, there is no computation that does not end. The loop that could run forever is
  that of \<open>BuildChunks\<close>, over the sizes of a manifest that any peer may have made up; it ends for all of
  them, also when sums of sizes wrap around, because \<open>Init\<close> refuses chunk sizes that are not positive.\<close>

theorem Init_returns:
  assumes "sized_files (ie_world ie)"
  shows "\<exists>r. Init ie fl = Some r"
proof (cases "0 < fl_ChunkSize fl \<and> fl_ChunkSize fl \<le> MaxChunkSize")
  case True
  then have C: "0 < fl_ChunkSize fl" "fl_ChunkSize fl < 2 ^ 63" by (simp_all add: MaxChunkSize_def)
  note ends = NewChunkManager_ends [OF C assms, of "ie_hash ie" "ie_version ie" "ie_rounds ie" _ _ "fl_MaxFileCountPerChunk fl"]
  have "\<exists>src provider. NewChunkManager (ie_hash ie) (ie_version ie) (ie_rounds ie)
      (map_option (\<lambda>s. (local_storage s, ie_world ie)) src) provider (fl_ChunkSize fl) (fl_MaxFileCountPerChunk fl) = None"
    if "Init ie fl = None"
    using that by (auto simp: Init_def Let_def split: if_splits sum.splits option.splits)
  then show ?thesis using ends by blast
next
  case False
  then show ?thesis by (auto simp: Init_def)
qed

theorem Init_returns_witness: "\<exists>r. Init demo_init_env demo_init_flags = Some r"
  by (rule Init_returns) (simp add: demo_init_env_def sized_files_def)

end
