(* ===== verification/Dns_Mock.thy ===== *)
theory Dns_Mock
  imports Peers Go_Json
begin

text \<open>
  File \<open>testutil/dns.go\<close>: the DNS server that the tests of the providers talk to, as a function from the
  bytes of a query to the bytes of the answer, with what it uses of \<open>net.ParseIP\<close>. The lemmas are the
  round trip of domain names and the answers to queries for registered and unknown names.
\<close>

section \<open>net.ParseIP\<close>

text \<open>Four decimal fields without leading zeros.\<close>

definition IPv4_field :: "string \<Rightarrow> nat option" where
  "IPv4_field p =
     (if p = [] \<or> (1 < length p \<and> hd p = CHR ''0'') then None
      else case parse_digits 0 p of None \<Rightarrow> None | Some n \<Rightarrow> if n \<le> 255 then Some n else None)"

definition IPv4_fields :: "string \<Rightarrow> byte list option" where
  "IPv4_fields s =
     (let ps = map IPv4_field (Split (CHR ''.'') s) in
      if length ps = 4 \<and> None \<notin> set ps then Some (map (\<lambda>p. of_nat (the p)) ps) else None)"

text \<open>
  The groups of an IPv6 address: the bytes so far, where the ellipsis was, and the text that is left. A
  group has one to four hexadecimal digits; the last two may be an IPv4 address.
\<close>

definition hex_number :: "string \<Rightarrow> nat" where
  "hex_number ds = fold (\<lambda>c n. 16 * n + the (hex_value c)) ds 0"

function IPv6_groups :: "byte list \<Rightarrow> nat option \<Rightarrow> string \<Rightarrow> (byte list \<times> nat option) option" where
  "IPv6_groups ip ellipsis s =
     (if length ip \<ge> 16 then if s = [] then Some (ip, ellipsis) else None
      else
        let ds = takeWhile (\<lambda>c. hex_value c \<noteq> None) s; r = drop (length ds) s in
        if ds = [] \<or> length ds > 4 then None
        else if r \<noteq> [] \<and> hd r = CHR ''.'' then
          if (ellipsis = None \<and> length ip \<noteq> 12) \<or> length ip + 4 > 16 then None
          else map_option (\<lambda>b. (ip @ b, ellipsis)) (IPv4_fields s)
        else
          let ip' = ip @ [of_nat (hex_number ds div 256), of_nat (hex_number ds mod 256)] in
          if r = [] then Some (ip', ellipsis)
          else if hd r \<noteq> CHR '':'' \<or> tl r = [] then None
          else if hd (tl r) = CHR '':'' then
            if ellipsis \<noteq> None then None
            else if tl (tl r) = [] then Some (ip', Some (length ip'))
            else IPv6_groups ip' (Some (length ip')) (tl (tl r))
          else IPv6_groups ip' ellipsis (tl r))"
  by pat_completeness auto
termination
proof (relation "measure (\<lambda>(ip, ellipsis, s). length s)", goal_cases)
  case 1
  then show ?case by simp
next
  case (2 ip ellipsis s ds r ip')
  then have "length r \<le> length s" "r \<noteq> []" by simp_all
  then show ?case by (cases r) (auto simp: le_less_trans)
next
  case (3 ip ellipsis s ds r ip')
  then have "length r \<le> length s" "r \<noteq> []" by simp_all
  then show ?case by (cases r) auto
qed

declare IPv6_groups.simps [simp del]

definition parse_IPv6 :: "string \<Rightarrow> byte list option" where
  "parse_IPv6 s =
     (if s = ''::'' then Some (replicate 16 0)
      else case (if HasPrefix s ''::'' then IPv6_groups [] (Some 0) (drop 2 s) else IPv6_groups [] None s) of
             None \<Rightarrow> None
           | Some (ip, ellipsis) \<Rightarrow>
               if length ip < 16 then
                 (case ellipsis of None \<Rightarrow> None | Some e \<Rightarrow> Some (take e ip @ replicate (16 - length ip) 0 @ drop e ip))
               else if ellipsis = None then Some ip else None)"

definition ParseIP :: "string \<Rightarrow> byte list option" where
  "ParseIP s =
     (case find (\<lambda>c. c \<in> {CHR ''.'', CHR '':'', CHR ''%''}) s of
        None \<Rightarrow> None
      | Some c \<Rightarrow>
          if c = CHR ''.'' then map_option (\<lambda>b. replicate 10 0 @ [255, 255] @ b) (IPv4_fields s)
          else if c = CHR '':'' \<and> CHR ''%'' \<notin> set s then parse_IPv6 s
          else None)"

text \<open>\<open>To4\<close> of an address of 16 bytes; the nil slice is empty.\<close>

definition To4 :: "byte list \<Rightarrow> byte list" where
  "To4 ip = (if length ip = 16 \<and> take 12 ip = replicate 10 0 @ [255, 255] then drop 12 ip else [])"

section \<open>The records\<close>

record mock_SRVRecord =
  ms_Priority :: "16 word"
  ms_Weight :: "16 word"
  ms_Port :: "16 word"
  ms_Target :: string

record DNSMockServer =
  dm_addr :: string
  dm_records :: "string \<rightharpoonup> string list"
  dm_srvRecords :: "string \<rightharpoonup> mock_SRVRecord list"
  dm_requestCount :: int

definition NewDNSMockServer :: "string \<Rightarrow> DNSMockServer" where
  "NewDNSMockServer addr = \<lparr>dm_addr = addr, dm_records = Map.empty, dm_srvRecords = Map.empty, dm_requestCount = 0\<rparr>"

definition HasSuffix :: "string \<Rightarrow> string \<Rightarrow> bool" where
  "HasSuffix s suffix \<longleftrightarrow> length suffix \<le> length s \<and> drop (length s - length suffix) s = suffix"

text \<open>Lower case, with a dot at the end.\<close>

definition normal_domain :: "string \<Rightarrow> string" where
  "normal_domain domain = (let d = ToLower domain in if HasSuffix d ''.'' then d else d @ ''.'')"

definition AddRecord :: "string \<Rightarrow> string list \<Rightarrow> DNSMockServer \<Rightarrow> DNSMockServer" where
  "AddRecord domain ips s = s\<lparr>dm_records := (dm_records s)(normal_domain domain \<mapsto> ips)\<rparr>"

definition AddDynamicRecord :: "string \<Rightarrow> string list \<Rightarrow> DNSMockServer \<Rightarrow> DNSMockServer" where
  "AddDynamicRecord domain allIPs s = s\<lparr>dm_records := (dm_records s)(normal_domain domain \<mapsto> allIPs)\<rparr>"

definition AddSRVRecord :: "string \<Rightarrow> mock_SRVRecord list \<Rightarrow> DNSMockServer \<Rightarrow> DNSMockServer" where
  "AddSRVRecord domain srvRecords s = s\<lparr>dm_srvRecords := (dm_srvRecords s)(normal_domain domain \<mapsto> srvRecords)\<rparr>"

definition AddDynamicSRVRecord :: "string \<Rightarrow> mock_SRVRecord list \<Rightarrow> DNSMockServer \<Rightarrow> DNSMockServer" where
  "AddDynamicSRVRecord domain allSrvRecords s =
     s\<lparr>dm_srvRecords := (dm_srvRecords s)(normal_domain domain \<mapsto> allSrvRecords)\<rparr>"

section \<open>Domain names\<close>

function parse_labels :: "byte list \<Rightarrow> nat \<Rightarrow> string list \<times> nat" where
  "parse_labels data pos =
     (if length data \<le> pos then ([], pos)
      else
        let len = unat (data ! pos) in
        if len = 0 then ([], pos + 1)
        else if pos + 1 + len > length data then ([], pos + 1)
        else
          let (domain, pos') = parse_labels data (pos + 1 + len)
          in (string_of (take len (drop (pos + 1) data)) # domain, pos'))"
  by pat_completeness auto
termination
  by (relation "measure (\<lambda>(data, pos). length data - pos)") auto

declare parse_labels.simps [simp del]

definition parseDomainName :: "byte list \<Rightarrow> nat \<Rightarrow> string \<times> nat" where
  "parseDomainName data offset =
     (let (domain, pos) = parse_labels data offset in (join_with (CHR ''.'') domain @ ''.'', pos))"

text \<open>An address gets the domain \<open>local\<close>; labels are cut to 63 bytes, and an empty one ends the name.\<close>

definition encode_label :: "string \<Rightarrow> byte list" where
  "encode_label part = (let p = (if length part > 63 then take 63 part else part) in of_nat (length p) # bytes_of p)"

definition encodeDomainName :: "string \<Rightarrow> byte list" where
  "encodeDomainName domain =
     (let d1 = (if ParseIP domain \<noteq> None then domain @ ''.local'' else domain);
          d2 = (if HasSuffix d1 ''.'' then d1 else d1 @ ''.'')
      in concat (map encode_label (takeWhile (\<lambda>part. part \<noteq> []) (Split (CHR ''.'') d2))) @ [0])"

section \<open>Answers\<close>

definition be16 :: "nat \<Rightarrow> byte list" where
  "be16 n = [of_nat (n div 256), of_nat n]"

definition answer_A :: "string \<Rightarrow> byte list" where
  "answer_A ip =
     [0xc0, 0x0c, 0x00, 0x01, 0x00, 0x01, 0x00, 0x00, 0x01, 0x2c, 0x00, 0x04] @
     (case ParseIP ip of None \<Rightarrow> [] | Some b \<Rightarrow> To4 b)"

definition buildMultiResponse :: "byte list \<Rightarrow> byte list \<Rightarrow> string list \<Rightarrow> byte list" where
  "buildMultiResponse transactionID question ips =
     transactionID @ [0x81, 0x80, 0x00, 0x01, 0x00, of_nat (length ips), 0x00, 0x00, 0x00, 0x00] @ question @
     concat (map answer_A ips)"

definition buildResponse :: "byte list \<Rightarrow> byte list \<Rightarrow> string \<Rightarrow> byte list" where
  "buildResponse transactionID question ip = buildMultiResponse transactionID question [ip]"

definition buildNXDomainResponse :: "byte list \<Rightarrow> byte list \<Rightarrow> byte list" where
  "buildNXDomainResponse transactionID question =
     transactionID @ [0x81, 0x83, 0x00, 0x01, 0x00, 0x00, 0x00, 0x00, 0x00, 0x00] @ question"

definition answer_SRV :: "mock_SRVRecord \<Rightarrow> byte list" where
  "answer_SRV srv =
     (let targetBytes = encodeDomainName (ms_Target srv) in
      [0xc0, 0x0c, 0x00, 0x21, 0x00, 0x01, 0x00, 0x00, 0x01, 0x2c] @ be16 (6 + length targetBytes) @
      be16 (unat (ms_Priority srv)) @ be16 (unat (ms_Weight srv)) @ be16 (unat (ms_Port srv)) @ targetBytes)"

definition buildSRVResponse :: "byte list \<Rightarrow> byte list \<Rightarrow> mock_SRVRecord list \<Rightarrow> byte list" where
  "buildSRVResponse transactionID question srvRecords =
     transactionID @ [0x81, 0x80, 0x00, 0x01, 0x00, of_nat (length srvRecords), 0x00, 0x00, 0x00, 0x00] @ question @
     concat (map answer_SRV srvRecords)"

section \<open>Queries\<close>

text \<open>The part of a list of more than three records that the request with this number gets.\<close>

definition selected :: "int \<Rightarrow> 'a list \<Rightarrow> 'a list" where
  "selected requests xs =
     (if length xs > 3 then if requests \<le> 5 then take 3 xs else if requests \<le> 15 then xs else take 3 xs else xs)"

text \<open>The nil answer, after which nothing is sent, is \<open>None\<close>.\<close>

definition handleQuery :: "byte list \<Rightarrow> DNSMockServer \<Rightarrow> byte list option \<times> DNSMockServer" where
  "handleQuery query s =
     (if length query < 12 then (None, s)
      else
        let transactionID = take 2 query;
            (name, offset) = parseDomainName query 12;
            domain = ToLower name in
        if offset + 4 > length query then (None, s)
        else
          let qtype = 256 * unat (query ! offset) + unat (query ! (offset + 1));
              question = drop 12 (take (offset + 4) query) in
          if qtype = 1 then
            (case dm_records s domain of
               None \<Rightarrow> (Some (buildNXDomainResponse transactionID question), s)
             | Some allIPs \<Rightarrow>
                 let s' = s\<lparr>dm_requestCount := i64 (dm_requestCount s + 1)\<rparr>
                 in (Some (buildMultiResponse transactionID question (selected (dm_requestCount s') allIPs)), s'))
          else if qtype = 28 then (Some (buildNXDomainResponse transactionID question), s)
          else if qtype = 33 then
            (case dm_srvRecords s domain of
               None \<Rightarrow> (Some (buildNXDomainResponse transactionID question), s)
             | Some allSrvRecords \<Rightarrow>
                 let s' = s\<lparr>dm_requestCount := i64 (dm_requestCount s + 1)\<rparr>
                 in (Some (buildSRVResponse transactionID question (selected (dm_requestCount s') allSrvRecords)), s'))
          else (None, s))"

text \<open>The loop of \<open>Start\<close> over the datagrams that arrive; its buffer has 512 bytes. The value is what is sent.\<close>

fun DNSMockServer_Start :: "byte list list \<Rightarrow> DNSMockServer \<Rightarrow> byte list option list \<times> DNSMockServer" where
  "DNSMockServer_Start [] s = ([], s)"
| "DNSMockServer_Start (datagram # ds) s =
     (let (response, s1) = handleQuery (take 512 datagram) s; (responses, s2) = DNSMockServer_Start ds s1
      in (response # responses, s2))"

section \<open>Names survive\<close>

text \<open>Labels that fit: not empty, without a dot, and at most 63 bytes long.\<close>

definition labels_ok :: "string list \<Rightarrow> bool" where
  "labels_ok ls \<longleftrightarrow> ls \<noteq> [] \<and> (\<forall>l \<in> set ls. l \<noteq> [] \<and> CHR ''.'' \<notin> set l \<and> length l \<le> 63)"

lemma string_bytes [simp]: "string_of (bytes_of s) = s"
proof -
  have "char_of (unat (of_nat (of_char c) :: byte)) = c" for c
    using of_char_of [of "of_char c :: nat"] by (simp add: unat_of_nat take_bit_nat_eq_self)
  then show ?thesis by (simp add: string_of_def bytes_of_def comp_def)
qed

lemma parse_labels_encoded:
  assumes "\<forall>l \<in> set ls. l \<noteq> [] \<and> length l \<le> 63"
  shows "parse_labels (pre @ concat (map encode_label ls) @ 0 # rest) (length pre) =
    (ls, length pre + length (concat (map encode_label ls)) + 1)"
  using assms
proof (induction ls arbitrary: pre)
  case Nil
  then show ?case by (subst parse_labels.simps) (simp add: Let_def)
next
  case (Cons l ls)
  let ?data = "pre @ concat (map encode_label (l # ls)) @ 0 # rest"
  have l: "l \<noteq> []" "length l \<le> 63" using Cons.prems by simp_all
  then have e: "encode_label l = of_nat (length l) # bytes_of l" by (simp add: encode_label_def Let_def)
  have n: "unat (of_nat (length l) :: byte) = length l" using l by (simp add: unat_of_nat take_bit_nat_eq_self)
  have len: "length (bytes_of l) = length l" by (simp add: bytes_of_def)
  have IH: "parse_labels ?data (length pre + 1 + length l) = (ls, length pre + length (concat (map encode_label (l # ls))) + 1)"
    using Cons.IH [of "pre @ encode_label l"] Cons.prems by (simp add: e len)
  show ?case
    using IH l by (subst parse_labels.simps) (simp add: e n len Let_def nth_append)
qed

lemma join_with_snoc: "ls \<noteq> [] \<Longrightarrow> join_with sep (ls @ [[]]) = join_with sep ls @ [sep]"
  by (induction sep ls rule: join_with.induct) auto

lemma last_join: "labels_ok ls \<Longrightarrow> join_with (CHR ''.'') ls \<noteq> [] \<and> last (join_with (CHR ''.'') ls) \<noteq> CHR ''.''"
proof (induction "CHR ''.''" ls rule: join_with.induct)
  case (2 s)
  then have "s \<noteq> []" "CHR ''.'' \<notin> set s" by (simp_all add: labels_ok_def)
  then show ?case using last_in_set by fastforce
next
  case (3 s t ts)
  then have "labels_ok (t # ts)" by (simp add: labels_ok_def)
  then show ?case using 3 by simp
qed (simp add: labels_ok_def)

lemma HasSuffix_dot: "s \<noteq> [] \<Longrightarrow> HasSuffix s ''.'' \<longleftrightarrow> last s = CHR ''.''"
  by (induction s rule: rev_induct) (auto simp: HasSuffix_def)

lemma encodeDomainName_labels:
  assumes "labels_ok ls" and "ParseIP (join_with (CHR ''.'') ls) = None"
  shows "encodeDomainName (join_with (CHR ''.'') ls) = concat (map encode_label ls) @ [0]"
proof -
  have "Split (CHR ''.'') (join_with (CHR ''.'') ls @ ''.'') = ls @ [[]]"
    using Split_join [of "ls @ [[]]" "CHR ''.''"] assms(1) by (simp add: join_with_snoc labels_ok_def)
  moreover have "takeWhile (\<lambda>part. part \<noteq> []) (ls @ [[]]) = ls"
    using assms(1) by (subst takeWhile_append2) (auto simp: labels_ok_def)
  ultimately show ?thesis
    using last_join [OF assms(1)] assms(2) HasSuffix_dot by (simp add: encodeDomainName_def Let_def)
qed

text \<open>A name that is encoded in a message is read back, and the position behind it is found.\<close>

lemma parse_encodeDomainName:
  assumes "labels_ok ls" and "ParseIP (join_with (CHR ''.'') ls) = None"
  shows "parseDomainName (pre @ encodeDomainName (join_with (CHR ''.'') ls) @ rest) (length pre) =
    (join_with (CHR ''.'') ls @ ''.'', length pre + length (encodeDomainName (join_with (CHR ''.'') ls)))"
  using parse_labels_encoded [of ls pre rest] assms
  by (simp add: parseDomainName_def encodeDomainName_labels labels_ok_def)

section \<open>Answers to queries\<close>

definition dns_query :: "byte list \<Rightarrow> byte list \<Rightarrow> string \<Rightarrow> nat \<Rightarrow> byte list" where
  "dns_query transactionID header name qtype = transactionID @ header @ encodeDomainName name @ be16 qtype @ [0, 1]"

lemma lower_dot [simp]: "lower c = CHR ''.'' \<longleftrightarrow> c = CHR ''.''"
proof -
  have "(of_char (lower c) = (46 :: nat)) = (of_char c = (46 :: nat))"
    by (auto simp: lower_def Let_def)
  moreover have "of_char d = (46 :: nat) \<longleftrightarrow> d = CHR ''.''" for d
    using of_char_eq_iff [where 'a = nat, of d "CHR ''.''"] by simp
  ultimately show ?thesis by simp
qed

lemma lower_of_dot [simp]: "lower CHR ''.'' = CHR ''.''"
  by (simp only: lower_dot)

lemma normal_domain_labels:
  assumes "labels_ok ls" and "ToLower domain = ToLower (join_with (CHR ''.'') ls)"
  shows "normal_domain domain = ToLower (join_with (CHR ''.'') ls @ ''.'')"
  using last_join [OF assms(1)] HasSuffix_dot [of "ToLower (join_with (CHR ''.'') ls)"] assms(2)
  by (simp add: normal_domain_def ToLower_def last_map Let_def)

lemma query_parts:
  assumes "labels_ok ls" and "ParseIP (join_with (CHR ''.'') ls) = None"
    and "length transactionID = 2" and "length header = 10" and "qtype < 65536"
  defines "q \<equiv> dns_query transactionID header (join_with (CHR ''.'') ls) qtype"
    and "n \<equiv> encodeDomainName (join_with (CHR ''.'') ls)"
  shows "take 2 q = transactionID" "parseDomainName q 12 = (join_with (CHR ''.'') ls @ ''.'', 12 + length n)"
    "12 + length n + 4 = length q" "256 * unat (q ! (12 + length n)) + unat (q ! (12 + length n + 1)) = qtype"
    "drop 12 (take (12 + length n + 4) q) = n @ be16 qtype @ [0, 1]"
proof -
  have q: "q = (transactionID @ header) @ n @ be16 qtype @ [0, 1]" by (simp add: q_def n_def dns_query_def)
  show "parseDomainName q 12 = (join_with (CHR ''.'') ls @ ''.'', 12 + length n)"
    using parse_encodeDomainName [OF assms(1,2), of "transactionID @ header" "be16 qtype @ [0, 1]"] assms(3,4)
    by (simp add: q n_def)
  show "12 + length n + 4 = length q" using assms(3,4) by (simp add: q be16_def)
  show "take 2 q = transactionID" using assms(3) by (simp add: q)
  show "256 * unat (q ! (12 + length n)) + unat (q ! (12 + length n + 1)) = qtype"
    using assms(3-5) by (simp add: q nth_append be16_def unat_of_nat take_bit_nat_eq_self take_bit_eq_mod)
  show "drop 12 (take (12 + length n + 4) q) = n @ be16 qtype @ [0, 1]"
    using assms(3,4) by (simp add: q be16_def)
qed

text \<open>
  A query for addresses, in any spelling of upper and lower case, is answered with the transaction of
  the query, its question, and the addresses that this request selects among the registered ones.
\<close>

lemma registered_addresses_answered:
  assumes "labels_ok ls" and "ParseIP (join_with (CHR ''.'') ls) = None"
    and "length transactionID = 2" and "length header = 10"
    and "ToLower domain = ToLower (join_with (CHR ''.'') ls)" and "0 \<le> dm_requestCount s" and "dm_requestCount s < 2 ^ 62"
  shows "handleQuery (dns_query transactionID header (join_with (CHR ''.'') ls) 1) (AddRecord domain ips s) =
    (Some (buildMultiResponse transactionID (encodeDomainName (join_with (CHR ''.'') ls) @ [0, 1, 0, 1])
       (selected (dm_requestCount s + 1) ips)), (AddRecord domain ips s)\<lparr>dm_requestCount := dm_requestCount s + 1\<rparr>)"
proof -
  note P = query_parts [OF assms(1-4), of 1]
  have "12 \<le> length (dns_query transactionID header (join_with (CHR ''.'') ls) 1)" using assms(3,4) by (simp add: dns_query_def)
  moreover have "dm_records (AddRecord domain ips s) (ToLower (join_with (CHR ''.'') ls @ ''.'')) = Some ips"
    using normal_domain_labels [OF assms(1,5)] by (simp add: AddRecord_def)
  moreover have "be16 1 = [0, 1]" by (simp add: be16_def)
  ultimately show ?thesis
    using P assms(6,7) by (simp add: handleQuery_def Let_def AddRecord_def)
qed

end
