(* ===== verification/Test_Storage.thy ===== *)
theory Test_Storage
  imports Transfer_Flow
begin

text \<open>
  File \<open>testutil/storage.go\<close>: the generator of the directories that the tests copy, over the
  file-system model. A failed test is the error; maps are lists, in the order in which Go ranges over
  them. The lemma gives the contents of a generated directory.
\<close>

section \<open>What it uses of the standard library\<close>

text \<open>\<open>filepath.Dir\<close>: the cleaned path up to the last slash.\<close>

definition path_Dir :: "string \<Rightarrow> string" where
  "path_Dir p = Clean (join_with slash (butlast (Split slash p) @ [[]]))"

definition os_WriteFile :: "string \<Rightarrow> byte list \<Rightarrow> FileMode \<Rightarrow> world \<Rightarrow> go_error option \<times> world" where
  "os_WriteFile p content perm w =
     (case os_OpenFile p \<lparr>o_create = True, o_trunc = True, o_read = False, o_write = True\<rparr> perm w of
        (Inl err, w') \<Rightarrow> (Some err, w')
      | (Inr q, w') \<Rightarrow> (None, file_pwrite q 0 content w'))"

text \<open>A loop that a failure ends.\<close>

fun each_of :: "('a \<Rightarrow> world \<Rightarrow> go_error option \<times> world) \<Rightarrow> 'a list \<Rightarrow> world \<Rightarrow> go_error option \<times> world" where
  "each_of f [] w = (None, w)"
| "each_of f (x # xs) w = (case f x w of (Some err, w') \<Rightarrow> (Some err, w') | (None, w') \<Rightarrow> each_of f xs w')"

section \<open>The generator\<close>

record TestStorageOptions =
  to_Files :: "(string \<times> byte list) list"
  to_EmptyFiles :: "string list"
  to_Dirs :: "string list"
  to_Symlinks :: "(string \<times> string) list"

definition DefaultTestStorageOptions :: TestStorageOptions where
  "DefaultTestStorageOptions =
     \<lparr>to_Files = [(''file1.txt'', replicate 1000 97), (''file2.txt'', replicate 2000 98), (''file3.txt'', replicate 500 99)],
      to_EmptyFiles = [], to_Dirs = [], to_Symlinks = []\<rparr>"

definition WithEntriesTestStorageOptions :: TestStorageOptions where
  "WithEntriesTestStorageOptions =
     \<lparr>to_Files = [(''file1.txt'', replicate 1000 97), (''file2.txt'', replicate 2000 98), (''subdir/file3.txt'', replicate 500 99)],
      to_EmptyFiles = [''empty.txt''], to_Dirs = [''subdir''], to_Symlinks = [(''link.txt'', ''file1.txt'')]\<rparr>"

definition create_dir :: "string \<Rightarrow> string \<Rightarrow> world \<Rightarrow> go_error option \<times> world" where
  "create_dir tmpDir dir = os_MkdirAll (Join tmpDir dir) 493"

definition create_file :: "string \<Rightarrow> string \<times> byte list \<Rightarrow> world \<Rightarrow> go_error option \<times> world" where
  "create_file tmpDir = (\<lambda>(name, content) w.
     let filePath = Join tmpDir name in
     case os_MkdirAll (path_Dir filePath) 493 w of
       (Some err, w') \<Rightarrow> (Some err, w')
     | (None, w') \<Rightarrow> os_WriteFile filePath content 420 w')"

definition create_empty :: "string \<Rightarrow> string \<Rightarrow> world \<Rightarrow> go_error option \<times> world" where
  "create_empty tmpDir name = os_WriteFile (Join tmpDir name) [] 420"

definition create_link :: "string \<Rightarrow> string \<times> string \<Rightarrow> world \<Rightarrow> go_error option \<times> world" where
  "create_link tmpDir = (\<lambda>(name, target). os_Symlink target (Join tmpDir name))"

text \<open>
  \<open>CreateTestStorage\<close> with the name that \<open>MkdirTemp\<close> has chosen. After a failure the directory is removed
  and the test ends.
\<close>

definition CreateTestStorage :: "string \<Rightarrow> TestStorageOptions \<Rightarrow> world \<Rightarrow> (LocalStorage option \<times> string \<times> world) result" where
  "CreateTestStorage tmpDir opts w =
     (case os_Mkdir tmpDir 448 w of
        (Some err, w0) \<Rightarrow> Inl (Error ''Failed to create temp dir'')
      | (None, w0) \<Rightarrow>
      case each_of (create_dir tmpDir) (to_Dirs opts) w0 of
        (Some err, w1) \<Rightarrow> Inl (Error ''Failed to create directory'')
      | (None, w1) \<Rightarrow>
      case each_of (create_file tmpDir) (to_Files opts) w1 of
        (Some err, w2) \<Rightarrow> Inl (Error ''Failed to create test file'')
      | (None, w2) \<Rightarrow>
      case each_of (create_empty tmpDir) (to_EmptyFiles opts) w2 of
        (Some err, w3) \<Rightarrow> Inl (Error ''Failed to create empty file'')
      | (None, w3) \<Rightarrow>
      case each_of (create_link tmpDir) (to_Symlinks opts) w3 of
        (Some err, w4) \<Rightarrow> Inl (Error ''Failed to create symlink'')
      | (None, w4) \<Rightarrow>
      case NewStorageFactory w4 tmpDir of
        Inl err \<Rightarrow> Inl (Error ''Failed to create storage factory'')
      | Inr factory \<Rightarrow>
      case StorageFactory_Create factory [] of
        Inl err \<Rightarrow> Inl (Error ''Failed to create storage'')
      | Inr stor \<Rightarrow> Inr (stor, tmpDir, w4))"

definition CreateTestStorageDefault :: "string \<Rightarrow> world \<Rightarrow> (LocalStorage option \<times> string \<times> world) result" where
  "CreateTestStorageDefault tmpDir = CreateTestStorage tmpDir DefaultTestStorageOptions"

definition CreateTestStorageWithEntries :: "string \<Rightarrow> world \<Rightarrow> (LocalStorage option \<times> string \<times> world) result" where
  "CreateTestStorageWithEntries tmpDir = CreateTestStorage tmpDir WithEntriesTestStorageOptions"

definition CreateEmptyTestStorage :: "string \<Rightarrow> world \<Rightarrow> (LocalStorage option \<times> string \<times> world) result" where
  "CreateEmptyTestStorage tmpDir =
     CreateTestStorage tmpDir \<lparr>to_Files = [], to_EmptyFiles = [], to_Dirs = [], to_Symlinks = []\<rparr>"

section \<open>The generated files\<close>

lemma clean_comps_trailing: "\<forall>c \<in> set cs. clean_name c \<Longrightarrow> clean_comps b acc (cs @ [[]]) = rev acc @ cs"
  by (induction cs arbitrary: acc) (auto simp: clean_name_def)

lemma path_Dir_child:
  assumes "\<forall>c \<in> set bs. clean_name c" and "clean_name n"
  shows "path_Dir (abs_path (bs @ [n])) = abs_path bs"
proof -
  let ?p = "join_with slash (([] # bs) @ [[]])"
  have parts: "butlast (Split slash (abs_path (bs @ [n]))) @ [[]] = ([] # bs) @ [[]]"
    using Split_abs_path [of "bs @ [n]"] assms by simp
  have split: "Split slash ?p = ([] # bs) @ [[]]"
    using assms clean_no_slash [of bs] by (intro Split_join) auto
  have rooted: "rooted_path ?p" by (cases bs) (simp_all add: rooted_path_def HasPrefix_def)
  then have "?p \<noteq> []" by (auto simp: rooted_path_def HasPrefix_def)
  then have "Clean ?p = abs_path bs"
    using split rooted clean_comps_trailing [OF assms(1), of True "[]"] by (simp add: Clean_def abs_path_def Let_def)
  then show ?thesis by (simp add: path_Dir_def parts)
qed

lemma os_MkdirAll_there:
  assumes "plain w q" and "node_at w q = Some (NDir m)"
  shows "os_MkdirAll (abs_path q) perm w = (None, w)"
proof -
  have c: "\<forall>c \<in> set q. clean_name c" using assms(1) by (simp add: plain_def)
  then have "os_MkdirAll (abs_path q) perm w = os_MkdirAll_rev (rev q) perm w" by (simp add: os_MkdirAll_def Abs_def)
  also have "\<dots> = (None, w)"
  proof (cases q rule: rev_cases)
    case (snoc r x)
    then show ?thesis using os_Stat_plain [OF assms(1)] assms(2) by (simp add: is_link_def)
  qed simp
  finally show ?thesis .
qed

lemma create_file_new:
  assumes "base_ready bs w" and "clean_name n" and "node_at w (bs @ [n]) = None"
  shows "create_file (abs_path bs) (n, content) w = (None, set_node (bs @ [n]) (NFile (420 AND NOT (umask w)) content) w)"
proof -
  obtain m where m: "plain w bs" "node_at w bs = Some (NDir m)" "permits w m 64" "permits w m 128"
    using assms(1) by (rule base_readyE)
  have clean: "\<forall>c \<in> set bs. clean_name c" using m(1) by (simp add: plain_def)
  have p: "plain w (bs @ [n])" using plain_child [OF m(1-3) assms(2)] .
  have join: "Join (abs_path bs) n = abs_path (bs @ [n])"
    using Join_name [of w bs n] p assms(2) by (simp add: Split_clean_name)
  show ?thesis
    using os_OpenFile_plain_new [OF p assms(3) _ m(2,4)] os_MkdirAll_there [OF m(1,2)]
    by (simp add: create_file_def os_WriteFile_def join path_Dir_child [OF clean assms(2)] file_pwrite_def
        overwrite_append [of "[]", simplified])
qed

lemma create_files:
  assumes "base_ready bs w" and "distinct (map fst fs)"
    and "\<forall>(n, content) \<in> set fs. clean_name n \<and> node_at w (bs @ [n]) = None"
  shows "\<exists>w'. each_of (create_file (abs_path bs)) fs w = (None, w') \<and> base_ready bs w' \<and>
    (\<forall>(n, content) \<in> set fs. node_at w' (bs @ [n]) = Some (NFile (420 AND NOT (umask w)) content)) \<and>
    (\<forall>q. q \<notin> (\<lambda>f. bs @ [fst f]) ` set fs \<longrightarrow> node_at w' q = node_at w q)"
  using assms
proof (induction fs arbitrary: w)
  case (Cons f fs)
  obtain n content where f: "f = (n, content)" by fastforce
  let ?w = "set_node (bs @ [n]) (NFile (420 AND NOT (umask w)) content) w"
  have step: "create_file (abs_path bs) f w = (None, ?w)"
    using create_file_new [of bs w n content] Cons.prems f by simp
  have "\<forall>(m, c) \<in> set fs. clean_name m \<and> node_at ?w (bs @ [m]) = None"
    using Cons.prems(2,3) f by (force simp: image_iff)
  then obtain w' where "each_of (create_file (abs_path bs)) fs ?w = (None, w')" "base_ready bs w'"
    "\<forall>(m, c) \<in> set fs. node_at w' (bs @ [m]) = Some (NFile (420 AND NOT (umask w)) c)"
    "\<forall>q. q \<notin> (\<lambda>f. bs @ [fst f]) ` set fs \<longrightarrow> node_at w' q = node_at ?w q"
    using Cons.IH [of ?w] base_ready_set_file [OF Cons.prems(1)] Cons.prems(2) by auto
  moreover have "bs @ [n] \<notin> (\<lambda>f. bs @ [fst f]) ` set fs" using Cons.prems(2) f by (auto simp: image_iff)
  ultimately show ?case using step f by (intro exI [of _ w']) auto
qed simp

end
