(* ===== verification/Spec2Isabelle.thy ===== *)
theory Spec2Isabelle
  imports Chunk_Queue Transfer_Flow Downloader_Shutdown Peer_Controller Peer_Registry Network_Props Network_Transfer Late_Stamps Command Main_Props Init_Ends Dns_Mock Test_Storage
begin

text \<open>
  A verification development for p2pcp, a program that copies a directory from one host to many: every
  host that has received a part of the directory serves it to the others (Go sources under \<open>src/src\<close>).

  \<^bold>\<open>The program.\<close> A process is started with a source (it has the directory), with a destination (it
  wants it), or both. It makes a manifest, either by walking its source or by asking its peers for
  theirs, and cuts the files into chunks of ranges. It serves its manifest, the list of its finished
  chunks and the chunks over HTTP. For every peer that the peer provider reports, and for the source, a
  downloader runs one dispatcher and several workers: the dispatcher takes chunk indices from the queue
  of the downloader, claims a chunk by its status, and hands it to a worker, which requests it, writes
  its ranges into the files of the destination and marks it as done. When a downloader has counted all
  chunks, the download context is cancelled, the permissions are committed, the result is verified on
  request, and a command is run.

  \<^bold>\<open>Theories and sources.\<close>
  \<^item> \<open>Prelude\<close>: Go's value types, errors, fixed-width integers, windows of byte lists; \<open>Go_Strings\<close>,
    \<open>Go_Url\<close>, \<open>Go_Json\<close>, \<open>File_System\<close>: what the sources use of the standard library (\<open>strings\<close>, \<open>strconv\<close>,
    \<open>net/url\<close>, \<open>net\<close>, \<open>encoding/json\<close>, \<open>path/filepath\<close>, \<open>os\<close>), the last on a model of a Unix file system
    with permissions and symbolic links.
  \<^item> \<open>Entries\<close>, \<open>Chunks\<close> (\<open>types/entry.go\<close>, \<open>types/chunk.go\<close>, \<open>utils/atomic.go\<close>): the entries, the chunk with its
    status cell, and \<open>BuildChunks\<close>. A record has the fields of the struct, an atomic cell is its value.
  \<^item> \<open>Manifest_Data\<close>, \<open>Manifest_Json\<close>, \<open>Manifest_Build\<close>, \<open>Manifest_Props\<close> (\<open>transfer/manifest.go\<close>, \<open>constants\<close>,
    \<open>version\<close>): the manifest, its JSON and checksum, and the ways to obtain it.
  \<^item> \<open>Storage_Interface\<close>, \<open>Local_Storage\<close>, \<open>Local_Walk\<close>, \<open>Local_Storage_Props\<close> (\<open>storage/\<close>): the interface
    \<open>Storage\<close> as a record of operations over a world, the locale \<open>file_storage\<close> of what its clients rely
    on, and the local storage as its interpretation.
  \<^item> \<open>Chunk_Queue\<close>, \<open>Chunk_Manager\<close>, \<open>Chunk_Copy\<close>, \<open>Chunk_Transfer\<close>, \<open>Chunk_Transfer_Props\<close>, \<open>Transfer_Steps\<close>,
    \<open>Transfer_Flow\<close> (\<open>transfer/\<close>): the queue (locale \<open>work_queue\<close>), reading and writing of chunks, the
    preparation, completion and verification of a transfer. \<open>Chunk_Copy\<close> is proved inside
    \<open>file_storage\<close>, for any storage.
  \<^item> \<open>Downloader\<close>, \<open>Downloader_Invariants\<close>, \<open>Downloader_Props\<close>, \<open>Downloader_Shutdown\<close>,
    \<open>Late_Stamps\<close> (\<open>downloader.go\<close>): the dispatcher and
    the workers as program counters with one step per atomic operation, any number of downloaders in
    any interleaving, and an abstract transfer that they refine.
  \<^item> \<open>Http_Client\<close>, \<open>Http_Server\<close> (\<open>http/\<close>, \<open>http_server.go\<close>, \<open>available_list.go\<close>), \<open>Peer_Downloader\<close>, \<open>Peer_Updates\<close>
    (\<open>peer_downloader.go\<close>, \<open>local_downloader.go\<close>), \<open>Network\<close>, \<open>Network_Chunks\<close>, \<open>Network_Lists\<close>, \<open>Network_Props\<close>,
    \<open>Network_Transfer\<close>: the requests and their answers, and both ends put together.
  \<^item> \<open>Peers\<close>, \<open>Peers_Props\<close>, \<open>Peer_Controller\<close>, \<open>Peer_Registry\<close> (\<open>peers/\<close>): addresses, the four providers (locale
    \<open>peer_provider\<close>), the controller with its callbacks (locale \<open>peer_callbacks\<close>, interpreted on the
    table of downloaders), the registration.
  \<^item> \<open>Statistics\<close>, \<open>Command\<close> (\<open>statistics.go\<close>, \<open>utils/command.go\<close>), \<open>Main_Program\<close>, \<open>Main_Props\<close>, \<open>Main_Init\<close>, \<open>Init_Ends\<close>
    (\<open>main.go\<close>, \<open>DownloadFiles\<close>): the counters, the commands, and the program around the rest.
  \<^item> \<open>Dns_Mock\<close>, \<open>Test_Storage\<close> (\<open>testutil/\<close>): the DNS server of the tests, from the bytes of a query to
    those of the answer, and the generator of test directories.

  \<^bold>\<open>What the theorems show.\<close> Chunks: the ranges partition the files, keep the limits of size and number,
  and joining their data gives the files back. Storage: preparing, writing and reading do what the
  interface promises; the walk ends and reports every entry. Transfer: chunks that are written in any
  order copy the files, complete each file once, and a whole transfer leaves the source's contents and
  permissions. Downloader: no chunk is transferred twice at a time, done chunks stay done, none is lost,
  \<open>Completed\<close> implies that all are done, every step refines the abstract transfer, no downloader is
  ever stuck, and after the cancellation a bounded number of its steps remains. Network: a joining peer obtains the manager of the source; a chunk arrives with its bytes
  and checksum through either encoding exactly if the server may serve it; a poll marks exactly the
  chunks that were finished since the last one; a directory is copied over HTTP. Peers: addresses are
  normalised, lists are merged without duplicates, the controller and the table of downloaders agree.
  Program: \<open>Init\<close> always returns; what it accepts; the exit code in every order of events, and that \<open>Stop\<close> returns with
  every command executed once. Theorems that show weak points of the code (an interrupted transfer
  that exits with 0, names outside the base directory, a late time stamp, panics on unchecked input)
  are marked in their claims.

  \<^bold>\<open>Bounds and fuel.\<close> \<open>BuildChunks\<close> and \<open>io_Copy\<close> are \<open>partial_function (option)\<close>, so that a loop that does not
  end is the value \<open>None\<close>; for positive chunk sizes \<open>BuildChunks\<close> is proved to end for all sizes of files
  (\<open>Init_Ends\<close>), and with chunk size 0, which \<open>Init\<close> refuses, to diverge. The JSON parser has the fuel \<open>2 * length s + 2\<close>, which the round trip shows to be
  enough for all that is written; the walk takes the number of paths as the depth (\<open>scan_fuel_enough\<close>).
  Loops over time (the rounds of the manifest search, of the polls, the heartbeats, the wait for a
  host) take the list of what they meet. Integers wrap at 64 or 32 bits where the code computes sizes
  and counters (\<open>i64\<close>, \<open>i32\<close>), checksums and modes are words.

  \<^bold>\<open>Parameters.\<close> The hash (xxh3), the compressor (gozstd), DNS, the shell, the order of the shuffle and the
  network are arguments of the definitions; the formatting of times (RFC 3339 with zones) is a codec
  whose round trip is a hypothesis. The deadline of a context is an error of the network.

  \<^bold>\<open>Not modelled.\<close> The logger (\<open>utils/logger.go\<close>) and the usage message, which only print; the
  limits of the HTTP transport (connections and idle time); of
  \<open>encoding/json\<close>, duplicate keys, the difference of nil and empty slices and the limit of nesting; the
  path cleaning of the HTTP mux; connections that break in the middle of an answer of the server,
  which for the client are readers that end with an error. What the downloaders do during
  \<open>DownloadFiles\<close> is an argument of that function; the composition with the step relation of the
  downloaders is by the chunks they have written.
\<close>

end
